(* ===== verification/Go_Path.thy ===== *)
theory Go_Path
  imports Go_Prelude
begin

text \<open>
  Package \<^verbatim>\<open>path\<close> (and \<^verbatim>\<open>path/filepath\<close> on a Unix host, where the two agree): the
  lexical normal form \<^verbatim>\<open>Clean\<close>, \<^verbatim>\<open>Dir\<close>, \<^verbatim>\<open>Base\<close>, \<^verbatim>\<open>Join\<close> and
  \<^verbatim>\<open>fs.ValidPath\<close>.  A cleaned path is a stack of components; the lemmas characterise it
  by its components, which is what the traversal-safety theorems of the storage and server
  components rest on.
\<close>

abbreviation slash :: char where
  "slash \<equiv> CHR ''/''"

subsection \<open>Clean\<close>

text \<open>
  One component is pushed on the (reversed) stack, or, for \<^verbatim>\<open>..\<close>, pops it.  At the bottom
  of a rooted path \<^verbatim>\<open>..\<close> is dropped; at the bottom of a relative one it is kept.
\<close>

definition clean_step :: "bool \<Rightarrow> string list \<Rightarrow> string \<Rightarrow> string list" where
  "clean_step rooted st c =
     (if c = [] \<or> c = ''.'' then st
      else if c = ''..'' then
        (case st of
           [] \<Rightarrow> if rooted then [] else [''..'']
         | t # ts \<Rightarrow> if t = ''..'' then ''..'' # st else ts)
      else c # st)"

definition clean_comps :: "bool \<Rightarrow> string \<Rightarrow> string list" where
  "clean_comps rooted p = rev (foldl (clean_step rooted) [] (Split p slash))"

definition IsAbs :: "string \<Rightarrow> bool" where
  "IsAbs p = HasPrefix p ''/''"

definition Clean :: "string \<Rightarrow> string" where
  "Clean p =
     (let cs = clean_comps (IsAbs p) p
      in if IsAbs p then slash # Join cs ''/'' else if cs = [] then ''.'' else Join cs ''/'')"

subsection \<open>Dir, Base, Join and ValidPath\<close>

text \<open>\<^verbatim>\<open>path.Split\<close>: what stands up to and including the last slash.\<close>

definition dir_part :: "string \<Rightarrow> string" where
  "dir_part p = rev (dropWhile (\<lambda>c. c \<noteq> slash) (rev p))"

definition file_part :: "string \<Rightarrow> string" where
  "file_part p = rev (takeWhile (\<lambda>c. c \<noteq> slash) (rev p))"

definition Dir :: "string \<Rightarrow> string" where
  "Dir p = Clean (dir_part p)"

definition Base :: "string \<Rightarrow> string" where
  "Base p =
     (if p = [] then ''.''
      else let f = file_part (TrimRight p slash) in if f = [] then ''/'' else f)"

definition path_Join :: "string \<Rightarrow> string \<Rightarrow> string" where
  "path_Join a b =
     (if a = [] \<and> b = [] then [] else if a = [] then Clean b
      else if b = [] then Clean a else Clean (a @ ''/'' @ b))"

text \<open>An ordinary component: not empty, not a dot, not a double dot and without a slash.\<close>

definition ordinary :: "string \<Rightarrow> bool" where
  "ordinary c \<longleftrightarrow> c \<noteq> [] \<and> c \<noteq> ''.'' \<and> c \<noteq> ''..'' \<and> slash \<notin> set c"

definition ValidPath :: "string \<Rightarrow> bool" where
  "ValidPath p = (p = ''.'' \<or> (\<forall>c \<in> set (Split p slash). c \<noteq> [] \<and> c \<noteq> ''.'' \<and> c \<noteq> ''..''))"

subsection \<open>The shape of a cleaned path\<close>

fun dotdots :: "string list \<Rightarrow> bool" where
  "dotdots [] = True"
| "dotdots (c # st) = (c = ''..'' \<and> dotdots st)"

lemma dotdots_mem: "dotdots st \<Longrightarrow> c \<in> set st \<Longrightarrow> c = ''..''"
  by (induction st) auto

lemma dotdots_append [simp]: "dotdots (xs @ ys) = (dotdots xs \<and> dotdots ys)"
  by (induction xs) auto

lemma dotdots_snoc: "dotdots st \<Longrightarrow> st @ [''..''] = ''..'' # st"
  by (induction st) auto

text \<open>A stack is in normal form when ordinary components lie above a run of double dots.\<close>

fun stack_ok :: "bool \<Rightarrow> string list \<Rightarrow> bool" where
  "stack_ok rooted [] = True"
| "stack_ok rooted (c # st) =
     (if c = ''..'' then \<not> rooted \<and> dotdots st else ordinary c \<and> stack_ok rooted st)"

lemma dotdots_stack_ok: "dotdots st \<Longrightarrow> \<not> rooted \<Longrightarrow> stack_ok rooted st"
  by (cases st) auto

lemma clean_step_ok:
  "\<lbrakk>stack_ok rooted st; slash \<notin> set c\<rbrakk> \<Longrightarrow> stack_ok rooted (clean_step rooted st c)"
  by (cases st) (auto simp: clean_step_def ordinary_def intro: dotdots_stack_ok)

lemma foldl_clean_ok:
  "\<lbrakk>stack_ok rooted st; \<forall>c \<in> set cs. slash \<notin> set c\<rbrakk>
    \<Longrightarrow> stack_ok rooted (foldl (clean_step rooted) st cs)"
  by (induction cs arbitrary: st) (auto simp: clean_step_ok)

lemma clean_comps_ok: "stack_ok rooted (rev (clean_comps rooted p))"
  unfolding clean_comps_def by (auto intro!: foldl_clean_ok dest: Split_no_sep)

lemma stack_ok_ordinary:
  "\<lbrakk>stack_ok rooted st; ''..'' \<notin> set st\<rbrakk> \<Longrightarrow> \<forall>c \<in> set st. ordinary c"
  by (induction st) (auto split: if_splits)

lemma stack_ok_rooted: "stack_ok True st \<Longrightarrow> \<forall>c \<in> set st. ordinary c"
  by (induction st) (auto split: if_splits)

lemma stack_ok_bottom:
  "\<lbrakk>stack_ok rooted st; ''..'' \<in> set st\<rbrakk> \<Longrightarrow> last st = ''..''"
proof (induction st)
  case (Cons c st)
  then show ?case
    by (cases "st = []") (auto split: if_splits dest: dotdots_mem [OF _ last_in_set])
qed simp

text \<open>In a relative path the double dots come first, so one look at the first component decides.\<close>

lemma clean_comps_hd:
  assumes "hd (clean_comps rooted p) \<noteq> ''..''"
  shows "\<forall>c \<in> set (clean_comps rooted p). ordinary c"
proof (cases "clean_comps rooted p = []")
  case False
  with assms have "last (rev (clean_comps rooted p)) \<noteq> ''..''"
    by (simp add: last_rev)
  then have "''..'' \<notin> set (clean_comps rooted p)"
    using stack_ok_bottom [OF clean_comps_ok, of rooted p] by auto
  then show ?thesis
    using stack_ok_ordinary [OF clean_comps_ok, of rooted p] by auto
qed simp

lemma clean_comps_rooted: "\<forall>c \<in> set (clean_comps True p). ordinary c"
  using stack_ok_rooted [OF clean_comps_ok, of p] by simp

lemma stack_ok_no_slash: "stack_ok rooted st \<Longrightarrow> c \<in> set st \<Longrightarrow> slash \<notin> set c \<and> c \<noteq> []"
  by (induction st) (auto simp: ordinary_def split: if_splits dest: dotdots_mem)

lemma clean_comps_no_slash:
  "c \<in> set (clean_comps rooted p) \<Longrightarrow> slash \<notin> set c \<and> c \<noteq> []"
  using stack_ok_no_slash [OF clean_comps_ok, of c rooted p] by simp

lemma ordinary_ValidPath:
  assumes "cs \<noteq> []" and "\<forall>c \<in> set cs. ordinary c"
  shows "ValidPath (Join cs ''/'')"
proof -
  have "Split (Join cs ''/'') slash = cs"
    using assms by (intro Split_Join) (auto simp: ordinary_def)
  with assms show ?thesis
    by (auto simp: ValidPath_def ordinary_def)
qed

subsection \<open>Cleaning a path that is clean already\<close>

lemma foldl_clean_ordinary:
  "\<forall>c \<in> set cs. ordinary c \<Longrightarrow> foldl (clean_step rooted) st cs = rev cs @ st"
  by (induction cs arbitrary: st) (auto simp: clean_step_def ordinary_def)

lemma foldl_clean_dotdots:
  "dotdots cs \<Longrightarrow> dotdots st \<Longrightarrow> foldl (clean_step False) st cs = cs @ st"
proof (induction cs arbitrary: st)
  case (Cons c cs)
  have "clean_step False st c = ''..'' # st"
    using Cons.prems by (cases st) (auto simp: clean_step_def)
  moreover have "cs @ ''..'' # st = (''..'' # cs) @ st"
    using Cons.prems(1) dotdots_snoc [of cs] by simp
  ultimately show ?case
    using Cons by auto
qed simp

lemma stack_ok_split:
  "stack_ok rooted st \<Longrightarrow>
     \<exists>cs ds. st = cs @ ds \<and> (\<forall>c \<in> set cs. ordinary c) \<and> dotdots ds \<and> (rooted \<longrightarrow> ds = [])"
proof (induction st)
  case (Cons c st)
  show ?case
  proof (cases "c = ''..''")
    case True
    then have "c # st = [] @ (c # st)" and "dotdots (c # st)" and "\<not> rooted"
      using Cons.prems by auto
    then show ?thesis by (metis empty_iff set_empty)
  next
    case False
    then obtain cs ds where "st = cs @ ds" "\<forall>c \<in> set cs. ordinary c" "dotdots ds"
        "rooted \<longrightarrow> ds = []"
      using Cons by auto
    then have "c # st = (c # cs) @ ds" and "\<forall>d \<in> set (c # cs). ordinary d"
      using False Cons.prems by auto
    then show ?thesis
      using \<open>dotdots ds\<close> \<open>rooted \<longrightarrow> ds = []\<close> by blast
  qed
qed auto

lemma dotdots_rev [simp]: "dotdots (rev st) = dotdots st"
  by (induction st) auto

lemma dotdots_rev_eq: "dotdots st \<Longrightarrow> rev st = st"
  by (induction st) (auto simp: dotdots_snoc)

lemma foldl_clean_normal:
  assumes "stack_ok rooted st"
  shows "foldl (clean_step rooted) [] (rev st) = st"
proof -
  obtain cs ds where st: "st = cs @ ds" and cs: "\<forall>c \<in> set cs. ordinary c"
      and ds: "dotdots ds" and root: "rooted \<longrightarrow> ds = []"
    using stack_ok_split [OF assms] by blast
  have "foldl (clean_step rooted) [] (rev ds) = ds"
    using root ds foldl_clean_dotdots [of "rev ds" "[]"]
    by (cases rooted) (auto simp: dotdots_rev_eq)
  then show ?thesis
    using cs by (simp add: st foldl_clean_ordinary)
qed

lemma IsAbs_Join:
  "\<lbrakk>cs \<noteq> []; \<forall>c \<in> set cs. slash \<notin> set c \<and> c \<noteq> []\<rbrakk> \<Longrightarrow> \<not> IsAbs (Join cs ''/'')"
  by (cases cs; cases "hd cs"; cases "tl cs") (auto simp: IsAbs_def)

lemma clean_comps_Join:
  assumes "stack_ok rooted (rev cs)" "cs \<noteq> []"
  shows "clean_comps rooted (Join cs ''/'') = cs"
proof -
  have "Split (Join cs ''/'') slash = cs"
    using assms stack_ok_no_slash [OF assms(1)] by (intro Split_Join) auto
  then show ?thesis
    using foldl_clean_normal [OF assms(1)] by (simp add: clean_comps_def)
qed

lemma clean_comps_slash: "clean_comps True (slash # p) = clean_comps True p"
  by (simp add: clean_comps_def clean_step_def)

theorem Clean_idem: "Clean (Clean p) = Clean p"
proof (cases "IsAbs p")
  case True
  let ?cs = "clean_comps True p"
  have abs: "IsAbs (slash # Join ?cs ''/'')" by (simp add: IsAbs_def)
  have "clean_comps True (slash # Join ?cs ''/'') = ?cs"
  proof (cases "?cs = []")
    case False
    then show ?thesis
      using clean_comps_Join [OF clean_comps_ok] by (simp add: clean_comps_slash)
  qed (simp add: clean_comps_def clean_step_def)
  with True abs show ?thesis by (simp add: Clean_def)
next
  case False
  let ?cs = "clean_comps False p"
  show ?thesis
  proof (cases "?cs = []")
    case True
    with False show ?thesis
      by (simp add: Clean_def IsAbs_def clean_comps_def clean_step_def)
  next
    case ne: False
    then have "\<not> IsAbs (Join ?cs ''/'')"
      by (intro IsAbs_Join) (auto dest: clean_comps_no_slash)
    moreover have "clean_comps False (Join ?cs ''/'') = ?cs"
      using ne clean_comps_Join [OF clean_comps_ok] by simp
    ultimately show ?thesis
      using False ne by (simp add: Clean_def)
  qed
qed

subsection \<open>Cleaning never lengthens a path\<close>

fun weight :: "string list \<Rightarrow> nat" where
  "weight [] = 0"
| "weight (c # cs) = Suc (length c) + weight cs"

lemma weight_append [simp]: "weight (xs @ ys) = weight xs + weight ys"
  by (induction xs) auto

lemma weight_rev [simp]: "weight (rev xs) = weight xs"
  by (induction xs) auto

lemma weight_Split: "weight (Split s sep) = Suc (length s)"
  by (induction s) (auto split: list.splits)

lemma length_Join: "cs \<noteq> [] \<Longrightarrow> Suc (length (Join cs ''/'')) = weight cs"
proof (induction cs)
  case (Cons c cs)
  then show ?case by (cases cs) auto
qed simp

lemma weight_clean_step:
  "weight (clean_step rooted st c) \<le> weight st + (if c = [] then 0 else Suc (length c))"
  by (cases st) (auto simp: clean_step_def)

lemma weight_foldl_clean:
  "weight (foldl (clean_step rooted) st cs) \<le> weight st + weight (filter (\<lambda>c. c \<noteq> []) cs)"
proof (induction cs arbitrary: st)
  case (Cons c cs)
  show ?case
    using Cons.IH [of "clean_step rooted st c"] weight_clean_step [of rooted st c]
    by (auto split: if_splits)
qed simp

lemma weight_clean_comps:
  "weight (clean_comps rooted p) \<le> weight (filter (\<lambda>c. c \<noteq> []) (Split p slash))"
  using weight_foldl_clean [of rooted "[]" "Split p slash"] by (simp add: clean_comps_def)

lemma weight_filter_le: "weight (filter P cs) \<le> weight cs"
  by (induction cs) auto

lemma length_Clean_le:
  assumes "p \<noteq> []"
  shows "length (Clean p) \<le> length p"
proof (cases "IsAbs p")
  case True
  then obtain q where p: "p = slash # q" by (auto simp: IsAbs_def HasPrefix_iff)
  have "weight (clean_comps True p) \<le> weight (Split q slash)"
    using weight_clean_comps [of True p] weight_filter_le [of "\<lambda>c. c \<noteq> []" "Split q slash"]
    by (auto simp: p)
  then have w: "weight (clean_comps True p) \<le> length p"
    by (simp add: weight_Split p)
  show ?thesis
  proof (cases "clean_comps True p = []")
    case False
    then show ?thesis
      using w True length_Join [OF False] by (simp add: Clean_def)
  qed (use True in \<open>simp add: Clean_def Let_def p\<close>)
next
  case False
  have w: "weight (clean_comps False p) \<le> Suc (length p)"
    using weight_clean_comps [of False p] weight_filter_le [of "\<lambda>c. c \<noteq> []" "Split p slash"]
    by (simp add: weight_Split)
  show ?thesis
  proof (cases "clean_comps False p = []")
    case ne: False
    then show ?thesis
      using w False length_Join [OF ne] by (simp add: Clean_def)
  next
    case True
    then show ?thesis
      using False assms by (cases p) (auto simp: Clean_def)
  qed
qed

lemma Split_snoc_sep: "Split (s @ [sep]) sep = Split s sep @ [[]]"
  by (induction s) (auto split: list.splits)

lemma Clean_snoc_slash: "q \<noteq> [] \<Longrightarrow> Clean (q @ ''/'') = Clean q"
proof -
  assume "q \<noteq> []"
  then have "IsAbs (q @ ''/'') = IsAbs q" by (cases q) (auto simp: IsAbs_def)
  then show ?thesis by (simp add: Clean_def clean_comps_def Split_snoc_sep clean_step_def)
qed

lemma Clean_Nil [simp]: "Clean [] = ''.''"
  by (simp add: Clean_def IsAbs_def clean_comps_def clean_step_def)

text \<open>The parent of a path is shorter, or it is the dot, or the path is the root.\<close>

lemma Dir_shorter: "Dir p = ''.'' \<or> Dir p = p \<or> length (Dir p) < length p"
proof (cases "rev p")
  case Nil
  then show ?thesis by (simp add: Dir_def dir_part_def Clean_def IsAbs_def clean_comps_def clean_step_def)
next
  case (Cons c r)
  then have p: "p = rev r @ [c]" by (metis rev.simps(2) rev_rev_ident)
  show ?thesis
  proof (cases "c = slash")
    case True
    then have d: "Dir p = Clean p" by (simp add: Dir_def dir_part_def p)
    show ?thesis
    proof (cases "r = []")
      case True
      then show ?thesis using d \<open>c = slash\<close> by (simp add: p Clean_def IsAbs_def clean_comps_def clean_step_def)
    next
      case False
      then have "length (Clean p) \<le> length (rev r)"
        using Clean_snoc_slash [of "rev r"] length_Clean_le [of "rev r"] \<open>c = slash\<close> by (simp add: p)
      then show ?thesis using d by (simp add: p)
    qed
  next
    case False
    have "length (dir_part p) < length p"
      using False length_dropWhile_le [of "\<lambda>c. c \<noteq> slash" r] by (simp add: dir_part_def p)
    moreover have "dir_part p = [] \<Longrightarrow> Dir p = ''.''"
      by (simp add: Dir_def Clean_def IsAbs_def clean_comps_def clean_step_def)
    ultimately show ?thesis
      using length_Clean_le [of "dir_part p"] by (fastforce simp: Dir_def)
  qed
qed

subsection \<open>Paths given by ordinary components\<close>

definition rel_path :: "string list \<Rightarrow> string" where
  "rel_path cs = (if cs = [] then ''.'' else Join cs ''/'')"

lemma ordinary_stack_ok: "\<forall>c \<in> set cs. ordinary c \<Longrightarrow> stack_ok rooted cs"
  by (induction cs) (auto simp: ordinary_def)

lemma Clean_Join_ordinary:
  assumes "\<forall>c \<in> set cs. ordinary c"
  shows "Clean (rel_path cs) = rel_path cs"
proof (cases "cs = []")
  case True
  then show ?thesis by (simp add: rel_path_def Clean_def IsAbs_def clean_comps_def clean_step_def)
next
  case False
  have "\<not> IsAbs (Join cs ''/'')"
    using False assms by (intro IsAbs_Join) (auto simp: ordinary_def)
  moreover have "clean_comps False (Join cs ''/'') = cs"
    using False assms ordinary_stack_ok [of "rev cs"] by (intro clean_comps_Join) auto
  ultimately show ?thesis using False by (simp add: Clean_def rel_path_def)
qed

lemma dropWhile_no_slash:
  "slash \<notin> set c \<Longrightarrow> dropWhile (\<lambda>x. x \<noteq> slash) (rev c @ r) = dropWhile (\<lambda>x. x \<noteq> slash) r"
  by (rule dropWhile_append2) auto

lemma takeWhile_no_slash:
  "slash \<notin> set c \<Longrightarrow> takeWhile (\<lambda>x. x \<noteq> slash) (rev c @ r) = rev c @ takeWhile (\<lambda>x. x \<noteq> slash) r"
  by (rule takeWhile_append2) auto

lemma rel_path_snoc:
  "rel_path (cs @ [c]) = (if cs = [] then c else rel_path cs @ ''/'' @ c)"
  by (auto simp: rel_path_def Join_append)

lemma rel_path_single: "rel_path [c] = c"
  by (simp add: rel_path_def)

lemma rel_path_no_trailing:
  assumes "ordinary c"
  shows "TrimRight (rel_path (cs @ [c])) slash = rel_path (cs @ [c])"
proof -
  obtain d e where "c = d @ [e]" "e \<noteq> slash"
    using assms by (cases c rule: rev_cases) (auto simp: ordinary_def)
  then show ?thesis by (auto simp: rel_path_snoc TrimRight_def)
qed

lemma Base_rel_path:
  assumes "ordinary c"
  shows "Base (rel_path (cs @ [c])) = c"
proof -
  have c: "slash \<notin> set c" "c \<noteq> []" using assms by (auto simp: ordinary_def)
  then have "file_part (rel_path (cs @ [c])) = c"
    using takeWhile_no_slash [of c "[]"] takeWhile_no_slash [of c "slash # rev (rel_path cs)"]
    by (cases "cs = []") (simp_all add: rel_path_single rel_path_snoc file_part_def del: takeWhile_eq_all_conv)
  moreover have "rel_path (cs @ [c]) \<noteq> []"
    using c by (auto simp: rel_path_snoc)
  ultimately show ?thesis
    using c rel_path_no_trailing [OF assms] by (simp add: Base_def)
qed

lemma rel_path_ne: "\<forall>c \<in> set cs. ordinary c \<Longrightarrow> rel_path cs \<noteq> []"
proof (cases cs rule: rev_cases)
  case (snoc ds d)
  assume "\<forall>c \<in> set cs. ordinary c"
  then show ?thesis using snoc by (simp add: rel_path_snoc ordinary_def)
qed (simp add: rel_path_def)

lemma Dir_rel_path:
  assumes "\<forall>d \<in> set (cs @ [c]). ordinary d"
  shows "Dir (rel_path (cs @ [c])) = rel_path cs"
proof -
  have c: "slash \<notin> set c" using assms by (auto simp: ordinary_def)
  show ?thesis
  proof (cases "cs = []")
    case True
    then show ?thesis using dropWhile_no_slash [OF c, of "[]"]
      by (simp add: rel_path_def Dir_def dir_part_def del: dropWhile_eq_Nil_conv)
  next
    case False
    then have "dir_part (rel_path (cs @ [c])) = rel_path cs @ ''/''"
      using dropWhile_no_slash [OF c, of "slash # rev (rel_path cs)"]
      by (simp add: rel_path_snoc dir_part_def)
    then show ?thesis
      using Clean_snoc_slash [of "rel_path cs"] Clean_Join_ordinary [of cs] rel_path_ne [of cs] assms
      by (simp add: Dir_def)
  qed
qed

lemma rel_path_inj:
  assumes "\<forall>c \<in> set cs. ordinary c" "\<forall>c \<in> set ds. ordinary c" "rel_path cs = rel_path ds"
  shows "cs = ds"
proof -
  have sp: "Split (rel_path es) slash = (if es = [] then [''.''] else es)"
    if es: "\<forall>c \<in> set es. ordinary c" for es
  proof (cases "es = []")
    case False
    have "\<forall>c \<in> set es. slash \<notin> set c" using es by (simp add: ordinary_def)
    then show ?thesis using False Split_Join [OF False] by (simp add: rel_path_def)
  qed (simp add: rel_path_def)
  have dot: "es \<noteq> [''.'']" if "\<forall>c \<in> set es. ordinary c" for es
  proof
    assume "es = [''.'']"
    with that have "ordinary ''.''" by simp
    then show False by (simp add: ordinary_def)
  qed
  have "(if cs = [] then [''.''] else cs) = (if ds = [] then [''.''] else ds)"
    using sp [OF assms(1)] sp [OF assms(2)] unfolding assms(3) by simp
  then show ?thesis
    using dot [OF assms(1)] dot [OF assms(2)] by (cases "cs = []"; cases "ds = []") simp_all
qed

lemma rel_path_ValidPath: "\<forall>c \<in> set cs. ordinary c \<Longrightarrow> ValidPath (rel_path cs)"
  using ordinary_ValidPath [of cs] by (auto simp: rel_path_def) (simp add: ValidPath_def)

end
