(* ===== verification/Wire.thy ===== *)
theory Wire
  imports Go_Prelude
begin

text \<open>
  The data of \<^verbatim>\<open>internal/wire\<close>: the structs the HTTP API carries between the CLI and the
  daemon.  A nil pointer field is \<^const>\<open>None\<close>; \<^verbatim>\<open>int64\<close> counters are integers, with the
  wrap-around written out by \<^verbatim>\<open>wrap64\<close> at the places where the code computes with them.
\<close>

text \<open>Two's complement wrap-around of a 64-bit signed result.\<close>

definition wrap64 :: "int \<Rightarrow> int" where
  "wrap64 i = (i + 2 ^ 63) mod 2 ^ 64 - 2 ^ 63"

lemma wrap64_id: "- (2 ^ 63) \<le> i \<Longrightarrow> i < 2 ^ 63 \<Longrightarrow> wrap64 i = i"
  by (simp add: wrap64_def)

lemma wrap64_range: "- (2 ^ 63) \<le> wrap64 i \<and> wrap64 i < 2 ^ 63"
  by (simp add: wrap64_def)

record site =
  Site_Name :: string
  Site_UpdatedAt :: time
  Site_SizeBytes :: int
  Site_FileCount :: int
  Site_ExpiresAt :: "time option"

record token_info =
  TI_ID :: string
  TI_Name :: string
  TI_CreatedAt :: time
  TI_ExpiresAt :: "time option"
  TI_LastUsedAt :: "time option"

record create_token_request =
  Req_Name :: string
  Req_Expires :: string

text \<open>
  The response bodies, one constructor for each struct that \<^verbatim>\<open>writeJSON\<close> is given.  The text of
  an error is kept as what it says.
\<close>

datatype 'e body =
    ListSitesResponse "site list"
  | PutSiteResponse site string
  | StatusResponse string int string
  | HealthResponse string
  | CreateTokenResponse string token_info
  | ListTokensResponse "token_info list"
  | ErrorResponse 'e

definition HeaderAuth :: string where
  "HeaderAuth = ''Authorization''"

definition HeaderExpires :: string where
  "HeaderExpires = ''X-Crate-Expires''"

definition HeaderRequestID :: string where
  "HeaderRequestID = ''X-Request-ID''"

definition PathAPISites :: string where
  "PathAPISites = ''/api/sites''"

definition PathAPIStatus :: string where
  "PathAPIStatus = ''/api/status''"

definition PathAPITokens :: string where
  "PathAPITokens = ''/api/tokens''"

end
