(* ===== verification/Storage_Policy.thy ===== *)
theory Storage_Policy
  imports Go_Path Wire
begin

text \<open>
  The rules every storage backend shares (\<^verbatim>\<open>internal/storage/storage.go\<close>): the site-name
  policy, the traversal check on archive entries, the errors, and the archive as
  \<^verbatim>\<open>tar.Reader\<close> presents it to the two unpackers.
\<close>

section \<open>Errors\<close>

datatype store_err =
    ErrInvalidName string
  | ErrNotFound
  | ErrUnsafePath string
  | ErrSiteTooLarge int
  | ErrTarRead
  | ErrCopy
  | ErrNotExist
  | ErrOS string
  | ErrParseExpiry string
  | ErrResp nat string
  | ErrConflict string
  | ErrReadUpload
  | ErrDecode string
  | ErrRand
  | ErrWrap string store_err

text \<open>\<^verbatim>\<open>errors.Is\<close> looks through the wrapping of \<^verbatim>\<open>fmt.Errorf("...: %w", err)\<close>.\<close>

fun is_ErrNotFound :: "store_err \<Rightarrow> bool" where
  "is_ErrNotFound ErrNotFound = True"
| "is_ErrNotFound (ErrWrap m e) = is_ErrNotFound e"
| "is_ErrNotFound _ = False"

fun is_ErrUnsafePath :: "store_err \<Rightarrow> bool" where
  "is_ErrUnsafePath (ErrUnsafePath n) = True"
| "is_ErrUnsafePath (ErrWrap m e) = is_ErrUnsafePath e"
| "is_ErrUnsafePath _ = False"

fun is_ErrSiteTooLarge :: "store_err \<Rightarrow> bool" where
  "is_ErrSiteTooLarge (ErrSiteTooLarge n) = True"
| "is_ErrSiteTooLarge (ErrWrap m e) = is_ErrSiteTooLarge e"
| "is_ErrSiteTooLarge _ = False"

section \<open>Site names\<close>

definition lower_alnum :: "char \<Rightarrow> bool" where
  "lower_alnum c = ((CHR ''a'' \<le> c \<and> c \<le> CHR ''z'') \<or> (CHR ''0'' \<le> c \<and> c \<le> CHR ''9''))"

definition name_char :: "char \<Rightarrow> bool" where
  "name_char c = (lower_alnum c \<or> c \<in> {CHR ''.'', CHR ''_'', CHR ''-''})"

text \<open>\<^verbatim>\<open>nameRE\<close>: one lower-case letter or digit, then at most 62 name characters.\<close>

fun nameRE :: "string \<Rightarrow> bool" where
  "nameRE [] = False"
| "nameRE (c # cs) = (lower_alnum c \<and> length cs \<le> 62 \<and> list_all name_char cs)"

definition ValidateName :: "string \<Rightarrow> store_err option" where
  "ValidateName name = (if nameRE name then None else Some (ErrInvalidName name))"

lemma ValidateName_None [simp]: "ValidateName name = None \<longleftrightarrow> nameRE name"
  by (simp add: ValidateName_def)

lemma slash_not_name_char: "\<not> name_char slash"
  by (simp add: name_char_def lower_alnum_def less_eq_char_def)

lemma lower_alnum_not_dot: "lower_alnum c \<Longrightarrow> c \<noteq> CHR ''.'' \<and> c \<noteq> slash"
  by (auto simp: lower_alnum_def less_eq_char_def)

lemma nameRE_ordinary:
  assumes "nameRE name"
  shows "ordinary name"
proof -
  obtain c cs where "name = c # cs" "lower_alnum c" "list_all name_char cs"
    using assms by (cases name) auto
  then show ?thesis
    using lower_alnum_not_dot [of c] slash_not_name_char
    by (auto simp: ordinary_def list_all_iff)
qed

lemma nameRE_chars:
  assumes "nameRE name" "c \<in> set name"
  shows "name_char c" "c \<noteq> CHR 0x5C" "c \<noteq> CHR ''%''" "c \<noteq> slash"
proof -
  show ok: "name_char c" using assms by (cases name) (auto simp: list_all_iff name_char_def)
  show "c \<noteq> CHR 0x5C" "c \<noteq> CHR ''%''" "c \<noteq> slash"
    using ok by (auto simp: name_char_def lower_alnum_def less_eq_char_def)
qed

lemma nameRE_length: "nameRE name \<Longrightarrow> 0 < length name \<and> length name \<le> 63"
  by (cases name) auto

section \<open>The traversal check\<close>

definition SafeTarPath :: "string \<Rightarrow> store_err + string" where
  "SafeTarPath name =
     (let clean = Clean name
      in if clean = ''..'' \<or> HasPrefix clean ''../'' \<or> HasPrefix clean ''/''
         then Inl (ErrUnsafePath name) else Inr clean)"

lemma HasPrefix_slash_Join:
  "\<lbrakk>cs \<noteq> []; \<forall>c \<in> set cs. slash \<notin> set c \<and> c \<noteq> []; hd cs = ''..''\<rbrakk>
    \<Longrightarrow> Join cs ''/'' = ''..'' \<or> HasPrefix (Join cs ''/'') ''../''"
  by (cases cs; cases "tl cs") auto

text \<open>What an accepted name is: the dot, or ordinary components separated by slashes.\<close>

lemma SafeTarPath_comps:
  assumes "SafeTarPath name = Inr clean"
  shows "clean = Clean name \<and> \<not> IsAbs name \<and>
    (clean = ''.'' \<and> clean_comps False name = [] \<or>
     clean = Join (clean_comps False name) ''/'' \<and> clean_comps False name \<noteq> []) \<and>
    (\<forall>c \<in> set (clean_comps False name). ordinary c)"
proof -
  let ?cs = "clean_comps False name"
  have clean: "clean = Clean name" and ok: "clean \<noteq> ''..''" "\<not> HasPrefix clean ''../''"
      "\<not> HasPrefix clean ''/''"
    using assms by (auto simp: SafeTarPath_def Let_def split: if_splits)
  then have rel: "\<not> IsAbs name" by (auto simp: Clean_def Let_def)
  have shape: "clean = (if ?cs = [] then ''.'' else Join ?cs ''/'')"
    using clean rel by (simp add: Clean_def)
  have "?cs = [] \<or> hd ?cs \<noteq> ''..''"
  proof (rule ccontr)
    assume "\<not> (?cs = [] \<or> hd ?cs \<noteq> ''..'')"
    then show False
      using HasPrefix_slash_Join [of ?cs] clean_comps_no_slash [of _ False name] shape ok by auto
  qed
  then have "\<forall>c \<in> set ?cs. ordinary c"
    using clean_comps_hd [of False name] by auto
  then show ?thesis
    using clean rel shape by (auto split: if_splits)
qed

section \<open>Archives\<close>

datatype typeflag = TypeReg | TypeRegA | TypeDir | TypeSymlink | TypeLink | TypeOther

record tar_entry =
  hdr_Name :: string
  hdr_Typeflag :: typeflag
  hdr_data :: bytes

text \<open>
  What \<^verbatim>\<open>tr.Next()\<close> answers, call after call: an entry with its data, an entry whose data
  breaks off with a read error (after which nothing more can be read), the end of the archive,
  or a read error.
\<close>

datatype tar_stream =
    TarEOF
  | TarErr
  | TarTrunc tar_entry
  | TarNext tar_entry tar_stream

text \<open>
  \<^verbatim>\<open>io.Copy\<close> from the current entry, through \<^verbatim>\<open>io.LimitReader(tr, n)\<close> when a limit is
  given: the bytes copied, and whether the copy failed.  A reader limited to \<^verbatim>\<open>n\<close> stops
  after \<^verbatim>\<open>n\<close> bytes; with \<^verbatim>\<open>n <= 0\<close> it is at its end at once.
\<close>

definition copy_entry :: "int option \<Rightarrow> bytes \<Rightarrow> bool \<Rightarrow> bytes \<times> bool" where
  "copy_entry lim d broken =
     (case lim of
        None \<Rightarrow> (d, broken)
      | Some n \<Rightarrow> if n \<le> int (length d) then (take (nat n) d, False) else (d, broken))"

text \<open>The limit both unpackers compute: \<^verbatim>\<open>limit-written+1\<close> in 64-bit arithmetic.\<close>

definition copy_limit :: "int \<Rightarrow> int \<Rightarrow> int option" where
  "copy_limit limit written = (if limit > 0 then Some (wrap64 (limit - written + 1)) else None)"

end
