(* ===== verification/Mem_FS.thy ===== *)
theory Mem_FS
  imports Storage_Policy
begin

text \<open>
  \<^verbatim>\<open>internal/s3store/memfs.go\<close>: the in-memory file system an uploaded archive is expanded
  into, its unpacker and its read operations.  The map of files is an association list with
  the newest entry first (its keys stay distinct), the set of directories a predicate, the
  children of a directory a list that is empty for an unknown directory.
\<close>

section \<open>The file system and its construction\<close>

record memfs =
  mf_files :: "(string \<times> bytes) list"
  mf_isDir :: "string \<Rightarrow> bool"
  mf_kids :: "string \<Rightarrow> string list"
  mf_mod :: time

definition empty_memfs :: "time \<Rightarrow> memfs" where
  "empty_memfs now =
     \<lparr>mf_files = [], mf_isDir = (\<lambda>d. d = ''.''), mf_kids = (\<lambda>d. []), mf_mod = now\<rparr>"

definition add_kid :: "memfs \<Rightarrow> string \<Rightarrow> string \<Rightarrow> memfs" where
  "add_kid m dir c = m\<lparr>mf_kids := (mf_kids m)(dir := mf_kids m dir @ [c])\<rparr>"

text \<open>
  The loop of \<^verbatim>\<open>addDir\<close>.  It stops: each turn marks a directory that was not marked, and
  goes on with the parent, which is shorter, or the dot, or (for the root) marked by now.
\<close>

function addDir_loop :: "memfs \<Rightarrow> string \<Rightarrow> memfs" where
  "addDir_loop m dir =
     (if dir \<noteq> ''.'' \<and> \<not> mf_isDir m dir
      then addDir_loop
             (add_kid (m\<lparr>mf_isDir := (mf_isDir m)(dir := True)\<rparr>) (Dir dir) (Base dir)) (Dir dir)
      else m)"
  by pat_completeness auto
termination
proof (relation "measure (\<lambda>(m, dir). if dir = ''.'' \<or> mf_isDir m dir then 0 else Suc (length dir))")
  fix m :: memfs and dir :: string
  assume "dir \<noteq> ''.'' \<and> \<not> mf_isDir m dir"
  then show "((add_kid (m\<lparr>mf_isDir := (mf_isDir m)(dir := True)\<rparr>) (Dir dir) (Base dir), Dir dir), m, dir)
    \<in> measure (\<lambda>(m, dir). if dir = ''.'' \<or> mf_isDir m dir then 0 else Suc (length dir))"
    using Dir_shorter [of dir] by (auto simp: add_kid_def)
qed simp

declare addDir_loop.simps [simp del]

definition addDir :: "memfs \<Rightarrow> string \<Rightarrow> memfs" where
  "addDir m dir = addDir_loop m (if dir = [] then ''.'' else dir)"

definition addFile :: "memfs \<Rightarrow> string \<Rightarrow> bytes \<Rightarrow> memfs" where
  "addFile m name d =
     (case map_of (mf_files m) name of
        Some _ \<Rightarrow> m
      | None \<Rightarrow>
          add_kid (addDir (m\<lparr>mf_files := (name, d) # mf_files m\<rparr>) (Dir name)) (Dir name) (Base name))"

definition sortDirs :: "memfs \<Rightarrow> memfs" where
  "sortDirs m = m\<lparr>mf_kids := (\<lambda>d. sort (mf_kids m d))\<rparr>"

definition filepathToSlash :: "string \<Rightarrow> string" where
  "filepathToSlash p = ReplaceAll p (CHR 0x5C) slash"

section \<open>Unpacking an archive\<close>

record stats =
  st_fileCount :: nat
  st_sizeBytes :: int

text \<open>The body of the loop over the entries; \<^verbatim>\<open>broken\<close> says that the entry's data breaks off.\<close>

definition unpack_entry ::
  "int \<Rightarrow> memfs \<times> int \<Rightarrow> tar_entry \<Rightarrow> bool \<Rightarrow> store_err + memfs \<times> int" where
  "unpack_entry limit = (\<lambda>(m, written) hdr broken.
     (case SafeTarPath (hdr_Name hdr) of
        Inl e \<Rightarrow> Inl e
      | Inr safe \<Rightarrow>
          (let clean = Clean (filepathToSlash safe)
           in if clean = ''.'' then Inr (m, written)
              else if hdr_Typeflag hdr = TypeDir then Inr (addDir m clean, written)
              else if hdr_Typeflag hdr = TypeReg \<or> hdr_Typeflag hdr = TypeRegA then
                (let (buf, failed) = copy_entry (copy_limit limit written) (hdr_data hdr) broken;
                     written' = written + int (length buf)
                 in if failed then Inl ErrCopy
                    else if limit > 0 \<and> written' > limit then Inl (ErrSiteTooLarge limit)
                    else Inr (addFile m clean buf, written'))
              else Inr (m, written))))"

fun unpack_loop :: "int \<Rightarrow> memfs \<times> int \<Rightarrow> tar_stream \<Rightarrow> store_err + memfs \<times> int" where
  "unpack_loop limit s TarEOF = Inr s"
| "unpack_loop limit s TarErr = Inl (ErrWrap ''tar read'' ErrTarRead)"
| "unpack_loop limit s (TarTrunc hdr) =
     (case unpack_entry limit s hdr True of
        Inl e \<Rightarrow> Inl e | Inr s' \<Rightarrow> Inl (ErrWrap ''tar read'' ErrTarRead))"
| "unpack_loop limit s (TarNext hdr ts) =
     (case unpack_entry limit s hdr False of
        Inl e \<Rightarrow> Inl e | Inr s' \<Rightarrow> unpack_loop limit s' ts)"

definition unpackTar :: "time \<Rightarrow> tar_stream \<Rightarrow> int \<Rightarrow> store_err + memfs \<times> stats" where
  "unpackTar now r limit =
     (case unpack_loop limit (empty_memfs now, 0) r of
        Inl e \<Rightarrow> Inl e
      | Inr (m, written) \<Rightarrow>
          Inr (sortDirs m, \<lparr>st_fileCount = length (mf_files m), st_sizeBytes = written\<rparr>))"

section \<open>Reading\<close>

record mem_info =
  mi_name :: string
  mi_size :: int
  mi_mod :: time
  mi_dir :: bool

datatype fs_err = FsInvalid | FsNotExist | FsIsDirectory | FsEOF

datatype mem_file =
    MemFile mem_info bytes
  | MemDir mem_info "mem_info list"

definition child_path :: "string \<Rightarrow> string \<Rightarrow> string" where
  "child_path dir c = (if dir \<noteq> ''.'' then dir @ ''/'' @ c else c)"

definition entriesFor :: "memfs \<Rightarrow> string \<Rightarrow> string list \<Rightarrow> mem_info list" where
  "entriesFor m dir children =
     map (\<lambda>c. case map_of (mf_files m) (child_path dir c) of
                Some d \<Rightarrow> \<lparr>mi_name = c, mi_size = int (length d), mi_mod = mf_mod m, mi_dir = False\<rparr>
              | None \<Rightarrow> \<lparr>mi_name = c, mi_size = 0, mi_mod = mf_mod m, mi_dir = True\<rparr>) children"

definition memfs_Open :: "memfs \<Rightarrow> string \<Rightarrow> fs_err + mem_file" where
  "memfs_Open m name =
     (if \<not> ValidPath name then Inl FsInvalid
      else case map_of (mf_files m) name of
        Some d \<Rightarrow>
          Inr (MemFile \<lparr>mi_name = Base name, mi_size = int (length d), mi_mod = mf_mod m, mi_dir = False\<rparr> d)
      | None \<Rightarrow>
          if mf_isDir m name then
            Inr (MemDir \<lparr>mi_name = (if name \<noteq> ''.'' then Base name else name), mi_size = 0,
                         mi_mod = mf_mod m, mi_dir = True\<rparr>
                   (entriesFor m name (mf_kids m name)))
          else Inl FsNotExist)"

definition memfs_ReadDir :: "memfs \<Rightarrow> string \<Rightarrow> fs_err + mem_info list" where
  "memfs_ReadDir m name =
     (if \<not> ValidPath name then Inl FsInvalid
      else if \<not> mf_isDir m name then Inl FsNotExist
      else Inr (entriesFor m name (mf_kids m name)))"

text \<open>An open directory: \<^verbatim>\<open>ReadDir(n)\<close> pages through the entries from an offset.\<close>

record mem_dir =
  md_info :: mem_info
  md_entries :: "mem_info list"
  md_off :: nat

definition memDir_ReadDir :: "mem_dir \<Rightarrow> int \<Rightarrow> (fs_err + mem_info list) \<times> mem_dir" where
  "memDir_ReadDir d n =
     (if n \<le> 0 then
        (Inr (drop (md_off d) (md_entries d)), d\<lparr>md_off := length (md_entries d)\<rparr>)
      else if length (md_entries d) \<le> md_off d then (Inl FsEOF, d)
      else let stop = min (md_off d + nat n) (length (md_entries d))
           in (Inr (take (stop - md_off d) (drop (md_off d) (md_entries d))), d\<lparr>md_off := stop\<rparr>))"

section \<open>The tree is walkable\<close>

text \<open>
  The invariant of the construction.  \<^verbatim>\<open>P\<close> names a directory that has children but is not
  registered yet (the one the loop of \<^const>\<open>addDir\<close> goes on with), \<^verbatim>\<open>F\<close> a file that is not
  yet listed in its directory; between the calls both are empty.
\<close>

definition ord_path :: "string list \<Rightarrow> bool" where
  "ord_path cs \<longleftrightarrow> (\<forall>c \<in> set cs. ordinary c)"

definition tree_inv :: "memfs \<Rightarrow> string set \<Rightarrow> string set \<Rightarrow> bool" where
  "tree_inv m P F \<longleftrightarrow>
     mf_isDir m ''.'' \<and>
     (\<forall>d. mf_isDir m d \<longrightarrow> (\<exists>cs. ord_path cs \<and> d = rel_path cs)) \<and>
     (\<forall>cs c. ord_path (cs @ [c]) \<longrightarrow> mf_isDir m (rel_path (cs @ [c])) \<longrightarrow>
        (mf_isDir m (rel_path cs) \<or> rel_path cs \<in> P) \<and> c \<in> set (mf_kids m (rel_path cs))) \<and>
     (\<forall>f d. (f, d) \<in> set (mf_files m) \<longrightarrow> f \<notin> F \<longrightarrow>
        (\<exists>cs c. ord_path (cs @ [c]) \<and> f = rel_path (cs @ [c]) \<and> mf_isDir m (rel_path cs) \<and>
           c \<in> set (mf_kids m (rel_path cs)))) \<and>
     (\<forall>d c. c \<in> set (mf_kids m d) \<longrightarrow>
        (\<exists>cs. ord_path (cs @ [c]) \<and> d = rel_path cs) \<and> (mf_isDir m d \<or> d \<in> P) \<and>
        (child_path d c \<in> fst ` set (mf_files m) \<or> mf_isDir m (child_path d c)))"

lemma tree_invI:
  assumes "mf_isDir m ''.''"
    and "\<And>d. mf_isDir m d \<Longrightarrow> \<exists>cs. ord_path cs \<and> d = rel_path cs"
    and "\<And>cs c. ord_path (cs @ [c]) \<Longrightarrow> mf_isDir m (rel_path (cs @ [c])) \<Longrightarrow>
      (mf_isDir m (rel_path cs) \<or> rel_path cs \<in> P) \<and> c \<in> set (mf_kids m (rel_path cs))"
    and "\<And>f d. (f, d) \<in> set (mf_files m) \<Longrightarrow> f \<notin> F \<Longrightarrow>
      \<exists>cs c. ord_path (cs @ [c]) \<and> f = rel_path (cs @ [c]) \<and> mf_isDir m (rel_path cs) \<and>
        c \<in> set (mf_kids m (rel_path cs))"
    and "\<And>d c. c \<in> set (mf_kids m d) \<Longrightarrow>
      (\<exists>cs. ord_path (cs @ [c]) \<and> d = rel_path cs) \<and> (mf_isDir m d \<or> d \<in> P) \<and>
        (child_path d c \<in> fst ` set (mf_files m) \<or> mf_isDir m (child_path d c))"
  shows "tree_inv m P F"
  unfolding tree_inv_def using assms by blast

lemma ord_path_Nil [simp]: "ord_path []"
  by (simp add: ord_path_def)

lemma ord_path_append [simp]: "ord_path (cs @ ds) = (ord_path cs \<and> ord_path ds)"
  by (auto simp: ord_path_def)

lemma ord_path_single [simp]: "ord_path [c] = ordinary c"
  by (simp add: ord_path_def)

lemma rel_path_eq_iff: "ord_path cs \<Longrightarrow> ord_path ds \<Longrightarrow> rel_path cs = rel_path ds \<longleftrightarrow> cs = ds"
  using rel_path_inj by (auto simp: ord_path_def)

lemma rel_path_Nil [simp]: "rel_path [] = ''.''"
  by (simp add: rel_path_def)

lemma rel_path_dot: "ord_path cs \<Longrightarrow> rel_path cs = ''.'' \<longleftrightarrow> cs = []"
  using rel_path_eq_iff [of cs "[]"] by simp

lemma child_path_rel: "ord_path cs \<Longrightarrow> child_path (rel_path cs) c = rel_path (cs @ [c])"
  using rel_path_dot [of cs] by (auto simp: child_path_def rel_path_snoc)

lemma Dir_rel: "ord_path cs \<Longrightarrow> ordinary c \<Longrightarrow> Dir (rel_path (cs @ [c])) = rel_path cs"
  using Dir_rel_path [of cs c] by (simp add: ord_path_def)

lemma tree_inv_empty: "tree_inv (empty_memfs now) {} {}"
proof -
  have "\<exists>cs. ord_path cs \<and> ''.'' = rel_path cs"
    by (rule exI [of _ "[]"]) simp
  moreover have "ord_path (cs @ [c]) \<Longrightarrow> rel_path (cs @ [c]) \<noteq> ''.''" for cs c
    using rel_path_dot [of "cs @ [c]"] by simp
  ultimately show ?thesis
    by (auto simp: tree_inv_def empty_memfs_def)
qed

text \<open>Marking a directory and linking it into its parent moves the pending place up.\<close>

lemma tree_inv_step:
  assumes inv: "tree_inv m {rel_path (cs @ [c])} F" and ord: "ord_path cs" "ordinary c"
    and m': "m' = add_kid (m\<lparr>mf_isDir := (mf_isDir m)(rel_path (cs @ [c]) := True)\<rparr>) (rel_path cs) c"
  shows "tree_inv m' {rel_path cs} F"
proof -
  let ?p = "rel_path (cs @ [c])"
  have kid: "child_path (rel_path cs) c = ?p"
    using ord by (simp add: child_path_rel)
  have dir: "mf_isDir m' q \<longleftrightarrow> q = ?p \<or> mf_isDir m q" for q
    by (simp add: m' add_kid_def)
  have kids: "mf_kids m' q = (if q = rel_path cs then mf_kids m q @ [c] else mf_kids m q)" for q
    by (simp add: m' add_kid_def)
  have files: "mf_files m' = mf_files m"
    by (simp add: m' add_kid_def)
  have dirs: "(mf_isDir m' (rel_path ds) \<or> rel_path ds \<in> {rel_path cs}) \<and> e \<in> set (mf_kids m' (rel_path ds))"
    if "ord_path (ds @ [e])" "mf_isDir m' (rel_path (ds @ [e]))" for ds e
  proof (cases "rel_path (ds @ [e]) = ?p")
    case True
    then have "ds = cs \<and> e = c"
      using rel_path_eq_iff [of "ds @ [e]" "cs @ [c]"] ord that(1) by simp
    then show ?thesis by (simp add: kids)
  next
    case False
    then have "mf_isDir m (rel_path (ds @ [e]))" using that(2) dir by simp
    then have "(mf_isDir m (rel_path ds) \<or> rel_path ds = ?p) \<and> e \<in> set (mf_kids m (rel_path ds))"
      using inv that(1) unfolding tree_inv_def by blast
    then show ?thesis by (auto simp: dir kids)
  qed
  have listed: "(\<exists>cs. ord_path (cs @ [e]) \<and> d = rel_path cs) \<and> (mf_isDir m' d \<or> d \<in> {rel_path cs}) \<and>
        (child_path d e \<in> fst ` set (mf_files m') \<or> mf_isDir m' (child_path d e))"
    if "e \<in> set (mf_kids m' d)" for d e
  proof (cases "e \<in> set (mf_kids m d)")
    case True
    then have "(\<exists>cs. ord_path (cs @ [e]) \<and> d = rel_path cs) \<and> (mf_isDir m d \<or> d = ?p) \<and>
        (child_path d e \<in> fst ` set (mf_files m) \<or> mf_isDir m (child_path d e))"
      using inv unfolding tree_inv_def by blast
    then show ?thesis using dir files by auto
  next
    case False
    then have "d = rel_path cs \<and> e = c" using that by (auto simp: kids split: if_splits)
    moreover have "ord_path (cs @ [c])" using ord by simp
    ultimately show ?thesis using kid dir by auto
  qed
  have filed: "\<exists>cs c. ord_path (cs @ [c]) \<and> f = rel_path (cs @ [c]) \<and> mf_isDir m' (rel_path cs) \<and>
           c \<in> set (mf_kids m' (rel_path cs))"
    if "(f, d) \<in> set (mf_files m')" "f \<notin> F" for f d
  proof -
    have "\<exists>cs c. ord_path (cs @ [c]) \<and> f = rel_path (cs @ [c]) \<and> mf_isDir m (rel_path cs) \<and>
           c \<in> set (mf_kids m (rel_path cs))"
      using inv that unfolding tree_inv_def files by blast
    then show ?thesis by (metis dir kids UnI1 set_append)
  qed
  have named: "\<exists>cs. ord_path cs \<and> d = rel_path cs" if "mf_isDir m' d" for d
  proof (cases "d = ?p")
    case True
    moreover have "ord_path (cs @ [c])" using ord by simp
    ultimately show ?thesis by blast
  next
    case False
    then show ?thesis using inv that dir unfolding tree_inv_def by blast
  qed
  have "mf_isDir m' ''.''" using inv by (simp add: dir tree_inv_def)
  then show ?thesis
    using named dirs filed listed by (rule tree_invI)
qed

lemma tree_inv_settle:
  assumes "tree_inv m {d} F" and "mf_isDir m d"
  shows "tree_inv m {} F"
proof -
  have eq: "mf_isDir m q \<or> q \<in> {d} \<longleftrightarrow> mf_isDir m q \<or> q \<in> {}" for q
    using assms(2) by auto
  show ?thesis
    using assms(1) unfolding tree_inv_def eq .
qed

lemma addDir_loop_dot [simp]: "addDir_loop m ''.'' = m"
  by (simp add: addDir_loop.simps [of m "''.''"])

lemma addDir_loop_inv:
  assumes "ord_path cs" and "tree_inv m {rel_path cs} F"
  shows "tree_inv (addDir_loop m (rel_path cs)) {} F"
  using assms
proof (induction cs arbitrary: m rule: rev_induct)
  case Nil
  then have "tree_inv m {''.''} F" by simp
  moreover from this have "mf_isDir m ''.''" by (simp add: tree_inv_def)
  ultimately show ?case
    using tree_inv_settle by simp
next
  case (snoc c cs)
  let ?p = "rel_path (cs @ [c])"
  have ord: "ord_path cs" "ordinary c" using snoc.prems by auto
  have ne: "?p \<noteq> ''.''"
    using rel_path_dot [of "cs @ [c]"] snoc.prems(1) by simp
  show ?case
  proof (cases "mf_isDir m ?p")
    case True
    then show ?thesis
      using snoc.prems tree_inv_settle by (simp add: addDir_loop.simps [of m ?p])
  next
    case False
    then show ?thesis
      using ne ord snoc.IH [OF ord(1) tree_inv_step [OF snoc.prems(2) ord refl]]
      by (simp add: addDir_loop.simps [of m ?p] Dir_rel Base_rel_path)
  qed
qed

text \<open>The loop only adds: files stay, directories and listings grow, and its argument is marked.\<close>

lemma addDir_loop_frame:
  "mf_files (addDir_loop m d) = mf_files m \<and> mf_mod (addDir_loop m d) = mf_mod m \<and>
   (mf_isDir m e \<longrightarrow> mf_isDir (addDir_loop m d) e) \<and>
   set (mf_kids m e) \<subseteq> set (mf_kids (addDir_loop m d) e)"
proof (induction m d rule: addDir_loop.induct)
  case (1 m d)
  show ?case
  proof (cases "d \<noteq> ''.'' \<and> \<not> mf_isDir m d")
    case True
    then show ?thesis
      using "1.IH" [OF True] by (auto simp: addDir_loop.simps [of m d] add_kid_def split: if_splits)
  next
    case False
    then have "addDir_loop m d = m" by (simp only: addDir_loop.simps [of m d] False if_False)
    then show ?thesis by simp
  qed
qed

lemma addDir_loop_marks: "d = ''.'' \<or> mf_isDir (addDir_loop m d) d"
proof (cases "d \<noteq> ''.'' \<and> \<not> mf_isDir m d")
  case True
  then show ?thesis
    using addDir_loop_frame
      [of "add_kid (m\<lparr>mf_isDir := (mf_isDir m)(d := True)\<rparr>) (Dir d) (Base d)" "Dir d" d]
    by (simp add: addDir_loop.simps [of m d] add_kid_def)
qed (auto simp: addDir_loop.simps [of m d])

lemma tree_inv_pend: "tree_inv m {} F \<Longrightarrow> tree_inv m P F"
  unfolding tree_inv_def by (simp only: empty_iff simp_thms) blast

lemma addDir_inv [inv_intro]:
  assumes "ord_path cs" "tree_inv m {} F"
  shows "tree_inv (addDir m (rel_path cs)) {} F"
proof -
  have "rel_path cs \<noteq> []" using assms(1) rel_path_ne by (simp add: ord_path_def)
  then show ?thesis
    using addDir_loop_inv [OF assms(1) tree_inv_pend [OF assms(2)]] by (simp add: addDir_def)
qed

lemma addDir_isDir:
  assumes "ord_path cs" "mf_isDir m ''.''"
  shows "mf_isDir (addDir m (rel_path cs)) (rel_path cs)"
proof -
  have "rel_path cs \<noteq> []" using assms(1) rel_path_ne by (simp add: ord_path_def)
  then show ?thesis
    using addDir_loop_marks [of "rel_path cs" m] assms(2) by (auto simp: addDir_def)
qed

lemma addDir_files [simp]: "mf_files (addDir m d) = mf_files m"
  using addDir_loop_frame by (simp add: addDir_def)

lemma tree_inv_new_file: "tree_inv m {} {} \<Longrightarrow> tree_inv (m\<lparr>mf_files := (f, d) # mf_files m\<rparr>) {} {f}"
  unfolding tree_inv_def by (simp; blast)

text \<open>Listing the new file in its (registered) directory settles it.\<close>

lemma tree_inv_list_file:
  assumes inv: "tree_inv m {} {rel_path (cs @ [c])}" and ord: "ord_path cs" "ordinary c"
    and dir: "mf_isDir m (rel_path cs)" and mem: "rel_path (cs @ [c]) \<in> fst ` set (mf_files m)"
  shows "tree_inv (add_kid m (rel_path cs) c) {} {}"
proof -
  let ?m = "add_kid m (rel_path cs) c"
  have kids: "mf_kids ?m q = (if q = rel_path cs then mf_kids m q @ [c] else mf_kids m q)" for q
    by (simp add: add_kid_def)
  have fr: "mf_isDir ?m = mf_isDir m" "mf_files ?m = mf_files m"
    by (simp_all add: add_kid_def)
  have grow: "e \<in> set (mf_kids m q) \<Longrightarrow> e \<in> set (mf_kids ?m q)" for e q
    by (auto simp: kids)
  have filed: "\<exists>cs c. ord_path (cs @ [c]) \<and> f = rel_path (cs @ [c]) \<and> mf_isDir m (rel_path cs) \<and>
           c \<in> set (mf_kids ?m (rel_path cs))"
    if "(f, d) \<in> set (mf_files m)" for f d
  proof (cases "f = rel_path (cs @ [c])")
    case True
    moreover have "ord_path (cs @ [c])" "c \<in> set (mf_kids ?m (rel_path cs))"
      using ord by (auto simp: kids)
    ultimately show ?thesis using dir by blast
  next
    case False
    then show ?thesis using inv that grow unfolding tree_inv_def by (metis singletonD)
  qed
  have listed: "(\<exists>cs. ord_path (cs @ [e]) \<and> d = rel_path cs) \<and> mf_isDir m d \<and>
        (child_path d e \<in> fst ` set (mf_files m) \<or> mf_isDir m (child_path d e))"
    if "e \<in> set (mf_kids ?m d)" for d e
  proof (cases "e \<in> set (mf_kids m d)")
    case True
    then show ?thesis using inv unfolding tree_inv_def by blast
  next
    case False
    then have "d = rel_path cs \<and> e = c" using that by (auto simp: kids split: if_splits)
    then show ?thesis using ord dir mem child_path_rel [OF ord(1), of c] by auto
  qed
  show ?thesis
  proof (rule tree_invI, goal_cases)
    case 1
    show ?case using inv unfolding fr tree_inv_def by blast
  next
    case (2 d)
    then show ?case using inv unfolding fr tree_inv_def by blast
  next
    case (3 ds e)
    then show ?case using inv grow unfolding fr tree_inv_def by blast
  next
    case (4 f d)
    then show ?case using filed unfolding fr by blast
  next
    case (5 d e)
    then show ?case using listed unfolding fr by blast
  qed
qed

lemma addFile_inv [inv_intro]:
  assumes "ord_path cs" "ordinary c" "tree_inv m {} {}"
  shows "tree_inv (addFile m (rel_path (cs @ [c])) d) {} {}"
proof (cases "map_of (mf_files m) (rel_path (cs @ [c]))")
  case None
  let ?f = "rel_path (cs @ [c])"
  let ?m = "addDir (m\<lparr>mf_files := (?f, d) # mf_files m\<rparr>) (rel_path cs)"
  have "tree_inv ?m {} {?f}"
    using assms by (intro addDir_inv tree_inv_new_file)
  moreover have "mf_isDir ?m (rel_path cs)"
    using assms by (intro addDir_isDir) (auto simp: tree_inv_def)
  ultimately have "tree_inv (add_kid ?m (rel_path cs) c) {} {}"
    using assms by (intro tree_inv_list_file) auto
  then show ?thesis
    using None assms by (simp add: addFile_def Dir_rel Base_rel_path)
qed (use assms in \<open>simp add: addFile_def\<close>)

lemma sortDirs_inv [inv_intro]: "tree_inv (sortDirs m) P F = tree_inv m P F"
proof -
  have fr: "mf_isDir (sortDirs m) = mf_isDir m" "mf_files (sortDirs m) = mf_files m"
      "set (mf_kids (sortDirs m) d) = set (mf_kids m d)" for d
    by (simp_all add: sortDirs_def)
  show ?thesis unfolding tree_inv_def fr ..
qed

subsection \<open>Names without a backslash\<close>

abbreviation backslash :: char where
  "backslash \<equiv> CHR 0x5C"

fun stream_entries :: "tar_stream \<Rightarrow> tar_entry list" where
  "stream_entries TarEOF = []"
| "stream_entries TarErr = []"
| "stream_entries (TarTrunc e) = [e]"
| "stream_entries (TarNext e ts) = e # stream_entries ts"

definition plain_names :: "tar_stream \<Rightarrow> bool" where
  "plain_names ts \<longleftrightarrow> (\<forall>e \<in> set (stream_entries ts). backslash \<notin> set (hdr_Name e))"

lemma set_Split: "w \<in> set (Split s sep) \<Longrightarrow> set w \<subseteq> set s"
  by (induction s arbitrary: w) (fastforce split: if_splits list.splits)+

lemma set_foldl_clean:
  "c \<in> set (foldl (clean_step rooted) st cs) \<Longrightarrow> c \<in> set st \<union> set cs \<union> {''..''}"
proof (induction cs arbitrary: st)
  case (Cons d cs)
  have "set (clean_step rooted st d) \<subseteq> set st \<union> {d, ''..''}"
    by (cases st) (auto simp: clean_step_def)
  with Cons.IH [of "clean_step rooted st d"] Cons.prems show ?case by auto
qed simp

lemma set_Join: "set (Join ws sep) \<subseteq> \<Union> (set ` set ws) \<union> set sep"
  by (induction ws sep rule: Join.induct) auto

lemma set_rel_path_clean:
  "set (rel_path (clean_comps rooted p)) \<subseteq> set p \<union> {CHR ''.'', slash}"
proof -
  have "set c \<subseteq> set p \<union> {CHR ''.'', slash}" if "c \<in> set (clean_comps rooted p)" for c
    using that set_foldl_clean [of c rooted "[]" "Split p slash"] set_Split [of c p slash]
    by (auto simp: clean_comps_def)
  then show ?thesis
    using set_Join [of "clean_comps rooted p" "''/''"] by (auto simp: rel_path_def)
qed

text \<open>For such a name the second cleaning changes nothing: the entry keeps its checked path.\<close>

lemma safe_path_plain:
  assumes "SafeTarPath name = Inr safe" and "backslash \<notin> set name"
  shows "\<exists>cs. ord_path cs \<and> safe = rel_path cs \<and> Clean (filepathToSlash safe) = safe"
proof -
  let ?cs = "clean_comps False name"
  have ord: "ord_path ?cs" and safe: "safe = rel_path ?cs"
    using SafeTarPath_comps [OF assms(1)] by (auto simp: ord_path_def rel_path_def)
  have "backslash \<notin> set safe"
    using set_rel_path_clean [of False name] assms(2) unfolding safe by auto
  then have "filepathToSlash safe = safe"
    by (auto simp: filepathToSlash_def ReplaceAll_def intro: map_idI)
  moreover have "Clean safe = safe"
    using Clean_Join_ordinary [of ?cs] ord by (simp add: safe ord_path_def)
  ultimately show ?thesis using ord safe by auto
qed

lemma unpack_entry_inv [inv_intro]:
  assumes "unpack_entry limit (m, w) hdr broken = Inr (m', w')"
    and "backslash \<notin> set (hdr_Name hdr)" and inv: "tree_inv m {} {}"
  shows "tree_inv m' {} {}"
proof -
  obtain safe where safe: "SafeTarPath (hdr_Name hdr) = Inr safe"
    using assms(1) by (cases "SafeTarPath (hdr_Name hdr)") (auto simp: unpack_entry_def)
  obtain cs where ord: "ord_path cs" and cs: "safe = rel_path cs" "Clean (filepathToSlash safe) = safe"
    using safe_path_plain [OF safe assms(2)] by auto
  have upd: "m' = m \<or> m' = addDir m (rel_path cs) \<or> (\<exists>d. m' = addFile m (rel_path cs) d \<and> rel_path cs \<noteq> ''.'')"
    using assms(1) safe cs
    by (auto simp: unpack_entry_def Let_def split: if_splits prod.splits)
  have "tree_inv (addFile m (rel_path cs) d) {} {}" if ne: "rel_path cs \<noteq> ''.''" for d
  proof -
    obtain ds c where "cs = ds @ [c]" using ne by (cases cs rule: rev_cases) auto
    then show ?thesis using ord inv addFile_inv [of ds c m d] by simp
  qed
  with upd inv addDir_inv [OF ord inv] show ?thesis by blast
qed

lemma unpack_loop_inv:
  "\<lbrakk>unpack_loop limit (m, w) ts = Inr (m', w'); plain_names ts; tree_inv m {} {}\<rbrakk> \<Longrightarrow> tree_inv m' {} {}"
proof (induction ts arbitrary: m w)
  case (TarNext hdr ts)
  obtain m1 w1 where "unpack_entry limit (m, w) hdr False = Inr (m1, w1)"
      and rest: "unpack_loop limit (m1, w1) ts = Inr (m', w')"
    using TarNext.prems(1) by (auto split: sum.splits)
  then have "tree_inv m1 {} {}"
    using TarNext.prems unpack_entry_inv by (auto simp: plain_names_def)
  then show ?case
    using TarNext.IH [OF rest] TarNext.prems(2) by (auto simp: plain_names_def)
qed (auto split: sum.splits)

theorem unpackTar_inv:
  assumes "unpackTar now r limit = Inr (m, st)" and "plain_names r"
  shows "tree_inv m {} {}"
  using assms unpack_loop_inv [of limit "empty_memfs now" 0 r] tree_inv_empty [of now]
  by (auto simp: unpackTar_def sortDirs_inv split: sum.splits)

section \<open>What an accepted archive contains\<close>

definition entry_path :: "tar_entry \<Rightarrow> string option" where
  "entry_path e =
     (case SafeTarPath (hdr_Name e) of Inl _ \<Rightarrow> None | Inr s \<Rightarrow> Some (Clean (filepathToSlash s)))"

definition is_stored :: "tar_entry \<Rightarrow> bool" where
  "is_stored e \<longleftrightarrow> (hdr_Typeflag e = TypeReg \<or> hdr_Typeflag e = TypeRegA) \<and> entry_path e \<noteq> Some ''.''"

fun stored_bytes :: "tar_entry list \<Rightarrow> int" where
  "stored_bytes [] = 0"
| "stored_bytes (e # es) = (if is_stored e then int (length (hdr_data e)) else 0) + stored_bytes es"

definition first_data :: "tar_entry list \<Rightarrow> string \<Rightarrow> bytes option" where
  "first_data es n =
     map_option hdr_data (find (\<lambda>e. is_stored e \<and> entry_path e = Some n) es)"

fun complete :: "tar_stream \<Rightarrow> bool" where
  "complete TarEOF = True"
| "complete (TarNext e ts) = complete ts"
| "complete _ = False"

lemma stored_bytes_nonneg [simp]: "0 \<le> stored_bytes es"
  by (induction es) auto

text \<open>
  The copy limit leaves room for one byte too many, so an entry that fits is copied whole and
  one that does not makes the total exceed the limit.
\<close>

lemma copy_entry_fits:
  assumes "0 < limit \<longrightarrow> 0 \<le> w \<and> w \<le> limit" "limit < 2 ^ 63 - 1"
  shows "copy_entry (copy_limit limit w) d broken =
      (if 0 < limit \<and> limit - w < int (length d) then (take (nat (limit - w + 1)) d, False) else (d, broken))"
proof (cases "0 < limit")
  case True
  then have "wrap64 (limit - w + 1) = limit - w + 1"
    using assms by (intro wrap64_id) auto
  then show ?thesis
    using True by (auto simp: copy_entry_def copy_limit_def)
qed (simp add: copy_entry_def copy_limit_def)

lemma unpack_entry_eq:
  assumes "0 < limit \<longrightarrow> 0 \<le> w \<and> w \<le> limit" "limit < 2 ^ 63 - 1"
  shows "unpack_entry limit (m, w) e False =
     (case entry_path e of
        None \<Rightarrow> Inl (ErrUnsafePath (hdr_Name e))
      | Some p \<Rightarrow>
          if is_stored e then
            if 0 < limit \<and> limit < w + int (length (hdr_data e)) then Inl (ErrSiteTooLarge limit)
            else Inr (addFile m p (hdr_data e), w + int (length (hdr_data e)))
          else Inr (if hdr_Typeflag e = TypeDir \<and> p \<noteq> ''.'' then addDir m p else m, w))"
proof (cases "SafeTarPath (hdr_Name e)")
  case (Inl err)
  then have "err = ErrUnsafePath (hdr_Name e)"
    by (auto simp: SafeTarPath_def Let_def split: if_splits)
  with Inl show ?thesis by (simp add: unpack_entry_def entry_path_def)
next
  case (Inr s)
  have len: "length (take (nat (limit - w + 1)) (hdr_data e)) = nat (limit - w + 1)"
    if "limit - w < int (length (hdr_data e))"
    using that by simp
  from Inr show ?thesis
    using assms len
    by (cases "hdr_Typeflag e")
      (auto simp: unpack_entry_def entry_path_def is_stored_def copy_entry_fits [OF assms] Let_def split: if_splits)
qed

lemma addFile_files:
  "mf_files (addFile m n d) = (if map_of (mf_files m) n = None then (n, d) # mf_files m else mf_files m)"
  by (auto simp: addFile_def add_kid_def split: option.splits)

lemma addDir_if_files [simp]: "mf_files (if b then addDir m p else m) = mf_files m"
  by simp

text \<open>The loop accepts exactly the complete archives of safe names within the limit.\<close>

lemma unpack_loop_accepts:
  assumes "0 < limit \<longrightarrow> 0 \<le> w \<and> w \<le> limit" "limit < 2 ^ 63 - 1"
  shows "(\<exists>s. unpack_loop limit (m, w) ts = Inr s) \<longleftrightarrow>
     complete ts \<and> (\<forall>e \<in> set (stream_entries ts). entry_path e \<noteq> None) \<and>
     (0 < limit \<longrightarrow> w + stored_bytes (stream_entries ts) \<le> limit)"
  using assms(1)
proof (induction ts arbitrary: m w)
  case (TarNext e ts)
  note eq = unpack_entry_eq [OF TarNext.prems assms(2), of m e]
  show ?case
  proof (cases "entry_path e")
    case (Some p)
    let ?w = "w + (if is_stored e then int (length (hdr_data e)) else 0)"
    show ?thesis
    proof (cases "0 < limit \<and> limit < ?w")
      case True
      then have "unpack_entry limit (m, w) e False = Inl (ErrSiteTooLarge limit)"
        using eq Some TarNext.prems by (auto split: if_splits)
      moreover have "limit < ?w + stored_bytes (stream_entries ts)"
        using True stored_bytes_nonneg [of "stream_entries ts"] by linarith
      ultimately show ?thesis using True by auto
    next
      case False
      then have "\<exists>m1. unpack_entry limit (m, w) e False = Inr (m1, ?w)"
        using eq Some by (cases "is_stored e") auto
      then obtain m1 where "unpack_entry limit (m, w) e False = Inr (m1, ?w)" ..
      moreover have "0 < limit \<longrightarrow> 0 \<le> ?w \<and> ?w \<le> limit"
        using False TarNext.prems by auto
      ultimately show ?thesis
        using TarNext.IH [of ?w m1] Some by (simp add: add.assoc)
    qed
  qed (simp add: eq)
qed (use assms in \<open>auto split: sum.splits\<close>)

lemma unpack_loop_content:
  assumes "0 < limit \<longrightarrow> 0 \<le> w \<and> w \<le> limit" "limit < 2 ^ 63 - 1"
    and "unpack_loop limit (m, w) ts = Inr (m', w')"
  shows "w' = w + stored_bytes (stream_entries ts) \<and>
    map_of (mf_files m') n =
      (case map_of (mf_files m) n of Some d \<Rightarrow> Some d | None \<Rightarrow> first_data (stream_entries ts) n) \<and>
    (distinct (map fst (mf_files m)) \<longrightarrow> distinct (map fst (mf_files m')))"
  using assms(1,3)
proof (induction ts arbitrary: m w)
  case (TarNext e ts)
  note eq = unpack_entry_eq [OF TarNext.prems(1) assms(2), of m e]
  obtain m1 w1 where e: "unpack_entry limit (m, w) e False = Inr (m1, w1)"
      and rest: "unpack_loop limit (m1, w1) ts = Inr (m', w')"
    using TarNext.prems(2) by (auto split: sum.splits)
  obtain p where p: "entry_path e = Some p"
    using e eq by (cases "entry_path e") auto
  have m1: "mf_files m1 = (if is_stored e then mf_files (addFile m p (hdr_data e)) else mf_files m)"
    and w1: "w1 = w + (if is_stored e then int (length (hdr_data e)) else 0)"
    and le: "0 < limit \<longrightarrow> 0 \<le> w1 \<and> w1 \<le> limit"
    using e eq p TarNext.prems(1) by (auto split: if_splits)
  have look: "map_of (mf_files m1) n =
      (case map_of (mf_files m) n of Some d \<Rightarrow> Some d
       | None \<Rightarrow> if is_stored e \<and> p = n then Some (hdr_data e) else None)"
    by (auto simp: m1 addFile_files split: option.splits)
  have dist: "distinct (map fst (mf_files m)) \<longrightarrow> distinct (map fst (mf_files m1))"
    by (auto simp: m1 addFile_files map_of_eq_None_iff)
  note IH = TarNext.IH [OF le rest]
  have "map_of (mf_files m') n =
      (case map_of (mf_files m) n of Some d \<Rightarrow> Some d
       | None \<Rightarrow> first_data (stream_entries (TarNext e ts)) n)"
    using conjunct1 [OF conjunct2 [OF IH]] p
    by (cases "map_of (mf_files m) n") (auto simp: look first_data_def)
  then show ?case
    using IH dist by (simp add: w1 add.assoc)
qed (use assms in \<open>auto simp: first_data_def split: sum.splits option.splits\<close>)

lemma dom_card_files: "distinct (map fst xs) \<Longrightarrow> card (dom (map_of xs)) = length xs"
  by (metis distinct_card dom_map_of_conv_image_fst length_map set_map)

lemma sortDirs_files [simp]: "mf_files (sortDirs m) = mf_files m"
  by (simp add: sortDirs_def)

section \<open>Properties\<close>

text \<open>
  C28: The unpacker accepts exactly the archives that are read to their end, whose every entry
  name passes the traversal check, and whose stored files together stay within the limit
  (\<^verbatim>\<open>limit <= 0\<close> means no limit).
\<close>

theorem unpackTar_accepts:
  assumes "limit < 2 ^ 63 - 1"
  shows "(\<exists>m st. unpackTar now r limit = Inr (m, st)) \<longleftrightarrow>
     complete r \<and> (\<forall>e \<in> set (stream_entries r). \<exists>p. SafeTarPath (hdr_Name e) = Inr p) \<and>
     (0 < limit \<longrightarrow> stored_bytes (stream_entries r) \<le> limit)"
proof -
  have safe: "entry_path e \<noteq> None \<longleftrightarrow> (\<exists>p. SafeTarPath (hdr_Name e) = Inr p)" for e
    by (auto simp: entry_path_def split: sum.splits)
  have "(\<exists>m st. unpackTar now r limit = Inr (m, st)) \<longleftrightarrow>
      (\<exists>s. unpack_loop limit (empty_memfs now, 0) r = Inr s)"
    by (auto simp: unpackTar_def split: sum.splits)
  then show ?thesis
    using unpack_loop_accepts [of limit 0 "empty_memfs now" r] assms safe by simp
qed


text \<open>A small archive: a directory entry and a page inside another, implicit, directory.\<close>

definition sample_tar :: tar_stream where
  "sample_tar =
     TarNext \<lparr>hdr_Name = ''css/'', hdr_Typeflag = TypeDir, hdr_data = []\<rparr>
     (TarNext \<lparr>hdr_Name = ''./docs/a.html'', hdr_Typeflag = TypeReg, hdr_data = ''abc''\<rparr> TarEOF)"

lemma sample_paths:
  "entry_path \<lparr>hdr_Name = ''css/'', hdr_Typeflag = TypeDir, hdr_data = []\<rparr> = Some ''css''"
  "entry_path \<lparr>hdr_Name = ''./docs/a.html'', hdr_Typeflag = TypeReg, hdr_data = ''abc''\<rparr> =
     Some ''docs/a.html''"
  by code_simp+

lemma sample_tar_run:
  "\<exists>m. unpackTar 0 sample_tar 10 = Inr (m, \<lparr>st_fileCount = 1, st_sizeBytes = 3\<rparr>) \<and>
     mf_files m = [(''docs/a.html'', ''abc'')]"
  by (simp add: unpackTar_def sample_tar_def unpack_entry_eq sample_paths is_stored_def
      addFile_files empty_memfs_def)

lemma entry_path_SafeTarPath: "entry_path e = Some p \<Longrightarrow> \<exists>q. SafeTarPath (hdr_Name e) = Inr q"
  by (auto simp: entry_path_def split: sum.splits)

theorem unpackTar_accepts_witness:
  "\<exists>m st. unpackTar 0 sample_tar 10 = Inr (m, st)"
proof -
  have "\<forall>e \<in> set (stream_entries sample_tar). \<exists>p. SafeTarPath (hdr_Name e) = Inr p"
    using sample_paths [THEN entry_path_SafeTarPath] by (simp add: sample_tar_def)
  moreover have "complete sample_tar" "stored_bytes (stream_entries sample_tar) \<le> 10"
    by (simp_all add: sample_tar_def is_stored_def)
  moreover have "(10::int) < 2 ^ 63 - 1" by simp
  ultimately show ?thesis
    using unpackTar_accepts [of 10 0 sample_tar] by blast
qed




lemma copy_max_limit: "copy_entry (copy_limit 9223372036854775807 0) d broken = ([], False)"
  by (simp add: copy_entry_def copy_limit_def wrap64_def)

text \<open>
  With the largest 64-bit limit the copy limit wraps around to a negative number, and every
  stored file comes out empty, without an error.
\<close>

lemma unpackTar_max_limit:
  assumes "unpackTar now r (2 ^ 63 - 1) = Inr (m, st)"
  shows "(\<forall>f d. (f, d) \<in> set (mf_files m) \<longrightarrow> d = []) \<and> st_sizeBytes st = 0"
proof -
  have entry: "w' = 0 \<and> (\<forall>(f, d) \<in> set (mf_files m'). d = [])"
    if "unpack_entry (2 ^ 63 - 1) (m, 0) e broken = Inr (m', w')" "\<forall>(f, d) \<in> set (mf_files m). d = []"
    for m m' w' e broken
    using that
    by (auto simp: unpack_entry_def copy_max_limit Let_def addFile_files split: sum.splits if_splits)
  have "w' = 0 \<and> (\<forall>(f, d) \<in> set (mf_files m'). d = [])"
    if "unpack_loop (2 ^ 63 - 1) (m, 0) ts = Inr (m', w')" "\<forall>(f, d) \<in> set (mf_files m). d = []"
    for ts m m' w'
    using that
  proof (induction ts arbitrary: m)
    case (TarNext e ts)
    then obtain m1 w1 where e: "unpack_entry (2 ^ 63 - 1) (m, 0) e False = Inr (m1, w1)"
        and rest: "unpack_loop (2 ^ 63 - 1) (m1, w1) ts = Inr (m', w')"
      by (auto split: sum.splits)
    note m1 = entry [OF e TarNext.prems(2)]
    show ?case
      using TarNext.IH [of m1] rest m1 by simp
  qed (auto split: sum.splits)
  from this [of "empty_memfs now" r] assms show ?thesis
    by (fastforce simp: unpackTar_def empty_memfs_def split: sum.splits)
qed

lemma sample_max_run:
  "\<exists>m st. unpackTar 0 sample_tar (2 ^ 63 - 1) = Inr (m, st)"
proof -
  have "SafeTarPath ''css/'' = Inr ''css''" "SafeTarPath ''./docs/a.html'' = Inr ''docs/a.html''"
      "Clean (filepathToSlash ''css'') = ''css''" "Clean (filepathToSlash ''docs/a.html'') = ''docs/a.html''"
    by code_simp+
  then show ?thesis
    by (simp add: unpackTar_def sample_tar_def unpack_entry_def copy_max_limit)
qed

theorem unpackTar_max_limit_witness:
  "\<exists>m st. unpackTar 0 sample_tar (2 ^ 63 - 1) = Inr (m, st) \<and> st_sizeBytes st = 0"
proof -
  obtain m st where "unpackTar 0 sample_tar (2 ^ 63 - 1) = Inr (m, st)"
    using sample_max_run by blast
  with unpackTar_max_limit [OF this] show ?thesis by blast
qed

text \<open>
  A name with backslashes passes the traversal check as one component and becomes a path that
  climbs out of the site once the backslashes are turned into slashes.
\<close>

lemma backslash_escapes:
  "SafeTarPath [CHR ''.'', CHR ''.'', backslash, CHR ''x''] =
     Inr [CHR ''.'', CHR ''.'', backslash, CHR ''x'']"
  "Clean (filepathToSlash [CHR ''.'', CHR ''.'', backslash, CHR ''x'']) = ''../x''"
  by code_simp+

text \<open>
  Paging through an open directory: each successful page continues where the last one
  stopped, holds at most \<^verbatim>\<open>n\<close> entries and, for \<^verbatim>\<open>n > 0\<close>, at least one; the end is
  reported only when every entry has been delivered.
\<close>

lemma memDir_ReadDir_pages:
  assumes "md_off d \<le> length (md_entries d)" and "memDir_ReadDir d n = (res, d')"
  shows "md_entries d' = md_entries d \<and> md_off d' \<le> length (md_entries d) \<and>
    (case res of
       Inl e \<Rightarrow> e = FsEOF \<and> 0 < n \<and> d' = d \<and> md_off d = length (md_entries d)
     | Inr es \<Rightarrow> take (md_off d') (md_entries d) = take (md_off d) (md_entries d) @ es \<and>
         (0 < n \<longrightarrow> es \<noteq> [] \<and> length es \<le> nat n))"
proof -
  have split: "take stop xs = take off xs @ take (stop - off) (drop off xs)" if "off \<le> stop"
    for stop off and xs :: "mem_info list"
    using that by (metis le_add_diff_inverse take_add)
  show ?thesis
    using assms split [of "md_off d" "min (md_off d + nat n) (length (md_entries d))" "md_entries d"]
    by (auto simp: memDir_ReadDir_def Let_def split: if_splits)
qed

end
