(* ===== verification/Lru_Cache.thy ===== *)
theory Lru_Cache
  imports Go_Prelude
begin

text \<open>
  \<^verbatim>\<open>internal/s3store/cache.go\<close>: the byte-bounded, least-recently-used cache of expanded
  sites.  The doubly linked list is a list with the most recently used entry first, the map
  \<^verbatim>\<open>items\<close> a map from keys to entries; a list element is identified by its entry, whose key
  occurs once.  The file system type is a parameter.
\<close>

section \<open>The cache\<close>

type_synonym cache_key = "string \<times> string"
  \<comment> \<open>name and version\<close>

record 'f cache_entry =
  ce_key :: cache_key
  ce_fsys :: 'f
  ce_bytes :: int

record 'f cache =
  c_maxBytes :: int
  c_curBytes :: int
  c_ll :: "'f cache_entry list"
  c_items :: "cache_key \<rightharpoonup> 'f cache_entry"

definition newCache :: "int \<Rightarrow> 'f cache" where
  "newCache maxBytes = \<lparr>c_maxBytes = maxBytes, c_curBytes = 0, c_ll = [], c_items = Map.empty\<rparr>"

text \<open>\<^verbatim>\<open>list.Remove\<close> and \<^verbatim>\<open>list.MoveToFront\<close>, the element found by its key.\<close>

definition list_Remove :: "'f cache_entry \<Rightarrow> 'f cache_entry list \<Rightarrow> 'f cache_entry list" where
  "list_Remove el xs = filter (\<lambda>e. ce_key e \<noteq> ce_key el) xs"

definition MoveToFront :: "'f cache_entry \<Rightarrow> 'f cache \<Rightarrow> 'f cache" where
  "MoveToFront el c = c\<lparr>c_ll := el # list_Remove el (c_ll c)\<rparr>"

definition evict :: "'f cache \<Rightarrow> 'f cache_entry \<Rightarrow> 'f cache" where
  "evict c el =
     c\<lparr>c_ll := list_Remove el (c_ll c), c_items := (c_items c)(ce_key el := None),
       c_curBytes := c_curBytes c - ce_bytes el\<rparr>"

definition cache_get :: "'f cache \<Rightarrow> string \<Rightarrow> string \<Rightarrow> 'f option \<times> 'f cache" where
  "cache_get c name version =
     (if c_maxBytes c \<le> 0 then (None, c)
      else case c_items c (name, version) of
        None \<Rightarrow> (None, c)
      | Some el \<Rightarrow> (Some (ce_fsys el), MoveToFront el c))"

function evict_loop :: "'f cache \<Rightarrow> 'f cache" where
  "evict_loop c =
     (if c_curBytes c > c_maxBytes c
      then if c_ll c = [] then c else evict_loop (evict c (last (c_ll c)))
      else c)"
  by pat_completeness auto
termination
proof (relation "measure (\<lambda>c. length (c_ll c))")
  fix c :: "'f cache"
  assume "c_ll c \<noteq> []"
  then show "(evict c (last (c_ll c)), c) \<in> measure (\<lambda>c. length (c_ll c))"
    by (auto simp: evict_def list_Remove_def intro!: length_filter_less [of "last (c_ll c)"])
qed simp

declare evict_loop.simps [simp del]

definition cache_put :: "'f cache \<Rightarrow> string \<Rightarrow> string \<Rightarrow> 'f \<Rightarrow> int \<Rightarrow> 'f cache" where
  "cache_put c name version fsys sz =
     (if c_maxBytes c \<le> 0 \<or> sz > c_maxBytes c then c
      else case c_items c (name, version) of
        Some el \<Rightarrow> MoveToFront el c
      | None \<Rightarrow>
          let el = \<lparr>ce_key = (name, version), ce_fsys = fsys, ce_bytes = sz\<rparr>
          in evict_loop (c\<lparr>c_ll := el # c_ll c, c_items := (c_items c)((name, version) \<mapsto> el),
                           c_curBytes := c_curBytes c + sz\<rparr>))"

text \<open>
  \<^verbatim>\<open>dropAll\<close> ranges over the map while deleting from it.  Go leaves the order open, so the
  order of the keys is an argument; \<^verbatim>\<open>dropAll\<close> itself takes the order of the list.
\<close>

fun dropAll_in :: "cache_key list \<Rightarrow> 'f cache \<Rightarrow> string \<Rightarrow> 'f cache" where
  "dropAll_in [] c name = c"
| "dropAll_in (k # ks) c name =
     dropAll_in ks (case c_items c k of
                      Some el \<Rightarrow> if fst k = name then evict c el else c
                    | None \<Rightarrow> c) name"

definition dropAll :: "'f cache \<Rightarrow> string \<Rightarrow> 'f cache" where
  "dropAll c name = dropAll_in (map ce_key (c_ll c)) c name"

section \<open>The invariant\<close>

definition total_bytes :: "'f cache_entry list \<Rightarrow> int" where
  "total_bytes xs = sum_list (map ce_bytes xs)"

definition cache_wf :: "'f cache \<Rightarrow> bool" where
  "cache_wf c \<longleftrightarrow>
     distinct (map ce_key (c_ll c)) \<and>
     c_items c = map_of (map (\<lambda>e. (ce_key e, e)) (c_ll c)) \<and>
     c_curBytes c = total_bytes (c_ll c) \<and>
     (\<forall>e \<in> set (c_ll c). 0 \<le> ce_bytes e)"

definition cache_inv :: "'f cache \<Rightarrow> bool" where
  "cache_inv c \<longleftrightarrow> cache_wf c \<and> (c_curBytes c \<le> c_maxBytes c \<or> c_ll c = [])"

lemma total_bytes_simps [simp]:
  "total_bytes [] = 0" "total_bytes (e # es) = ce_bytes e + total_bytes es"
  "total_bytes (xs @ ys) = total_bytes xs + total_bytes ys"
  by (simp_all add: total_bytes_def)

lemma total_bytes_nonneg: "\<forall>e \<in> set xs. 0 \<le> ce_bytes e \<Longrightarrow> 0 \<le> total_bytes xs"
  by (induction xs) auto

lemma items_eq:
  "cache_wf c \<Longrightarrow> c_items c k = Some e \<longleftrightarrow> e \<in> set (c_ll c) \<and> ce_key e = k"
proof -
  assume wf: "cache_wf c"
  have "map_of (map (\<lambda>e. (ce_key e, e)) xs) k = Some e \<longleftrightarrow> e \<in> set xs \<and> ce_key e = k"
    if "distinct (map ce_key xs)" for xs
    using that by (induction xs) (auto simp: rev_image_eqI)
  then show ?thesis using wf by (simp add: cache_wf_def)
qed

lemma cache_wf_new: "cache_wf (newCache n)"
  by (simp add: cache_wf_def newCache_def)

lemma list_Remove_split:
  assumes "distinct (map ce_key (xs @ e # ys))"
  shows "list_Remove e (xs @ e # ys) = xs @ ys"
proof -
  have "filter (\<lambda>x. ce_key x \<noteq> ce_key e) xs = xs" "filter (\<lambda>x. ce_key x \<noteq> ce_key e) ys = ys"
    using assms by (auto simp: filter_id_conv rev_image_eqI)
  then show ?thesis by (simp add: list_Remove_def)
qed

lemma map_of_entry:
  "map_of (map (\<lambda>e. (ce_key e, e)) (xs @ e # ys)) =
     (map_of (map (\<lambda>e. (ce_key e, e)) (xs @ ys)))(ce_key e \<mapsto> e)"
  if "distinct (map ce_key (xs @ e # ys))"
proof -
  have "ce_key e \<notin> fst ` set (map (\<lambda>e. (ce_key e, e)) xs)" using that by (auto simp: rev_image_eqI)
  then have "map_of (map (\<lambda>e. (ce_key e, e)) xs) (ce_key e) = None"
    by (simp add: map_of_eq_None_iff)
  then show ?thesis by (auto simp: fun_eq_iff map_add_def split: option.splits)
qed

text \<open>Eviction of an entry of the list removes it from the list, the index and the account.\<close>

lemma evict_split:
  assumes "cache_wf c" "c_ll c = xs @ e # ys"
  shows "cache_wf (evict c e) \<and> c_ll (evict c e) = xs @ ys \<and> c_maxBytes (evict c e) = c_maxBytes c"
proof -
  have d: "distinct (map ce_key (xs @ e # ys))" using assms by (simp add: cache_wf_def)
  have "ce_key e \<notin> fst ` set (map (\<lambda>e. (ce_key e, e)) (xs @ ys))"
    using d by (auto simp: rev_image_eqI)
  then have "map_of (map (\<lambda>e. (ce_key e, e)) (xs @ ys)) (ce_key e) = None"
    unfolding map_of_eq_None_iff .
  then have "(map_of (map (\<lambda>e. (ce_key e, e)) (xs @ e # ys)))(ce_key e := None) =
      map_of (map (\<lambda>e. (ce_key e, e)) (xs @ ys))"
    unfolding map_of_entry [OF d] by (simp add: fun_upd_idem)
  then show ?thesis
    using assms d list_Remove_split [OF d] by (auto simp: cache_wf_def evict_def)
qed

lemma MoveToFront_wf:
  assumes "cache_wf c" "c_items c k = Some e"
  shows "cache_wf (MoveToFront e c) \<and> c_items (MoveToFront e c) = c_items c \<and>
    c_curBytes (MoveToFront e c) = c_curBytes c \<and> c_maxBytes (MoveToFront e c) = c_maxBytes c"
proof -
  have "e \<in> set (c_ll c)" using assms items_eq by blast
  then obtain xs ys where ll: "c_ll c = xs @ e # ys" by (meson split_list)
  have d: "distinct (map ce_key (xs @ e # ys))" using assms ll by (simp add: cache_wf_def)
  have "c_items c = map_of (map (\<lambda>e. (ce_key e, e)) (e # xs @ ys))"
    using assms(1) map_of_entry [OF d] by (simp add: cache_wf_def ll)
  then show ?thesis
    using assms(1) d list_Remove_split [OF d] by (auto simp: cache_wf_def MoveToFront_def ll)
qed

section \<open>What eviction keeps\<close>

text \<open>The specification: the longest front part of the list that fits into the budget.\<close>

fun fit :: "int \<Rightarrow> 'f cache_entry list \<Rightarrow> 'f cache_entry list" where
  "fit b [] = []"
| "fit b (e # es) = (if ce_bytes e \<le> b then e # fit (b - ce_bytes e) es else [])"

lemma fit_all: "\<lbrakk>\<forall>e \<in> set xs. 0 \<le> ce_bytes e; total_bytes xs \<le> b\<rbrakk> \<Longrightarrow> fit b xs = xs"
proof (induction xs arbitrary: b)
  case (Cons x xs)
  then show ?case using total_bytes_nonneg [of xs] by auto
qed simp

lemma fit_snoc: "b < total_bytes (xs @ [e]) \<Longrightarrow> fit b (xs @ [e]) = fit b xs"
  by (induction xs arbitrary: b) auto

lemma fit_le: "0 \<le> b \<Longrightarrow> total_bytes (fit b xs) \<le> b"
proof (induction xs arbitrary: b)
  case (Cons x xs)
  show ?case
  proof (cases "ce_bytes x \<le> b")
    case True
    then have "total_bytes (fit (b - ce_bytes x) xs) \<le> b - ce_bytes x"
      by (intro Cons.IH) simp
    with True show ?thesis by simp
  qed (use Cons.prems in simp)
qed simp

lemma evict_loop_fit:
  "cache_wf c \<Longrightarrow> 0 \<le> c_maxBytes c \<Longrightarrow>
     cache_wf (evict_loop c) \<and> c_ll (evict_loop c) = fit (c_maxBytes c) (c_ll c) \<and>
     c_maxBytes (evict_loop c) = c_maxBytes c"
proof (induction c rule: evict_loop.induct)
  case (1 c)
  show ?case
  proof (cases "c_curBytes c > c_maxBytes c \<and> c_ll c \<noteq> []")
    case True
    then obtain xs e where ll: "c_ll c = xs @ [e]" by (meson rev_exhaust)
    have ev: "cache_wf (evict c e)" "c_ll (evict c e) = xs" "c_maxBytes (evict c e) = c_maxBytes c"
      using evict_split [OF "1.prems"(1), of xs e "[]"] ll by auto
    have "fit (c_maxBytes c) (c_ll c) = fit (c_maxBytes c) xs"
      using True "1.prems"(1) unfolding ll by (intro fit_snoc) (simp add: cache_wf_def ll)
    then show ?thesis
      using "1.IH" True ev ll "1.prems" by (simp add: evict_loop.simps [of c])
  next
    case False
    then have "evict_loop c = c" by (auto simp: evict_loop.simps [of c])
    moreover have "fit (c_maxBytes c) (c_ll c) = c_ll c"
      using False "1.prems" by (auto simp: cache_wf_def intro: fit_all)
    ultimately show ?thesis using "1.prems"(1) by simp
  qed
qed

lemma cache_put_new:
  assumes inv: "cache_inv c" and room: "0 < c_maxBytes c" "0 \<le> sz" "sz \<le> c_maxBytes c"
    and new: "c_items c (name, version) = None"
    and el: "el = \<lparr>ce_key = (name, version), ce_fsys = f, ce_bytes = sz\<rparr>"
  shows "cache_inv (cache_put c name version f sz) \<and>
    c_ll (cache_put c name version f sz) = el # fit (c_maxBytes c - sz) (c_ll c)"
proof -
  let ?c = "c\<lparr>c_ll := el # c_ll c, c_items := (c_items c)((name, version) \<mapsto> el),
              c_curBytes := c_curBytes c + sz\<rparr>"
  have wf: "cache_wf c" using inv by (simp add: cache_inv_def)
  have "(name, version) \<notin> fst ` set (map (\<lambda>e. (ce_key e, e)) (c_ll c))"
    using new wf by (simp add: cache_wf_def map_of_eq_None_iff del: set_map)
  then have "(name, version) \<notin> ce_key ` set (c_ll c)" by force
  then have "cache_wf ?c"
    using wf room by (auto simp: cache_wf_def el)
  moreover have "cache_put c name version f sz = evict_loop ?c"
    using room new by (simp add: cache_put_def el Let_def)
  ultimately show ?thesis
    using evict_loop_fit [of ?c] room fit_le [of "c_maxBytes c" "el # c_ll c"]
    by (auto simp: cache_inv_def cache_wf_def el)
qed

lemma cache_put_inv [inv_intro]:
  assumes "cache_inv c" "0 \<le> sz"
  shows "cache_inv (cache_put c name version f sz)"
proof (cases "c_maxBytes c \<le> 0 \<or> sz > c_maxBytes c")
  case False
  show ?thesis
  proof (cases "c_items c (name, version)")
    case None
    then show ?thesis using False assms cache_put_new by fastforce
  next
    case (Some el)
    then have "cache_put c name version f sz = MoveToFront el c"
      using False by (simp add: cache_put_def)
    then show ?thesis
      using Some assms MoveToFront_wf [of c "(name, version)" el] items_eq [of c]
      by (auto simp: cache_inv_def)
  qed
qed (use assms in \<open>simp add: cache_put_def\<close>)

lemma cache_get_inv [inv_intro]:
  assumes "cache_inv c"
  shows "cache_inv (snd (cache_get c name version)) \<and>
    c_items (snd (cache_get c name version)) = c_items c"
  using assms MoveToFront_wf [of c "(name, version)"] items_eq [of c]
  by (auto simp: cache_get_def cache_inv_def split: option.splits)

lemma filter_total_le:
  "\<forall>e \<in> set xs. 0 \<le> ce_bytes e \<Longrightarrow> total_bytes (filter P xs) \<le> total_bytes xs"
  by (induction xs) auto

lemma dropAll_in_ll:
  "cache_wf c \<Longrightarrow> cache_wf (dropAll_in ks c name) \<and>
     c_maxBytes (dropAll_in ks c name) = c_maxBytes c \<and>
     c_ll (dropAll_in ks c name) = filter (\<lambda>e. fst (ce_key e) = name \<longrightarrow> ce_key e \<notin> set ks) (c_ll c)"
proof (induction ks arbitrary: c)
  case (Cons k ks)
  let ?c = "case c_items c k of Some el \<Rightarrow> if fst k = name then evict c el else c | None \<Rightarrow> c"
  have step: "cache_wf ?c \<and> c_maxBytes ?c = c_maxBytes c \<and>
      c_ll ?c = filter (\<lambda>e. fst (ce_key e) = name \<longrightarrow> ce_key e \<noteq> k) (c_ll c)"
  proof (cases "fst k = name \<and> c_items c k \<noteq> None")
    case True
    then obtain el where el: "c_items c k = Some el" "el \<in> set (c_ll c)" "ce_key el = k"
      using items_eq [OF Cons.prems] by blast
    obtain xs ys where ll: "c_ll c = xs @ el # ys" using el(2) by (meson split_list)
    have "c_ll (evict c el) = filter (\<lambda>e. fst (ce_key e) = name \<longrightarrow> ce_key e \<noteq> k) (c_ll c)"
      using True el by (auto simp: evict_def list_Remove_def intro: filter_cong)
    then show ?thesis using True el evict_split [OF Cons.prems ll] by simp
  next
    case False
    have "filter (\<lambda>e. fst (ce_key e) = name \<longrightarrow> ce_key e \<noteq> k) (c_ll c) = c_ll c"
      using False items_eq [OF Cons.prems, of k] by (auto simp: filter_id_conv)
    then show ?thesis using False Cons.prems by (auto split: option.splits)
  qed
  then show ?case
    using Cons.IH [of ?c] by (auto intro!: filter_cong)
qed simp

lemma dropAll_ll:
  assumes "cache_wf c" and "ce_key ` set (c_ll c) \<subseteq> set ks"
  shows "c_ll (dropAll_in ks c name) = filter (\<lambda>e. fst (ce_key e) \<noteq> name) (c_ll c)"
  using dropAll_in_ll [OF assms(1), of ks name] assms(2) by (auto intro!: filter_cong)

lemma dropAll_inv [inv_intro]:
  assumes "cache_inv c"
  shows "cache_inv (dropAll c name)"
proof -
  have wf: "cache_wf c" using assms by (simp add: cache_inv_def)
  have "total_bytes (c_ll (dropAll c name)) \<le> total_bytes (c_ll c)"
    using dropAll_in_ll [OF wf] wf by (auto simp: dropAll_def cache_wf_def intro: filter_total_le)
  then show ?thesis
    using dropAll_in_ll [OF wf, of "map ce_key (c_ll c)" name] assms
    by (auto simp: dropAll_def cache_inv_def cache_wf_def)
qed

section \<open>The contract of a content cache\<close>

text \<open>
  What the object-store backend relies on: a cache may forget, but it never invents or mixes
  up content.  \<^verbatim>\<open>contents\<close> is what a look-up can return.
\<close>

locale content_cache =
  fixes ok :: "'c \<Rightarrow> bool"
    and look :: "'c \<Rightarrow> string \<Rightarrow> string \<Rightarrow> 'f option \<times> 'c"
    and store :: "'c \<Rightarrow> string \<Rightarrow> string \<Rightarrow> 'f \<Rightarrow> int \<Rightarrow> 'c"
    and drop_name :: "'c \<Rightarrow> string \<Rightarrow> 'c"
    and contents :: "'c \<Rightarrow> string \<times> string \<rightharpoonup> 'f"
  assumes ok_look: "ok c \<Longrightarrow> ok (snd (look c n v))"
    and ok_store: "ok c \<Longrightarrow> 0 \<le> s \<Longrightarrow> ok (store c n v f s)"
    and ok_drop: "ok c \<Longrightarrow> ok (drop_name c n)"
    and look_sound: "ok c \<Longrightarrow> fst (look c n v) = Some f \<Longrightarrow> contents c (n, v) = Some f"
    and look_keeps: "ok c \<Longrightarrow> contents (snd (look c n v)) = contents c"
    and store_sound: "ok c \<Longrightarrow> 0 \<le> s \<Longrightarrow> contents (store c n v f s) k = Some g \<Longrightarrow>
      contents c k = Some g \<or> k = (n, v) \<and> contents c k = None \<and> g = f"
    and drop_sound: "ok c \<Longrightarrow> contents (drop_name c n) k = (if fst k = n then None else contents c k)"
begin

text \<open>
  A cache is coherent when every entry satisfies a condition \<^verbatim>\<open>good\<close> on keys and contents (for
  the object store: the contents are what the object of that version unpacks to).
\<close>

definition coherent :: "'c \<Rightarrow> (string \<times> string \<Rightarrow> 'f \<Rightarrow> bool) \<Rightarrow> bool" where
  "coherent c good \<longleftrightarrow> (\<forall>k f. contents c k = Some f \<longrightarrow> good k f)"

lemma coherent_look: "ok c \<Longrightarrow> coherent c good \<Longrightarrow> coherent (snd (look c n v)) good"
  by (simp add: coherent_def look_keeps)

lemma coherent_hit: "ok c \<Longrightarrow> coherent c good \<Longrightarrow> fst (look c n v) = Some f \<Longrightarrow> good (n, v) f"
  unfolding coherent_def by (metis look_sound)

lemma coherent_store:
  "ok c \<Longrightarrow> 0 \<le> s \<Longrightarrow> coherent c good \<Longrightarrow> good (n, v) f \<Longrightarrow> coherent (store c n v f s) good"
  unfolding coherent_def by (metis store_sound)

lemma coherent_drop: "ok c \<Longrightarrow> coherent c good \<Longrightarrow> coherent (drop_name c n) good"
  unfolding coherent_def by (metis drop_sound option.distinct(1))

lemma coherent_mono:
  "coherent c good \<Longrightarrow> (\<And>k f. contents c k = Some f \<Longrightarrow> good k f \<Longrightarrow> good' k f) \<Longrightarrow> coherent c good'"
  by (simp add: coherent_def)

end

definition cache_contents :: "'f cache \<Rightarrow> cache_key \<rightharpoonup> 'f" where
  "cache_contents c k = map_option ce_fsys (c_items c k)"

lemma fit_subset: "e \<in> set (fit b xs) \<Longrightarrow> e \<in> set xs"
  by (induction xs arbitrary: b) (auto split: if_splits)

lemma cache_put_contents:
  assumes "cache_inv c" "0 \<le> sz" "cache_contents (cache_put c n v f sz) k = Some g"
  shows "cache_contents c k = Some g \<or> k = (n, v) \<and> cache_contents c k = None \<and> g = f"
proof (cases "c_maxBytes c \<le> 0 \<or> sz > c_maxBytes c \<or> c_items c (n, v) \<noteq> None")
  case True
  then have "c_items (cache_put c n v f sz) = c_items c"
    using MoveToFront_wf [of c "(n, v)"] assms(1)
    by (auto simp: cache_put_def cache_inv_def split: option.splits)
  with assms(3) show ?thesis by (simp add: cache_contents_def)
next
  case False
  let ?el = "\<lparr>ce_key = (n, v), ce_fsys = f, ce_bytes = sz\<rparr>"
  have put: "cache_wf (cache_put c n v f sz)"
      "c_ll (cache_put c n v f sz) = ?el # fit (c_maxBytes c - sz) (c_ll c)"
    using False assms cache_put_new [of c sz n v ?el f] by (auto simp: cache_inv_def)
  obtain e where "c_items (cache_put c n v f sz) k = Some e" and g: "g = ce_fsys e"
    using assms(3) by (auto simp: cache_contents_def)
  then have "e = ?el \<and> k = (n, v) \<or> e \<in> set (c_ll c) \<and> ce_key e = k"
    using items_eq [OF put(1)] fit_subset by (fastforce simp: put(2))
  then show ?thesis
    using assms(1) False g items_eq [of c k e] by (auto simp: cache_contents_def cache_inv_def)
qed

lemma dropAll_contents:
  assumes "cache_inv c"
  shows "cache_contents (dropAll c n) k = (if fst k = n then None else cache_contents c k)"
proof -
  have wf: "cache_wf c" using assms by (simp add: cache_inv_def)
  have ll: "c_ll (dropAll c n) = filter (\<lambda>e. fst (ce_key e) \<noteq> n) (c_ll c)"
    using dropAll_ll [OF wf, of "map ce_key (c_ll c)" n] by (simp add: dropAll_def)
  have wf': "cache_wf (dropAll c n)"
    using dropAll_in_ll [OF wf] by (simp add: dropAll_def)
  have "c_items (dropAll c n) k = Some e \<longleftrightarrow> (if fst k = n then None else c_items c k) = Some e" for e
    using items_eq [OF wf'] items_eq [OF wf] ll by auto
  then have "c_items (dropAll c n) k = (if fst k = n then None else c_items c k)"
    by (metis option.exhaust)
  then show ?thesis by (simp add: cache_contents_def)
qed

lemma cache_get_contents:
  "fst (cache_get c n v) = Some f \<Longrightarrow> cache_contents c (n, v) = Some f"
  by (auto simp: cache_get_def cache_contents_def split: if_splits option.splits)

interpretation lru: content_cache cache_inv cache_get cache_put dropAll cache_contents
proof (unfold_locales, goal_cases)
  case (4 c n v f)
  then show ?case by (simp add: cache_get_contents)
next
  case (5 c n v)
  then show ?case by (simp add: cache_contents_def fun_eq_iff cache_get_inv)
next
  case (6 c s n v f k g)
  then show ?case by (rule cache_put_contents)
next
  case (7 c n k)
  then show ?case by (rule dropAll_contents)
qed (simp_all add: inv_intro)

section \<open>Properties\<close>

text \<open>
  C31: Inserting a site that fits makes it the most recently used entry, keeps of the older
  entries the most recently used ones that still fit, and never lets the cache exceed its
  budget.
\<close>

theorem cache_put_lru:
  assumes "cache_inv c" and "0 < c_maxBytes c" "0 \<le> sz" "sz \<le> c_maxBytes c"
    and "c_items c (name, version) = None"
  shows "let c' = cache_put c name version f sz in
    c_ll c' = \<lparr>ce_key = (name, version), ce_fsys = f, ce_bytes = sz\<rparr> # fit (c_maxBytes c - sz) (c_ll c) \<and>
    total_bytes (c_ll c') \<le> c_maxBytes c \<and> c_curBytes c' = total_bytes (c_ll c') \<and>
    fst (cache_get c' name version) = Some f"
proof -
  let ?el = "\<lparr>ce_key = (name, version), ce_fsys = f, ce_bytes = sz\<rparr>"
  let ?c = "cache_put c name version f sz"
  have put: "cache_inv ?c" "c_ll ?c = ?el # fit (c_maxBytes c - sz) (c_ll c)"
    using cache_put_new [OF assms] by auto
  then have wf: "cache_wf ?c" by (simp add: cache_inv_def)
  have max: "c_maxBytes ?c = c_maxBytes c"
  proof -
    let ?d = "c\<lparr>c_ll := ?el # c_ll c, c_items := (c_items c)((name, version) \<mapsto> ?el),
              c_curBytes := c_curBytes c + sz\<rparr>"
    have "c_maxBytes (evict_loop d) = c_maxBytes d" for d :: "'a cache"
      by (induction d rule: evict_loop.induct)
        (subst evict_loop.simps, auto simp: evict_def)
    then show ?thesis using assms by (simp add: cache_put_def Let_def)
  qed
  have "total_bytes (c_ll ?c) \<le> c_maxBytes c"
    using fit_le [of "c_maxBytes c - sz" "c_ll c"] assms by (simp add: put(2))
  moreover have "c_items ?c (name, version) = Some ?el"
    using items_eq [OF wf] put(2) by simp
  ultimately show ?thesis
    using put(2) wf max assms(2) by (simp add: cache_get_def cache_wf_def)
qed

definition sample_cache :: "string cache" where
  "sample_cache =
     \<lparr>c_maxBytes = 10, c_curBytes = 9,
      c_ll = [\<lparr>ce_key = (''a'', ''2''), ce_fsys = ''A2'', ce_bytes = 4\<rparr>,
              \<lparr>ce_key = (''b'', ''1''), ce_fsys = ''B1'', ce_bytes = 5\<rparr>],
      c_items = [(''a'', ''2'') \<mapsto> \<lparr>ce_key = (''a'', ''2''), ce_fsys = ''A2'', ce_bytes = 4\<rparr>,
                 (''b'', ''1'') \<mapsto> \<lparr>ce_key = (''b'', ''1''), ce_fsys = ''B1'', ce_bytes = 5\<rparr>]\<rparr>"

lemma sample_cache_inv: "cache_inv sample_cache"
  by (auto simp: cache_inv_def cache_wf_def sample_cache_def fun_eq_iff)

theorem cache_put_lru_witness:
  "map ce_key (c_ll (cache_put sample_cache ''c'' ''1'' ''C1'' 6)) = [(''c'', ''1''), (''a'', ''2'')]"
proof -
  have "c_ll (cache_put sample_cache ''c'' ''1'' ''C1'' 6) =
      \<lparr>ce_key = (''c'', ''1''), ce_fsys = ''C1'', ce_bytes = 6\<rparr> # fit (c_maxBytes sample_cache - 6) (c_ll sample_cache)"
    using cache_put_lru [OF sample_cache_inv, of 6 "''c''" "''1''" "''C1''"]
    by (simp add: sample_cache_def Let_def)
  then show ?thesis by (simp add: sample_cache_def)
qed

text \<open>
  Whatever order the runtime visits the map in, dropping a site removes all its versions and
  nothing else, keeps the order of the others, and leaves the byte account exact.
\<close>

lemma dropAll_exact:
  assumes "cache_inv c" and "set ks = dom (c_items c)"
  shows "c_ll (dropAll_in ks c name) = filter (\<lambda>e. fst (ce_key e) \<noteq> name) (c_ll c) \<and>
    c_curBytes (dropAll_in ks c name) = total_bytes (c_ll (dropAll_in ks c name)) \<and>
    (\<forall>v. c_items (dropAll_in ks c name) (name, v) = None)"
proof -
  have wf: "cache_wf c" using assms by (simp add: cache_inv_def)
  have "ce_key ` set (c_ll c) \<subseteq> set ks"
    unfolding assms(2) using items_eq [OF wf] by blast
  then have ll: "c_ll (dropAll_in ks c name) = filter (\<lambda>e. fst (ce_key e) \<noteq> name) (c_ll c)"
    using dropAll_ll [OF wf] by simp
  have wf': "cache_wf (dropAll_in ks c name)"
    using dropAll_in_ll [OF wf] by simp
  have "c_items (dropAll_in ks c name) (name, v) = None" for v
  proof (rule ccontr)
    assume "c_items (dropAll_in ks c name) (name, v) \<noteq> None"
    then obtain e where "e \<in> set (c_ll (dropAll_in ks c name))" "ce_key e = (name, v)"
      using items_eq [OF wf'] by blast
    then show False by (simp add: ll)
  qed
  then show ?thesis using ll wf' by (simp add: cache_wf_def)
qed

end
