(* ===== verification/Posix_FS.thy ===== *)
theory Posix_FS
  imports Storage_Policy
begin

text \<open>
  The file system calls of package \<^verbatim>\<open>os\<close> the local backend makes, on a directory tree with
  modification times.  The environment decides the clock, the random suffixes of temporary
  names and, call by call, whether the call fails with an I/O error; every theorem about the
  backend that does not say otherwise holds for all of its choices.  Paths are absolute and
  already split into components.
\<close>

named_theorems frame \<open>syntax-directed rules: what a sequence of calls leaves alone\<close>

section \<open>Trees\<close>

datatype node = File bytes time | Folder time "(string \<times> node) list"

type_synonym fpath = "string list"

definition ent_put :: "string \<Rightarrow> node option \<Rightarrow> (string \<times> node) list \<Rightarrow> (string \<times> node) list" where
  "ent_put c v es =
     (case v of None \<Rightarrow> [] | Some n \<Rightarrow> [(c, n)]) @ filter (\<lambda>e. fst e \<noteq> c) es"

fun lookup :: "node \<Rightarrow> fpath \<Rightarrow> node option" where
  "lookup n [] = Some n"
| "lookup (File b m) (c # cs) = None"
| "lookup (Folder m es) (c # cs) =
     (case map_of es c of None \<Rightarrow> None | Some n \<Rightarrow> lookup n cs)"

text \<open>
  Set or remove the entry at a path whose parent is a directory; the parent's modification time
  changes when an entry appears or disappears.  Where the parent is missing nothing happens.
\<close>

fun put :: "time \<Rightarrow> fpath \<Rightarrow> node option \<Rightarrow> node \<Rightarrow> node" where
  "put t [] v n = (case v of None \<Rightarrow> n | Some m \<Rightarrow> m)"
| "put t (c # cs) v (File b m) = File b m"
| "put t (c # cs) v (Folder m es) =
     (if cs = [] then
        Folder (if (map_of es c = None) = (v = None) then m else t) (ent_put c v es)
      else case map_of es c of
        None \<Rightarrow> Folder m es
      | Some k \<Rightarrow> Folder m (ent_put c (Some (put t cs v k)) es))"

text \<open>How a path resolves: the errors \<^verbatim>\<open>ENOENT\<close> and \<^verbatim>\<open>ENOTDIR\<close> are told apart.\<close>

fun resolve :: "node \<Rightarrow> fpath \<Rightarrow> store_err + node" where
  "resolve n [] = Inr n"
| "resolve (File b m) (c # cs) = Inl (ErrOS ''ENOTDIR'')"
| "resolve (Folder m es) (c # cs) =
     (case map_of es c of None \<Rightarrow> Inl ErrNotExist | Some n \<Rightarrow> resolve n cs)"

fun is_folder :: "node \<Rightarrow> bool" where
  "is_folder (Folder m es) = True"
| "is_folder (File b m) = False"

fun mtime :: "node \<Rightarrow> time" where
  "mtime (Folder m es) = m"
| "mtime (File b m) = m"

text \<open>\<^verbatim>\<open>os.MkdirAll\<close> below a node: missing directories are made, a file in the way is an error.\<close>

fun mkdir_all :: "time \<Rightarrow> fpath \<Rightarrow> node \<Rightarrow> store_err + node" where
  "mkdir_all t cs (File b m) = Inl (ErrOS ''ENOTDIR'')"
| "mkdir_all t [] (Folder m es) = Inr (Folder m es)"
| "mkdir_all t (c # cs) (Folder m es) =
     (case mkdir_all t cs (case map_of es c of None \<Rightarrow> Folder t [] | Some n \<Rightarrow> n) of
        Inl e \<Rightarrow> Inl e
      | Inr n \<Rightarrow> Inr (Folder (if map_of es c = None then t else m) (ent_put c (Some n) es)))"

text \<open>The regular files below a node, with their paths; \<^verbatim>\<open>filepath.WalkDir\<close> visits them all.\<close>

fun walk_files :: "node \<Rightarrow> (fpath \<times> bytes \<times> time) list" where
  "walk_files (File b m) = [([], b, m)]"
| "walk_files (Folder m es) =
     concat (map (\<lambda>(c, n). map (\<lambda>(p, x). (c # p, x)) (walk_files n)) es)"

lemma map_of_ent_put [simp]: "map_of (ent_put c v es) d = (if d = c then v else map_of es d)"
proof -
  have "map_of (filter (\<lambda>e. fst e \<noteq> c) es) d = (if d = c then None else map_of es d)"
    by (induction es) auto
  then show ?thesis by (auto simp: ent_put_def split: option.splits)
qed

lemma lookup_append:
  "lookup n (ps @ qs) = (case lookup n ps of None \<Rightarrow> None | Some m \<Rightarrow> lookup m qs)"
  by (induction n ps rule: lookup.induct) (auto split: option.splits)

lemma resolve_lookup: "resolve n ps = Inr m \<longleftrightarrow> lookup n ps = Some m"
  by (induction n ps rule: resolve.induct) (auto split: option.splits)

lemma resolve_NotExist: "resolve n ps = Inl ErrNotExist \<Longrightarrow> lookup n ps = None"
  by (induction n ps rule: resolve.induct) (auto split: option.splits)

lemma resolve_err: "resolve n ps = Inl err \<Longrightarrow> err = ErrNotExist \<or> err = ErrOS ''ENOTDIR''"
  by (induction n ps rule: resolve.induct) (auto split: option.splits)

lemma lookup_None_resolve: "lookup n ps = None \<Longrightarrow> \<exists>e. resolve n ps = Inl e"
  by (metis resolve_lookup option.distinct(1) old.sum.exhaust)

lemma put_lookup_other:
  "c \<noteq> d \<Longrightarrow> lookup (put t (ps @ c # qs) v n) (ps @ d # rs) = lookup n (ps @ d # rs)"
proof (induction ps arbitrary: n)
  case Nil
  then show ?case by (cases n) (auto split: option.splits)
next
  case (Cons p ps)
  then show ?case by (cases n) (auto split: option.splits)
qed

lemma put_lookup_same:
  assumes "lookup n ps = Some (Folder m es)"
  shows "lookup (put t (ps @ [c]) v n) (ps @ [c]) = v"
  using assms
proof (induction ps arbitrary: n)
  case (Cons p ps)
  then show ?case by (cases n) (auto split: option.splits)
qed (auto split: option.splits)

text \<open>The parent stays a directory, and its other entries stay.\<close>

lemma put_parent:
  assumes "lookup n ps = Some (Folder m es)"
  shows "\<exists>m' es'. lookup (put t (ps @ [c]) v n) ps = Some (Folder m' es') \<and>
    map_of es' = (map_of es)(c := v)"
  using assms
proof (induction ps arbitrary: n)
  case (Cons p ps)
  then show ?case by (cases n) (auto split: option.splits)
qed (auto simp: fun_eq_iff)

lemma put_below:
  assumes "lookup n ps = Some k" and "qs \<noteq> []"
  shows "lookup (put t (ps @ qs) v n) ps = Some (put t qs v k)"
  using assms
proof (induction ps arbitrary: n)
  case (Cons p ps)
  then show ?case by (cases n) (auto split: option.splits)
qed simp

section \<open>System calls\<close>

text \<open>
  \<^verbatim>\<open>env_fault n\<close> says whether the \<^verbatim>\<open>n\<close>-th call fails; \<^verbatim>\<open>env_partial\<close> is what a
  failing removal or write leaves behind; \<^verbatim>\<open>env_suffix\<close> lists the random suffixes that
  \<^verbatim>\<open>MkdirTemp\<close> and \<^verbatim>\<open>CreateTemp\<close> try in turn.
\<close>

record env =
  env_now :: "nat \<Rightarrow> time"
  env_fault :: "nat \<Rightarrow> bool"
  env_partial :: "nat \<Rightarrow> node \<Rightarrow> node option"
  env_suffix :: "nat \<Rightarrow> string list"

record world =
  w_fs :: node
  w_tick :: nat

definition EIO :: store_err where
  "EIO = ErrOS ''EIO''"

lemma EIO_ne [simp]: "EIO \<noteq> ErrNotExist"
  by (simp add: EIO_def)

text \<open>A call: it fails without effect, or does its work at the time of the call.\<close>

definition sys :: "env \<Rightarrow> (time \<Rightarrow> node \<Rightarrow> (store_err + 'a) \<times> node) \<Rightarrow> world \<Rightarrow> (store_err + 'a) \<times> world" where
  "sys e f w =
     (if env_fault e (w_tick w) then (Inl EIO, w\<lparr>w_tick := Suc (w_tick w)\<rparr>)
      else let (r, n) = f (env_now e (w_tick w)) (w_fs w)
           in (r, w\<lparr>w_fs := n, w_tick := Suc (w_tick w)\<rparr>))"

definition time_Now :: "env \<Rightarrow> world \<Rightarrow> time \<times> world" where
  "time_Now e w = (env_now e (w_tick w), w\<lparr>w_tick := Suc (w_tick w)\<rparr>)"

definition os_Stat :: "env \<Rightarrow> fpath \<Rightarrow> world \<Rightarrow> (store_err + node) \<times> world" where
  "os_Stat e p = sys e (\<lambda>t n. (resolve n p, n))"

definition os_MkdirAll :: "env \<Rightarrow> fpath \<Rightarrow> world \<Rightarrow> (store_err + unit) \<times> world" where
  "os_MkdirAll e p = sys e (\<lambda>t n.
     case mkdir_all t p n of Inl err \<Rightarrow> (Inl err, n) | Inr n' \<Rightarrow> (Inr (), n'))"

text \<open>\<^verbatim>\<open>os.OpenFile\<close> with \<^verbatim>\<open>O_CREATE|O_WRONLY|O_TRUNC\<close>, then the writes and the close.\<close>

definition fs_create :: "time \<Rightarrow> fpath \<Rightarrow> node \<Rightarrow> (store_err + unit) \<times> node" where
  "fs_create t p n =
     (case resolve n (butlast p) of
        Inl err \<Rightarrow> (Inl err, n)
      | Inr (File b m) \<Rightarrow> (Inl (ErrOS ''ENOTDIR''), n)
      | Inr (Folder m es) \<Rightarrow>
          (case lookup n p of
             Some (Folder m' es') \<Rightarrow> (Inl (ErrOS ''EISDIR''), n)
           | _ \<Rightarrow> (Inr (), put t p (Some (File [] t)) n)))"

definition os_OpenFile :: "env \<Rightarrow> fpath \<Rightarrow> world \<Rightarrow> (store_err + unit) \<times> world" where
  "os_OpenFile e p = sys e (\<lambda>t n. fs_create t p n)"

definition os_Write :: "env \<Rightarrow> fpath \<Rightarrow> bytes \<Rightarrow> world \<Rightarrow> (store_err + unit) \<times> world" where
  "os_Write e p d w =
     (let t = env_now e (w_tick w); w' = w\<lparr>w_tick := Suc (w_tick w)\<rparr>
      in if env_fault e (w_tick w)
         then (Inl EIO, w'\<lparr>w_fs := put t p (env_partial e (w_tick w) (File d t)) (w_fs w)\<rparr>)
         else (Inr (), w'\<lparr>w_fs := put t p (Some (File d t)) (w_fs w)\<rparr>))"

definition os_Close :: "env \<Rightarrow> world \<Rightarrow> (store_err + unit) \<times> world" where
  "os_Close e = sys e (\<lambda>t n. (Inr (), n))"

text \<open>\<^verbatim>\<open>os.Rename\<close>: Go refuses a destination that is a directory.\<close>

definition fs_rename :: "time \<Rightarrow> fpath \<Rightarrow> fpath \<Rightarrow> node \<Rightarrow> (store_err + unit) \<times> node" where
  "fs_rename t old new n =
     (case resolve n old of
        Inl err \<Rightarrow> (Inl err, n)
      | Inr m \<Rightarrow>
          (case resolve n (butlast new) of
             Inl err \<Rightarrow> (Inl err, n)
           | Inr (File b s) \<Rightarrow> (Inl (ErrOS ''ENOTDIR''), n)
           | Inr (Folder s es) \<Rightarrow>
               (case lookup n new of
                  Some (Folder s' es') \<Rightarrow> (Inl (ErrOS ''EEXIST''), n)
                | Some (File b s') \<Rightarrow>
                    if is_folder m then (Inl (ErrOS ''ENOTDIR''), n)
                    else (Inr (), put t new (Some m) (put t old None n))
                | None \<Rightarrow> (Inr (), put t new (Some m) (put t old None n)))))"

definition os_Rename :: "env \<Rightarrow> fpath \<Rightarrow> fpath \<Rightarrow> world \<Rightarrow> (store_err + unit) \<times> world" where
  "os_Rename e old new = sys e (\<lambda>t n. fs_rename t old new n)"

definition fs_remove :: "time \<Rightarrow> fpath \<Rightarrow> node \<Rightarrow> (store_err + unit) \<times> node" where
  "fs_remove t p n =
     (case resolve n p of
        Inl err \<Rightarrow> (Inl err, n)
      | Inr (File b m) \<Rightarrow> (Inr (), put t p None n)
      | Inr (Folder m es) \<Rightarrow> if es = [] then (Inr (), put t p None n) else (Inl (ErrOS ''ENOTEMPTY''), n))"

definition os_Remove :: "env \<Rightarrow> fpath \<Rightarrow> world \<Rightarrow> (store_err + unit) \<times> world" where
  "os_Remove e p = sys e (\<lambda>t n. fs_remove t p n)"

text \<open>A failing \<^verbatim>\<open>os.RemoveAll\<close> may have removed any part of the tree.\<close>

definition os_RemoveAll :: "env \<Rightarrow> fpath \<Rightarrow> world \<Rightarrow> (store_err + unit) \<times> world" where
  "os_RemoveAll e p w =
     (let t = env_now e (w_tick w); w' = w\<lparr>w_tick := Suc (w_tick w)\<rparr>
      in case resolve (w_fs w) p of
           Inl err \<Rightarrow>
             if env_fault e (w_tick w) then (Inl EIO, w')
             else (if err = ErrNotExist then Inr () else Inl err, w')
         | Inr m \<Rightarrow>
             if env_fault e (w_tick w)
             then (Inl EIO, w'\<lparr>w_fs := put t p (env_partial e (w_tick w) m) (w_fs w)\<rparr>)
             else (Inr (), w'\<lparr>w_fs := put t p None (w_fs w)\<rparr>))"

text \<open>\<^verbatim>\<open>os.ReadDir\<close> returns the entries sorted by name.\<close>

definition os_ReadDir :: "env \<Rightarrow> fpath \<Rightarrow> world \<Rightarrow> (store_err + (string \<times> node) list) \<times> world" where
  "os_ReadDir e p = sys e (\<lambda>t n.
     (case resolve n p of
        Inl err \<Rightarrow> Inl err
      | Inr (File b m) \<Rightarrow> Inl (ErrOS ''ENOTDIR'')
      | Inr (Folder m es) \<Rightarrow> Inr (sort_key fst es), n))"

definition os_ReadFile :: "env \<Rightarrow> fpath \<Rightarrow> world \<Rightarrow> (store_err + bytes) \<times> world" where
  "os_ReadFile e p = sys e (\<lambda>t n.
     (case resolve n p of
        Inl err \<Rightarrow> Inl err
      | Inr (File b m) \<Rightarrow> Inr b
      | Inr (Folder m es) \<Rightarrow> Inl (ErrOS ''EISDIR''), n))"

text \<open>
  \<^verbatim>\<open>os.MkdirTemp(dir, pattern)\<close> and \<^verbatim>\<open>os.CreateTemp(dir, pattern)\<close>: the first suffix whose
  name is free; \<^verbatim>\<open>pattern\<close> is what stands before the star.
\<close>

definition fresh_name :: "node \<Rightarrow> fpath \<Rightarrow> string \<Rightarrow> string list \<Rightarrow> string option" where
  "fresh_name n dir pattern ss =
     map_option (\<lambda>s. pattern @ s) (find (\<lambda>s. lookup n (dir @ [pattern @ s]) = None) ss)"

definition fs_temp :: "node \<Rightarrow> string list \<Rightarrow> time \<Rightarrow> fpath \<Rightarrow> string \<Rightarrow> node \<Rightarrow> (store_err + string) \<times> node" where
  "fs_temp new ss t dir pattern n =
     (case resolve n dir of
        Inl err \<Rightarrow> (Inl err, n)
      | Inr (File b m) \<Rightarrow> (Inl (ErrOS ''ENOTDIR''), n)
      | Inr (Folder m es) \<Rightarrow>
          (case fresh_name n dir pattern ss of
             None \<Rightarrow> (Inl (ErrOS ''EEXIST''), n)
           | Some c \<Rightarrow> (Inr c, put t (dir @ [c]) (Some new) n)))"

definition os_MkdirTemp :: "env \<Rightarrow> fpath \<Rightarrow> string \<Rightarrow> world \<Rightarrow> (store_err + string) \<times> world" where
  "os_MkdirTemp e dir pattern w =
     sys e (\<lambda>t n. fs_temp (Folder t []) (env_suffix e (w_tick w)) t dir pattern n) w"

definition os_CreateTemp :: "env \<Rightarrow> fpath \<Rightarrow> string \<Rightarrow> world \<Rightarrow> (store_err + string) \<times> world" where
  "os_CreateTemp e dir pattern w =
     sys e (\<lambda>t n. fs_temp (File [] t) (env_suffix e (w_tick w)) t dir pattern n) w"

section \<open>What a call leaves alone\<close>

text \<open>
  \<^verbatim>\<open>same_except R C n n'\<close>: below the directory \<^verbatim>\<open>R\<close> everything outside the entries
  \<^verbatim>\<open>C\<close> is the same in both trees, and \<^verbatim>\<open>R\<close> is a directory after if it was one before.
\<close>

definition same_except :: "fpath \<Rightarrow> string set \<Rightarrow> node \<Rightarrow> node \<Rightarrow> bool" where
  "same_except R C n n' \<longleftrightarrow>
     (\<forall>d rs. d \<notin> C \<longrightarrow> lookup n' (R @ d # rs) = lookup n (R @ d # rs)) \<and>
     ((\<exists>m es. lookup n R = Some (Folder m es)) \<longrightarrow> (\<exists>m es. lookup n' R = Some (Folder m es)))"

lemma same_except_refl [simp]: "same_except R C n n"
  by (simp add: same_except_def)

lemma same_except_trans:
  "same_except R C n n' \<Longrightarrow> same_except R C n' n'' \<Longrightarrow> same_except R C n n''"
  unfolding same_except_def by metis

lemma same_except_mono: "same_except R C n n' \<Longrightarrow> C \<subseteq> D \<Longrightarrow> same_except R D n n'"
  unfolding same_except_def by blast

lemma same_except_entry: "same_except R C n n' \<Longrightarrow> d \<notin> C \<Longrightarrow> lookup n' (R @ [d]) = lookup n (R @ [d])"
  unfolding same_except_def by blast

lemma put_same_except: "same_except R {c} n (put t (R @ c # qs) v n)"
proof -
  have "\<exists>m es. lookup (put t (R @ c # qs) v n) R = Some (Folder m es)"
    if "lookup n R = Some (Folder m es)" for m es
    using put_below [OF that, of "c # qs" t v] by (auto split: option.splits)
  then show ?thesis
    unfolding same_except_def by (auto simp: put_lookup_other)
qed

lemma mkdir_all_below:
  assumes "mkdir_all t (ps @ qs) n = Inr n'" and "lookup n ps = Some k"
  shows "\<exists>k'. mkdir_all t qs k = Inr k' \<and> lookup n' ps = Some k'"
  using assms
proof (induction ps arbitrary: n n')
  case (Cons p ps)
  then show ?case by (cases n) (auto split: option.splits sum.splits)
qed simp

lemma mkdir_all_other:
  assumes "mkdir_all t (ps @ c # qs) n = Inr n'" and "c \<noteq> d"
  shows "lookup n' (ps @ d # rs) = lookup n (ps @ d # rs)"
  using assms
proof (induction ps arbitrary: n n')
  case Nil
  then show ?case by (cases n) (auto split: sum.splits)
next
  case (Cons p ps)
  show ?case
  proof (cases n)
    case (Folder m es)
    obtain k where k: "mkdir_all t (ps @ c # qs) (case map_of es p of None \<Rightarrow> Folder t [] | Some n \<Rightarrow> n) = Inr k"
        "n' = Folder (if map_of es p = None then t else m) (ent_put p (Some k) es)"
      using Cons.prems Folder by (auto split: sum.splits)
    have "lookup (Folder t []) (ps @ d # rs) = None" by (cases ps) auto
    then show ?thesis
      using Cons.IH [OF k(1) Cons.prems(2)] Folder k(2) by (cases "map_of es p") simp_all
  qed (use Cons.prems in simp)
qed

lemma mkdir_all_same_except:
  assumes "mkdir_all t (R @ c # qs) n = Inr n'"
  shows "same_except R {c} n n'"
proof -
  have "\<exists>m es. lookup n' R = Some (Folder m es)" if fR: "lookup n R = Some (Folder m es)" for m es
  proof -
    obtain k where "mkdir_all t (c # qs) (Folder m es) = Inr k" "lookup n' R = Some k"
      using mkdir_all_below [OF assms fR] by blast
    then show ?thesis by (auto split: sum.splits)
  qed
  then show ?thesis
    unfolding same_except_def using mkdir_all_other [OF assms] by auto
qed

lemma mkdir_all_makes: "mkdir_all t ps n = Inr n' \<Longrightarrow> \<exists>m es. lookup n' ps = Some (Folder m es)"
  by (induction t ps n arbitrary: n' rule: mkdir_all.induct) (auto split: sum.splits)

subsection \<open>Call by call\<close>

lemma sys_fs:
  "(\<And>t n. same_except R C n (snd (f t n))) \<Longrightarrow> same_except R C (w_fs w) (w_fs (snd (sys e f w)))"
  by (simp add: sys_def split_beta Let_def)

lemma sys_ok: "sys e f w = (Inr x, w') \<Longrightarrow>
    \<not> env_fault e (w_tick w) \<and> f (env_now e (w_tick w)) (w_fs w) = (Inr x, w_fs w') \<and> w_tick w' = Suc (w_tick w)"
  by (auto simp: sys_def Let_def split: if_splits prod.splits)

lemma os_Stat_fs [simp]: "w_fs (snd (os_Stat e p w)) = w_fs w"
  by (simp add: os_Stat_def sys_def)

lemma os_Close_fs [simp]: "w_fs (snd (os_Close e w)) = w_fs w"
  by (simp add: os_Close_def sys_def)

lemma os_ReadDir_fs [simp]: "w_fs (snd (os_ReadDir e p w)) = w_fs w"
  by (simp add: os_ReadDir_def sys_def)

lemma os_ReadFile_fs [simp]: "w_fs (snd (os_ReadFile e p w)) = w_fs w"
  by (simp add: os_ReadFile_def sys_def)

lemma time_Now_fs [simp]: "w_fs (snd (time_Now e w)) = w_fs w"
  by (simp add: time_Now_def)

lemma reads_fs:
  "os_Stat e p w = (r1, w1) \<Longrightarrow> w_fs w1 = w_fs w"
  "os_Close e w = (r2, w1) \<Longrightarrow> w_fs w1 = w_fs w"
  "os_ReadDir e p w = (r3, w1) \<Longrightarrow> w_fs w1 = w_fs w"
  "os_ReadFile e p w = (r4, w1) \<Longrightarrow> w_fs w1 = w_fs w"
  "time_Now e w = (t, w1) \<Longrightarrow> w_fs w1 = w_fs w"
  by (metis os_Stat_fs os_Close_fs os_ReadDir_fs os_ReadFile_fs time_Now_fs snd_conv)+

lemma os_MkdirAll_frame: "same_except R {c} (w_fs w) (w_fs (snd (os_MkdirAll e (R @ c # qs) w)))"
  unfolding os_MkdirAll_def
  by (rule sys_fs) (auto intro: mkdir_all_same_except split: sum.splits)

lemma os_OpenFile_frame: "same_except R {c} (w_fs w) (w_fs (snd (os_OpenFile e (R @ c # qs) w)))"
  unfolding os_OpenFile_def
  by (rule sys_fs) (auto simp: fs_create_def put_same_except split: sum.splits option.splits node.splits)

lemma os_Write_frame: "same_except R {c} (w_fs w) (w_fs (snd (os_Write e (R @ c # qs) d w)))"
  by (simp add: os_Write_def Let_def put_same_except)

lemma os_RemoveAll_frame: "same_except R {c} (w_fs w) (w_fs (snd (os_RemoveAll e (R @ c # qs) w)))"
  by (simp add: os_RemoveAll_def Let_def put_same_except split: sum.splits)

lemma os_Remove_frame: "same_except R {c} (w_fs w) (w_fs (snd (os_Remove e (R @ c # qs) w)))"
  unfolding os_Remove_def
  by (rule sys_fs) (auto simp: fs_remove_def put_same_except split: sum.splits node.splits)

lemma put2_same_except:
  "same_except R {c, d} n (put t (R @ d # qs) v (put t (R @ c # ps) u n))"
proof (rule same_except_trans)
  show "same_except R {c, d} n (put t (R @ c # ps) u n)"
    by (rule same_except_mono [OF put_same_except]) simp
  show "same_except R {c, d} (put t (R @ c # ps) u n) (put t (R @ d # qs) v (put t (R @ c # ps) u n))"
    by (rule same_except_mono [OF put_same_except]) simp
qed

lemma os_Rename_frame:
  "same_except R {c, d} (w_fs w) (w_fs (snd (os_Rename e (R @ c # ps) (R @ d # qs) w)))"
  unfolding os_Rename_def
  by (rule sys_fs) (auto simp: fs_rename_def put2_same_except split: sum.splits option.splits node.splits)

lemma os_Rename_fail:
  "os_Rename e p q w = (Inl err, w') \<Longrightarrow> w_fs w' = w_fs w"
  by (auto simp: os_Rename_def sys_def fs_rename_def Let_def
      split: if_splits sum.splits option.splits node.splits)

text \<open>A successful rename within a directory moves the entry.\<close>

lemma os_Rename_ok:
  assumes "os_Rename e (R @ [c]) (R @ [d]) w = (Inr u, w')" and "c \<noteq> d"
  shows "\<exists>n. lookup (w_fs w) (R @ [c]) = Some n \<and> lookup (w_fs w') (R @ [d]) = Some n \<and>
    lookup (w_fs w') (R @ [c]) = None"
proof -
  let ?n = "w_fs w" and ?t = "env_now e (w_tick w)"
  have ren: "fs_rename ?t (R @ [c]) (R @ [d]) ?n = (Inr u, w_fs w')"
    using sys_ok [OF assms(1) [unfolded os_Rename_def]] by simp
  obtain m where m: "lookup ?n (R @ [c]) = Some m"
    using ren by (auto simp: fs_rename_def resolve_lookup split: sum.splits)
  obtain s es where R: "lookup ?n R = Some (Folder s es)"
    using ren by (auto simp: fs_rename_def resolve_lookup split: sum.splits node.splits)
  have w': "w_fs w' = put ?t (R @ [d]) (Some m) (put ?t (R @ [c]) None ?n)"
    using ren m by (auto simp: fs_rename_def resolve_lookup split: sum.splits node.splits option.splits if_splits)
  obtain s' es' where R': "lookup (put ?t (R @ [c]) None ?n) R = Some (Folder s' es')"
    using put_parent [OF R] by blast
  have "lookup (w_fs w') (R @ [d]) = Some m"
    using put_lookup_same [OF R'] by (simp add: w')
  moreover have "lookup (w_fs w') (R @ [c]) = None"
    using put_lookup_other [of d c ?t R "[]" "Some m" _ "[]"] put_lookup_same [OF R] assms(2)
    by (simp add: w')
  ultimately show ?thesis using m by blast
qed

lemma fs_temp_frame:
  "snd (fs_temp new ss t R pattern n) = n \<or>
   (\<exists>c. fst (fs_temp new ss t R pattern n) = Inr c \<and> snd (fs_temp new ss t R pattern n) = put t (R @ [c]) (Some new) n)"
  by (auto simp: fs_temp_def split: sum.splits node.splits option.splits)

lemma fs_temp_ok:
  assumes "fs_temp new ss t R pattern n = (Inr c, n')"
  shows "HasPrefix c pattern \<and> lookup n (R @ [c]) = None \<and> lookup n' (R @ [c]) = Some new \<and>
    same_except R {c} n n' \<and> (\<exists>m es. lookup n R = Some (Folder m es))"
proof -
  obtain m es where R: "lookup n R = Some (Folder m es)"
    using assms by (auto simp: fs_temp_def resolve_lookup split: sum.splits node.splits)
  have c: "fresh_name n R pattern ss = Some c" and n': "n' = put t (R @ [c]) (Some new) n"
    using assms by (auto simp: fs_temp_def split: sum.splits node.splits option.splits)
  from c have "HasPrefix c pattern \<and> lookup n (R @ [c]) = None"
    by (auto simp: fresh_name_def find_Some_iff)
  then show ?thesis
    using put_lookup_same [OF R] put_same_except [of R c n t "[]"] R by (simp add: n')
qed

text \<open>When the failing branch cannot give the result, the call has succeeded.\<close>

lemma io_ok:
  assumes "(case m of (Inl err, w1) \<Rightarrow> A err w1 | (Inr x, w1) \<Rightarrow> B x w1) = (Inr y, w')"
    and "\<And>err w1. A err w1 \<noteq> (Inr y, w')"
  shows "\<exists>x w1. m = (Inr x, w1) \<and> B x w1 = (Inr y, w')"
  using assms by (cases m; cases "fst m") auto

section \<open>Frames of sequences of calls\<close>

text \<open>
  Each call as a step from a tree that already agrees with the initial one outside \<^verbatim>\<open>C\<close>, and
  one rule for the case distinction on a call's result: with these an operation is framed by
  following its text.
\<close>

lemma frame_step:
  "\<lbrakk>same_except R D n n'; D \<subseteq> C; same_except R C n0 n\<rbrakk> \<Longrightarrow> same_except R C n0 n'"
  by (blast intro: same_except_trans same_except_mono)

lemma frame_bind [frame]:
  assumes "same_except R C n0 (w_fs (snd m))"
    and "\<And>err w1. m = (Inl err, w1) \<Longrightarrow> same_except R C n0 (w_fs w1) \<Longrightarrow> same_except R C n0 (w_fs (snd (A err w1)))"
    and "\<And>x w1. m = (Inr x, w1) \<Longrightarrow> same_except R C n0 (w_fs w1) \<Longrightarrow> same_except R C n0 (w_fs (snd (B x w1)))"
  shows "same_except R C n0 (w_fs (snd (case m of (Inl err, w1) \<Rightarrow> A err w1 | (Inr x, w1) \<Rightarrow> B x w1)))"
  using assms by (auto split: prod.splits sum.splits)

lemma frame_if [frame]:
  "\<lbrakk>b \<Longrightarrow> same_except R C n0 (w_fs (snd x)); \<not> b \<Longrightarrow> same_except R C n0 (w_fs (snd y))\<rbrakk>
    \<Longrightarrow> same_except R C n0 (w_fs (snd (if b then x else y)))"
  by simp

lemma frame_pair [frame]: "same_except R C n0 (w_fs w) \<Longrightarrow> same_except R C n0 (w_fs (snd (r, w)))"
  by simp

lemma frame_defer [frame]:
  assumes "same_except R C n0 (w_fs (snd m))"
    and "\<And>r w1. m = (r, w1) \<Longrightarrow> same_except R C n0 (w_fs w1) \<Longrightarrow> same_except R C n0 (w_fs (snd (A w1)))"
  shows "same_except R C n0 (w_fs (snd (case m of (r, w1) \<Rightarrow> (r, snd (A w1)))))"
  using assms by (cases m) auto

lemma frame_reads [frame]:
  assumes "same_except R C n0 (w_fs w)"
  shows "same_except R C n0 (w_fs (snd (os_Stat e p w)))"
    "same_except R C n0 (w_fs (snd (os_Close e w)))"
    "same_except R C n0 (w_fs (snd (os_ReadDir e p w)))"
    "same_except R C n0 (w_fs (snd (os_ReadFile e p w)))"
    "same_except R C n0 (w_fs (snd (time_Now e w)))"
  using assms by simp_all

lemma frame_calls [frame]:
  assumes "same_except R C n0 (w_fs w)" and "c \<in> C"
  shows "same_except R C n0 (w_fs (snd (os_MkdirAll e (R @ c # qs) w)))"
    "same_except R C n0 (w_fs (snd (os_OpenFile e (R @ c # qs) w)))"
    "same_except R C n0 (w_fs (snd (os_Write e (R @ c # qs) d w)))"
    "same_except R C n0 (w_fs (snd (os_RemoveAll e (R @ c # qs) w)))"
    "same_except R C n0 (w_fs (snd (os_Remove e (R @ c # qs) w)))"
  using assms
  by (blast intro: frame_step os_MkdirAll_frame os_OpenFile_frame os_Write_frame
      os_RemoveAll_frame os_Remove_frame)+

lemma frame_rename [frame]:
  "\<lbrakk>same_except R C n0 (w_fs w); c \<in> C; d \<in> C\<rbrakk>
    \<Longrightarrow> same_except R C n0 (w_fs (snd (os_Rename e (R @ c # ps) (R @ d # qs) w)))"
  by (rule frame_step [OF os_Rename_frame]) auto

end
