(* ===== verification/Go_Time.thy ===== *)
theory Go_Time
  imports Go_Prelude "HOL-Library.Monad_Syntax"
begin

text \<open>
  The part of package \<^verbatim>\<open>time\<close> that turns an instant into text and back: the proleptic
  Gregorian calendar, the layout \<^verbatim>\<open>RFC3339Nano\<close> in UTC, and \<^verbatim>\<open>time.Parse\<close> at that
  layout, with its leniencies (a one-digit hour, a comma before the fraction, more than nine
  digits of fraction, numeric zone offsets).  The main result is the round trip
  \<^verbatim>\<open>parse (format t) = t\<close> for every instant of the years 0 to 9999.
\<close>

section \<open>Calendar\<close>

definition leap :: "int \<Rightarrow> bool" where
  "leap y \<longleftrightarrow> y mod 4 = 0 \<and> (y mod 100 \<noteq> 0 \<or> y mod 400 = 0)"

text \<open>Days from 1 January of the year 1 to 1 January of a year.\<close>

definition days_before_year :: "int \<Rightarrow> int" where
  "days_before_year y = 365 * (y - 1) + (y - 1) div 4 - (y - 1) div 100 + (y - 1) div 400"

definition year_of :: "int \<Rightarrow> int" where
  "year_of D =
     (let e = D * 400 div 146097 + 1
      in if days_before_year (e + 1) \<le> D then e + 1
         else if D < days_before_year e then e - 1 else e)"

definition month_lengths :: "int \<Rightarrow> int list" where
  "month_lengths y = [31, if leap y then 29 else 28, 31, 30, 31, 30, 31, 31, 30, 31, 30, 31]"

fun month_day :: "int list \<Rightarrow> int \<Rightarrow> int \<Rightarrow> int \<times> int" where
  "month_day [] m d = (m, d + 1)"
| "month_day (l # ls) m d = (if d < l then (m, d + 1) else month_day ls (m + 1) (d - l))"

definition epoch_days :: int where
  "epoch_days = 719162"

definition civil :: "int \<Rightarrow> int \<times> int \<times> int" where
  "civil d =
     (let D = d + epoch_days; y = year_of D
      in (y, month_day (month_lengths y) 1 (D - days_before_year y)))"

definition days_of_civil :: "int \<Rightarrow> int \<Rightarrow> int \<Rightarrow> int" where
  "days_of_civil y m d =
     days_before_year y + sum_list (take (nat (m - 1)) (month_lengths y)) + (d - 1) - epoch_days"

lemma year_of_bounds: "days_before_year (year_of D) \<le> D \<and> D < days_before_year (year_of D + 1)"
proof -
  define k where "k = D * 400 div 146097"
  have k: "146097 * k \<le> 400 * D \<and> 400 * D < 146097 * (k + 1)"
  proof -
    have "0 \<le> D * 400 mod 146097" "D * 400 mod 146097 < 146097" by simp_all
    then show ?thesis
      using div_mult_mod_eq [of "D * 400" 146097] unfolding k_def [symmetric] by auto
  qed
  have bnd: "c * (x div c) \<le> x \<and> x < c * (x div c) + c" if "0 < c" for c x :: int
    using that pos_mod_sign [of c x] pos_mod_bound [of c x] mult_div_mod_eq [of c x] by linarith
  have lo: "days_before_year k \<le> D"
    using k bnd [of 4 "k - 1"] bnd [of 100 "k - 1"] bnd [of 400 "k - 1"]
    unfolding days_before_year_def by simp
  have hi: "D < days_before_year (k + 3)"
    using k bnd [of 4 "2 + k"] bnd [of 100 "2 + k"] bnd [of 400 "2 + k"]
    unfolding days_before_year_def by (simp add: add.commute)
  show ?thesis
    using lo hi by (auto simp: year_of_def k_def [symmetric] Let_def add.assoc)
qed

lemma div_pred:
  assumes "0 < (c::int)"
  shows "y div c - (y - 1) div c = (if y mod c = 0 then 1 else 0)"
proof (cases "y mod c = 0")
  case True
  then have "y = c * (y div c)" by (metis add.right_neutral mult_div_mod_eq)
  then have "y - 1 = c * (y div c - 1) + (c - 1)" by (simp add: algebra_simps)
  then have "(y - 1) div c = y div c - 1" by (rule int_div_pos_eq) (use assms in auto)
  with True show ?thesis by simp
next
  case False
  have "y - 1 = c * (y div c) + (y mod c - 1)" by simp
  then have "(y - 1) div c = y div c"
    by (rule int_div_pos_eq) (use assms False pos_mod_sign [of c y] pos_mod_bound [of c y] in linarith)+
  with False show ?thesis by simp
qed

lemma leap_days: "days_before_year (y + 1) - days_before_year y = (if leap y then 366 else 365)"
proof -
  have "y mod 100 = (y mod 400) mod 100" "y mod 4 = (y mod 100) mod 4"
    by (simp_all add: mod_mod_cancel)
  then have "y mod 400 = 0 \<Longrightarrow> y mod 100 = 0" "y mod 100 = 0 \<Longrightarrow> y mod 4 = 0"
    by simp_all
  moreover have "days_before_year (y + 1) - days_before_year y =
      365 + (y div 4 - (y - 1) div 4) - (y div 100 - (y - 1) div 100) + (y div 400 - (y - 1) div 400)"
    by (simp add: days_before_year_def)
  ultimately show ?thesis
    unfolding leap_def by (simp only: div_pred zero_less_numeral) (cases "y mod 400 = 0"; cases "y mod 100 = 0"; simp)
qed

lemma month_day_sum:
  assumes "month_day ls m d = (m', d')" "0 \<le> d" "d < sum_list ls" "\<forall>l \<in> set ls. 0 < l"
  shows "m \<le> m' \<and> m' < m + int (length ls) \<and>
    sum_list (take (nat (m' - m)) ls) + (d' - 1) = d \<and> 1 \<le> d' \<and> d' \<le> ls ! nat (m' - m)"
  using assms
proof (induction ls m d rule: month_day.induct)
  case (2 l ls m d)
  show ?case
  proof (cases "d < l")
    case False
    then have IH: "m + 1 \<le> m' \<and> m' < m + 1 + int (length ls) \<and>
        sum_list (take (nat (m' - (m + 1))) ls) + (d' - 1) = d - l \<and> 1 \<le> d' \<and> d' \<le> ls ! nat (m' - (m + 1))"
      using 2 by auto
    then have "nat (m' - m) = Suc (nat (m' - (m + 1)))" by auto
    then show ?thesis using IH by auto
  qed (use 2 in auto)
qed simp

lemma civil_valid:
  assumes "civil d = (y, m, dd)"
  shows "y = year_of (d + epoch_days) \<and> 1 \<le> m \<and> m \<le> 12 \<and> 1 \<le> dd \<and> dd \<le> month_lengths y ! nat (m - 1) \<and>
    days_of_civil y m dd = d"
proof -
  define D where "D = d + epoch_days"
  define k where "k = D - days_before_year y"
  have y: "y = year_of D" and md: "month_day (month_lengths y) 1 k = (m, dd)"
    using assms by (auto simp: civil_def Let_def D_def k_def)
  have sum: "sum_list (month_lengths y) = (if leap y then 366 else 365)"
    by (simp add: month_lengths_def)
  have "0 \<le> k" "k < sum_list (month_lengths y)"
    using year_of_bounds [of D] leap_days [of "year_of D"] sum [unfolded y] unfolding k_def y by auto
  moreover have "\<forall>l \<in> set (month_lengths y). 0 < l" "length (month_lengths y) = 12"
    by (auto simp: month_lengths_def)
  ultimately show ?thesis
    using month_day_sum [OF md] by (simp add: days_of_civil_def y D_def k_def [unfolded D_def])
qed

lemma month_length_le: "1 \<le> m \<Longrightarrow> m \<le> 12 \<Longrightarrow> month_lengths y ! nat (m - 1) \<le> 31"
proof -
  assume "1 \<le> m" "m \<le> 12"
  then have "nat (m - 1) < length (month_lengths y)" by (simp add: month_lengths_def)
  then have "month_lengths y ! nat (m - 1) \<in> set (month_lengths y)" by (rule nth_mem)
  then show ?thesis by (auto simp: month_lengths_def)
qed

section \<open>Digits\<close>

text \<open>A number with exactly \<^verbatim>\<open>k\<close> digits, most significant first.\<close>

fun pad :: "nat \<Rightarrow> int \<Rightarrow> string" where
  "pad 0 n = []"
| "pad (Suc k) n = pad k (n div 10) @ [digit (nat (n mod 10))]"

definition digit_val :: "char \<Rightarrow> int option" where
  "digit_val c = (if CHR ''0'' \<le> c \<and> c \<le> CHR ''9'' then Some (int (of_char c) - 48) else None)"

fun parse_digits :: "string \<Rightarrow> int \<Rightarrow> int option" where
  "parse_digits [] acc = Some acc"
| "parse_digits (c # cs) acc =
     (case digit_val c of None \<Rightarrow> None | Some v \<Rightarrow> parse_digits cs (10 * acc + v))"

text \<open>Read exactly \<^verbatim>\<open>k\<close> digits.\<close>

definition take_num :: "nat \<Rightarrow> string \<Rightarrow> (int \<times> string) option" where
  "take_num k s =
     (if length s < k then None
      else case parse_digits (take k s) 0 of None \<Rightarrow> None | Some v \<Rightarrow> Some (v, drop k s))"

lemma digit_val_digit: "0 \<le> n \<Longrightarrow> n < 10 \<Longrightarrow> digit_val (digit (nat n)) = Some n"
proof -
  assume "0 \<le> n" "n < 10"
  then have "n = 0 \<or> n = 1 \<or> n = 2 \<or> n = 3 \<or> n = 4 \<or> n = 5 \<or> n = 6 \<or> n = 7 \<or> n = 8 \<or> n = 9"
    by presburger
  then show ?thesis by (auto simp: digit_val_def digit_def less_eq_char_def)
qed

lemma parse_digits_append:
  "parse_digits (xs @ ys) acc =
     (case parse_digits xs acc of None \<Rightarrow> None | Some v \<Rightarrow> parse_digits ys v)"
  by (induction xs arbitrary: acc) (auto split: option.splits)

lemma length_pad [simp]: "length (pad k n) = k"
  by (induction k arbitrary: n) auto

lemma parse_digits_pad:
  "0 \<le> n \<Longrightarrow> n < 10 ^ k \<Longrightarrow> parse_digits (pad k n) acc = Some (10 ^ k * acc + n)"
proof (induction k arbitrary: n acc)
  case (Suc k)
  have "n div 10 < 10 ^ k" "0 \<le> n div 10" using Suc.prems by auto
  then show ?case
    using Suc.IH [of "n div 10" acc] digit_val_digit [of "n mod 10"]
    by (simp add: parse_digits_append)
qed simp

lemma take_num_pad:
  "0 \<le> n \<Longrightarrow> n < 10 ^ k \<Longrightarrow> take_num k (pad k n @ s) = Some (n, s)"
  by (simp add: take_num_def parse_digits_pad)

section \<open>The layout RFC3339Nano\<close>

definition second :: duration where
  "second = 1000000000"

text \<open>A year prints with at least four digits.\<close>

definition format_year :: "int \<Rightarrow> string" where
  "format_year y =
     (let a = (if y < 0 then - y else y)
      in (if y < 0 then ''-'' else []) @ (if a < 10000 then pad 4 a else dec_nat (nat a)))"

text \<open>The fraction prints without its trailing zeros, and not at all when it is zero.\<close>

definition format_frac :: "int \<Rightarrow> string" where
  "format_frac ns = (if ns = 0 then [] else CHR ''.'' # TrimRight (pad 9 ns) (CHR ''0''))"

definition Format_RFC3339Nano :: "time \<Rightarrow> string" where
  "Format_RFC3339Nano t =
     (let s = t div second; sod = s mod 86400; (y, m, d) = civil (s div 86400)
      in format_year y @ ''-'' @ pad 2 m @ ''-'' @ pad 2 d @ ''T'' @ pad 2 (sod div 3600) @ '':'' @
         pad 2 (sod div 60 mod 60) @ '':'' @ pad 2 (sod mod 60) @ format_frac (t mod second) @ ''Z'')"

definition is_digit :: "char \<Rightarrow> bool" where
  "is_digit c = (digit_val c \<noteq> None)"

fun expect :: "char \<Rightarrow> string \<Rightarrow> string option" where
  "expect c [] = None"
| "expect c (d # s) = (if c = d then Some s else None)"

text \<open>\<^verbatim>\<open>getnum(value, false)\<close>: one digit or two.\<close>

definition getnum :: "string \<Rightarrow> (int \<times> string) option" where
  "getnum s = (case take_num 2 s of Some r \<Rightarrow> Some r | None \<Rightarrow> take_num 1 s)"

text \<open>The fraction: digits beyond the ninth are dropped.\<close>

definition parse_frac :: "string \<Rightarrow> (int \<times> string) option" where
  "parse_frac s =
     (case s of
        c # d # r \<Rightarrow>
          if c \<in> {CHR ''.'', CHR '',''} \<and> is_digit d
          then (let ds = take 9 (takeWhile is_digit (d # r))
                in map_option (\<lambda>v. (v * 10 ^ (9 - length ds), dropWhile is_digit (d # r))) (parse_digits ds 0))
          else Some (0, s)
      | _ \<Rightarrow> Some (0, s))"

text \<open>The zone: \<^verbatim>\<open>Z\<close> or a signed offset, in seconds.\<close>

definition parse_zone :: "string \<Rightarrow> (int \<times> string) option" where
  "parse_zone s =
     (case s of
        [] \<Rightarrow> None
      | c # r \<Rightarrow>
          if c = CHR ''Z'' then Some (0, r)
          else if c = CHR ''+'' \<or> c = CHR ''-'' then
            do { (h, r) \<leftarrow> take_num 2 r; r \<leftarrow> expect (CHR '':'') r; (m, r) \<leftarrow> take_num 2 r;
                 if h \<le> 24 \<and> m \<le> 60
                 then Some ((if c = CHR ''-'' then - 1 else 1) * (h * 3600 + m * 60), r) else None }
          else None)"

definition Parse_RFC3339Nano :: "string \<Rightarrow> time option" where
  "Parse_RFC3339Nano s0 =
     do { (y, s) \<leftarrow> take_num 4 s0; s \<leftarrow> expect (CHR ''-'') s;
          (m, s) \<leftarrow> take_num 2 s; s \<leftarrow> expect (CHR ''-'') s;
          (d, s) \<leftarrow> take_num 2 s; s \<leftarrow> expect (CHR ''T'') s;
          (hh, s) \<leftarrow> getnum s; s \<leftarrow> expect (CHR '':'') s;
          (mm, s) \<leftarrow> take_num 2 s; s \<leftarrow> expect (CHR '':'') s;
          (ss, s) \<leftarrow> take_num 2 s; (ns, s) \<leftarrow> parse_frac s; (off, s) \<leftarrow> parse_zone s;
          if s = [] \<and> 1 \<le> m \<and> m \<le> 12 \<and> 1 \<le> d \<and> d \<le> month_lengths y ! nat (m - 1) \<and>
             hh < 24 \<and> mm < 60 \<and> ss < 60
          then Some ((days_of_civil y m d * 86400 + hh * 3600 + mm * 60 + ss - off) * second + ns)
          else None }"

lemma pad_digits: "\<forall>c \<in> set (pad k n). is_digit c"
proof (induction k arbitrary: n)
  case (Suc k)
  have "is_digit (digit (nat (n mod 10)))"
    using digit_val_digit [of "n mod 10"] by (simp add: is_digit_def)
  then show ?case using Suc by auto
qed simp

lemma parse_digits_zeros:
  "parse_digits (replicate k (CHR ''0'')) acc = Some (10 ^ k * acc)"
  by (induction k arbitrary: acc) (auto simp: digit_val_def)

lemma TrimRight_split: "\<exists>k. s = TrimRight s c @ replicate k c"
proof -
  have "takeWhile (\<lambda>x. x = c) (rev s) = replicate (length (takeWhile (\<lambda>x. x = c) (rev s))) c"
    by (rule replicate_eqI) (auto dest: set_takeWhileD)
  then have "rev s = replicate (length (takeWhile (\<lambda>x. x = c) (rev s))) c @ dropWhile (\<lambda>x. x = c) (rev s)"
    by (metis takeWhile_dropWhile_id)
  then show ?thesis
    unfolding TrimRight_def by (metis rev_append rev_replicate rev_rev_ident)
qed

lemma parse_format_frac:
  assumes "0 \<le> ns" "ns < 10 ^ 9"
  shows "parse_frac (format_frac ns @ ''Z'') = Some (ns, ''Z'')"
proof (cases "ns = 0")
  case False
  define ds where "ds = TrimRight (pad 9 ns) (CHR ''0'')"
  obtain k where k: "pad 9 ns = ds @ replicate k (CHR ''0'')"
    using TrimRight_split unfolding ds_def by blast
  have dig: "\<forall>c \<in> set ds. is_digit c" using pad_digits [of 9 ns] unfolding k by auto
  have len: "length ds + k = 9" using arg_cong [OF k, of length] by (simp del: pad.simps)
  have "Some ns = parse_digits (ds @ replicate k (CHR ''0'')) 0"
    using parse_digits_pad [of ns 9 0] assms k by simp
  then obtain v where v: "parse_digits ds 0 = Some v" "ns = 10 ^ k * v"
    by (auto simp: parse_digits_append parse_digits_zeros split: option.splits)
  have "ds \<noteq> []" using v False by auto
  then obtain d r where d: "ds = d # r" by (cases ds) auto
  have z: "\<not> is_digit (CHR ''Z'')" by (simp add: is_digit_def digit_val_def less_eq_char_def)
  then have "takeWhile is_digit (ds @ ''Z'') = ds" "dropWhile is_digit (ds @ ''Z'') = ''Z''"
    using dig takeWhile_append2 [of ds is_digit "''Z''"] dropWhile_append2 [of ds is_digit "''Z''"] by auto
  moreover have "is_digit d" using dig d by simp
  ultimately show ?thesis
    using False v len unfolding parse_frac_def format_frac_def ds_def [symmetric]
    by (simp add: mult.commute d del: takeWhile.simps dropWhile.simps parse_digits.simps)
qed (simp add: format_frac_def parse_frac_def)

lemma expect_same [simp]: "expect c (c # s) = Some s"
  by simp

lemma clock_split: "0 \<le> s \<Longrightarrow> s div 3600 * 3600 + s div 60 mod 60 * 60 + s mod 60 = (s::int)"
proof -
  have "s div 3600 = s div 60 div 60" by (simp add: div_mult2_eq [symmetric] zdiv_zmult2_eq [symmetric])
  then show ?thesis
    using mult_div_mod_eq [of 60 s] mult_div_mod_eq [of 60 "s div 60"] by linarith
qed

lemma take_num_pad2 [simp]: "0 \<le> n \<Longrightarrow> n < 100 \<Longrightarrow> take_num 2 (pad 2 n @ r) = Some (n, r)"
  by (simp add: take_num_pad)

lemma Parse_fields:
  assumes "0 \<le> y" "y < 10000" "1 \<le> m" "m \<le> 12" "1 \<le> d" "d \<le> month_lengths y ! nat (m - 1)"
    and "0 \<le> hh" "hh < 24" "0 \<le> mm" "mm < 60" "0 \<le> ss" "ss < 60" "0 \<le> ns" "ns < 10 ^ 9"
  shows "Parse_RFC3339Nano (pad 4 y @ ''-'' @ pad 2 m @ ''-'' @ pad 2 d @ ''T'' @ pad 2 hh @ '':'' @
      pad 2 mm @ '':'' @ pad 2 ss @ format_frac ns @ ''Z'') =
    Some ((days_of_civil y m d * 86400 + hh * 3600 + mm * 60 + ss) * second + ns)"
proof -
  have "take_num 4 (pad 4 y @ r) = Some (y, r)" for r :: string
    using assms(1,2) by (simp add: take_num_pad)
  moreover have "d < 100" using month_length_le [of m y] assms(3,4,6) by linarith
  ultimately show ?thesis
    using assms parse_format_frac [of ns]
    by (simp add: Parse_RFC3339Nano_def getnum_def parse_zone_def del: pad.simps)
qed

theorem Parse_Format:
  assumes "civil (t div second div 86400) = (y, m, d)" "0 \<le> y" "y < 10000"
  shows "Parse_RFC3339Nano (Format_RFC3339Nano t) = Some t"
proof -
  define sod where "sod = t div second mod 86400"
  have v: "1 \<le> m" "m \<le> 12" "1 \<le> d" "d \<le> month_lengths y ! nat (m - 1)"
      "days_of_civil y m d = t div second div 86400"
    using civil_valid [OF assms(1)] by auto
  have sod: "0 \<le> sod" "sod < 86400" unfolding sod_def by simp_all
  have fmt: "Format_RFC3339Nano t =
      pad 4 y @ ''-'' @ pad 2 m @ ''-'' @ pad 2 d @ ''T'' @ pad 2 (sod div 3600) @ '':'' @
        pad 2 (sod div 60 mod 60) @ '':'' @ pad 2 (sod mod 60) @ format_frac (t mod second) @ ''Z''"
    using assms by (simp add: Format_RFC3339Nano_def Let_def format_year_def sod_def del: pad.simps)
  have "((t div second div 86400) * 86400 + sod) * second + t mod second = t"
    unfolding sod_def by simp
  then have total: "(days_of_civil y m d * 86400 + sod div 3600 * 3600 + sod div 60 mod 60 * 60 + sod mod 60) * second +
      t mod second = t"
    using clock_split [OF sod(1)] v(5) by (simp add: add.assoc)
  have hms: "0 \<le> sod div 3600" "sod div 3600 < 24" "0 \<le> sod div 60 mod 60" "sod div 60 mod 60 < 60"
      "0 \<le> sod mod 60" "sod mod 60 < 60" "0 \<le> t mod second" "t mod second < 10 ^ 9"
    using sod by (simp_all add: second_def div_less_iff_less_mult)
  show ?thesis
    unfolding fmt Parse_fields [OF assms(2,3) v(1-4) hms] total ..
qed

end
