(* ===== verification/Local_Store.thy ===== *)
theory Local_Store
  imports Posix_FS Go_Time Mem_FS
begin

text \<open>
  \<^verbatim>\<open>internal/storage/storage.go\<close> and \<^verbatim>\<open>tar.go\<close>: the backend that keeps each site as a
  directory below a root.  Every operation is the sequence of file system calls of the source,
  with its early returns, ignored errors and deferred calls; the environment of
  \<^verbatim>\<open>Posix_FS\<close> may let any of the calls fail.
\<close>

section \<open>Paths\<close>

text \<open>
  \<^verbatim>\<open>filepath.Join(dir, s)\<close> for an absolute \<^verbatim>\<open>dir\<close>: the components of \<^verbatim>\<open>s\<close> are
  resolved on top of those of \<^verbatim>\<open>dir\<close>, so a double dot climbs.
\<close>

definition fjoin :: "fpath \<Rightarrow> string \<Rightarrow> fpath" where
  "fjoin dir s = rev (foldl (clean_step True) (rev dir) (Split s slash))"

definition fdir :: "fpath \<Rightarrow> fpath" where
  "fdir p = butlast p"

record store =
  st_root :: fpath
  st_maxSiteBytes :: int

definition New :: "fpath \<Rightarrow> store" where
  "New sitesDir = \<lparr>st_root = sitesDir, st_maxSiteBytes = 0\<rparr>"

definition SetMaxSiteBytes :: "store \<Rightarrow> int \<Rightarrow> store" where
  "SetMaxSiteBytes s n = s\<lparr>st_maxSiteBytes := n\<rparr>"

definition expiryDir :: string where
  "expiryDir = ''.expiries''"

definition Path :: "store \<Rightarrow> string \<Rightarrow> store_err + fpath" where
  "Path s name =
     (case ValidateName name of Some e \<Rightarrow> Inl e | None \<Rightarrow> Inr (fjoin (st_root s) name))"

definition expiryPath :: "store \<Rightarrow> string \<Rightarrow> fpath" where
  "expiryPath s name = fjoin (fjoin (st_root s) expiryDir) name"

section \<open>Looking up and deleting\<close>

text \<open>\<^verbatim>\<open>Open\<close> answers the directory that \<^verbatim>\<open>os.DirFS\<close> is rooted at.\<close>

definition Open :: "env \<Rightarrow> store \<Rightarrow> string \<Rightarrow> world \<Rightarrow> (store_err + fpath) \<times> world" where
  "Open e s name w =
     (case Path s name of
        Inl err \<Rightarrow> (Inl err, w)
      | Inr p \<Rightarrow>
          (case os_Stat e p w of
             (Inl err, w1) \<Rightarrow> (Inl (if err = ErrNotExist then ErrNotFound else err), w1)
           | (Inr n, w1) \<Rightarrow> (Inr p, w1)))"

definition Exists :: "env \<Rightarrow> store \<Rightarrow> string \<Rightarrow> world \<Rightarrow> (store_err + bool) \<times> world" where
  "Exists e s name w =
     (case Path s name of
        Inl err \<Rightarrow> (Inl err, w)
      | Inr p \<Rightarrow>
          (case os_Stat e p w of
             (Inl err, w1) \<Rightarrow> (if err = ErrNotExist then Inr False else Inl err, w1)
           | (Inr n, w1) \<Rightarrow> (Inr True, w1)))"

definition Delete :: "env \<Rightarrow> store \<Rightarrow> string \<Rightarrow> world \<Rightarrow> (store_err + unit) \<times> world" where
  "Delete e s name w =
     (case Path s name of
        Inl err \<Rightarrow> (Inl err, w)
      | Inr p \<Rightarrow>
          (case os_Stat e p w of
             (Inl err, w1) \<Rightarrow> (Inl (if err = ErrNotExist then ErrNotFound else err), w1)
           | (Inr n, w1) \<Rightarrow>
               (case os_RemoveAll e p w1 of
                  (Inl err, w2) \<Rightarrow> (Inl err, w2)
                | (Inr u, w2) \<Rightarrow> (Inr (), snd (os_Remove e (expiryPath s name) w2)))))"

section \<open>Expiry metadata\<close>

text \<open>Write the deadline to the temporary file, close it and rename it into place.\<close>

definition write_expiry :: "env \<Rightarrow> fpath \<Rightarrow> fpath \<Rightarrow> time \<Rightarrow> world \<Rightarrow> (store_err + unit) \<times> world" where
  "write_expiry e tmpName metadata t w =
     (case os_Write e tmpName (Format_RFC3339Nano t) w of
        (Inl err, w1) \<Rightarrow> (Inl err, snd (os_Close e w1))
      | (Inr u, w1) \<Rightarrow>
          (case os_Close e w1 of
             (Inl err, w2) \<Rightarrow> (Inl err, w2)
           | (Inr u, w2) \<Rightarrow> os_Rename e tmpName metadata w2))"

text \<open>The temporary file is removed by a deferred call, whatever happened.\<close>

definition SetExpiry :: "env \<Rightarrow> store \<Rightarrow> string \<Rightarrow> time option \<Rightarrow> world \<Rightarrow> (store_err + unit) \<times> world" where
  "SetExpiry e s name expiresAt w =
     (case Path s name of
        Inl err \<Rightarrow> (Inl err, w)
      | Inr _ \<Rightarrow>
          (let metadata = expiryPath s name
           in case expiresAt of
                None \<Rightarrow>
                  (case os_Remove e metadata w of
                     (Inl err, w1) \<Rightarrow> (if err \<noteq> ErrNotExist then Inl err else Inr (), w1)
                   | (Inr u, w1) \<Rightarrow> (Inr (), w1))
              | Some t \<Rightarrow>
                  (case os_MkdirAll e (fdir metadata) w of
                     (Inl err, w1) \<Rightarrow> (Inl err, w1)
                   | (Inr u, w1) \<Rightarrow>
                       (case os_CreateTemp e (fdir metadata) ''.expiry-'' w1 of
                          (Inl err, w2) \<Rightarrow> (Inl err, w2)
                        | (Inr c, w2) \<Rightarrow>
                            (let tmpName = fdir metadata @ [c];
                                 (r, w3) = write_expiry e tmpName metadata t w2
                             in (r, snd (os_Remove e tmpName w3)))))))"

definition expiry :: "env \<Rightarrow> store \<Rightarrow> string \<Rightarrow> world \<Rightarrow> (store_err + time option) \<times> world" where
  "expiry e s name w =
     (case os_ReadFile e (expiryPath s name) w of
        (Inl err, w1) \<Rightarrow> (if err = ErrNotExist then Inr None else Inl err, w1)
      | (Inr b, w1) \<Rightarrow>
          (case Parse_RFC3339Nano (TrimSpace b) of
             None \<Rightarrow> (Inl (ErrWrap ''parse expiry'' (ErrParseExpiry b)), w1)
           | Some t \<Rightarrow> (Inr (Some t), w1)))"

section \<open>Listing\<close>

text \<open>
  \<^verbatim>\<open>filepath.WalkDir\<close> with a callback that returns the first error: it fails, or it has
  visited every file.
\<close>

definition os_Walk :: "env \<Rightarrow> fpath \<Rightarrow> world \<Rightarrow> (store_err + (fpath \<times> bytes \<times> time) list) \<times> world" where
  "os_Walk e p = sys e (\<lambda>t n.
     (case resolve n p of Inl err \<Rightarrow> Inl err | Inr m \<Rightarrow> Inr (walk_files m), n))"

definition stat_visit :: "int \<times> int \<times> time \<Rightarrow> fpath \<times> bytes \<times> time \<Rightarrow> int \<times> int \<times> time" where
  "stat_visit = (\<lambda>(sz, count, updated) (p, b, m).
     (sz + int (length b), count + 1, if m > updated then m else updated))"

definition Stat :: "env \<Rightarrow> store \<Rightarrow> string \<Rightarrow> world \<Rightarrow> (store_err + site) \<times> world" where
  "Stat e s name w =
     (case Path s name of
        Inl err \<Rightarrow> (Inl err, w)
      | Inr p \<Rightarrow>
          (case os_Stat e p w of
             (Inl err, w1) \<Rightarrow> (Inl (if err = ErrNotExist then ErrNotFound else err), w1)
           | (Inr di, w1) \<Rightarrow>
               (case os_Walk e p w1 of
                  (Inl err, w2) \<Rightarrow> (Inl err, w2)
                | (Inr fs, w2) \<Rightarrow>
                    (let (sz, count, updated) = foldl stat_visit (0, 0, mtime di) fs
                     in case expiry e s name w2 of
                          (Inl err, w3) \<Rightarrow> (Inl err, w3)
                        | (Inr x, w3) \<Rightarrow>
                            (Inr \<lparr>Site_Name = name, Site_UpdatedAt = updated, Site_SizeBytes = sz,
                                  Site_FileCount = count, Site_ExpiresAt = x\<rparr>, w3)))))"

definition is_site_entry :: "string \<times> node \<Rightarrow> bool" where
  "is_site_entry = (\<lambda>(c, n). is_folder n \<and> ValidateName c = None)"

definition Names :: "env \<Rightarrow> store \<Rightarrow> world \<Rightarrow> (store_err + string list) \<times> world" where
  "Names e s w =
     (case os_ReadDir e (st_root s) w of
        (Inl err, w1) \<Rightarrow> (if err = ErrNotExist then Inr [] else Inl err, w1)
      | (Inr es, w1) \<Rightarrow> (Inr (map fst (filter is_site_entry es)), w1))"

fun list_loop :: "env \<Rightarrow> store \<Rightarrow> (string \<times> node) list \<Rightarrow> site list \<Rightarrow> world \<Rightarrow> site list \<times> world" where
  "list_loop e s [] out w = (out, w)"
| "list_loop e s (x # es) out w =
     (if \<not> is_site_entry x then list_loop e s es out w
      else case Stat e s (fst x) w of
        (Inl err, w1) \<Rightarrow> list_loop e s es out w1
      | (Inr info, w1) \<Rightarrow> list_loop e s es (out @ [info]) w1)"

text \<open>\<^verbatim>\<open>sort.Slice\<close> by name; the names are distinct, so any sorting algorithm agrees.\<close>

definition List :: "env \<Rightarrow> store \<Rightarrow> world \<Rightarrow> (store_err + site list) \<times> world" where
  "List e s w =
     (case os_ReadDir e (st_root s) w of
        (Inl err, w1) \<Rightarrow> (if err = ErrNotExist then Inr [] else Inl err, w1)
      | (Inr es, w1) \<Rightarrow>
          (let (out, w2) = list_loop e s es [] w1 in (Inr (sort_key Site_Name out), w2)))"

text \<open>Is the recorded deadline at or before \<^verbatim>\<open>now\<close>?\<close>

definition site_due :: "time \<Rightarrow> site \<Rightarrow> bool" where
  "site_due now x = (case Site_ExpiresAt x of None \<Rightarrow> False | Some t \<Rightarrow> \<not> now < t)"

fun expire_loop :: "env \<Rightarrow> store \<Rightarrow> time \<Rightarrow> site list \<Rightarrow> string list \<Rightarrow> world \<Rightarrow>
    (string list \<times> store_err option) \<times> world" where
  "expire_loop e s now [] deleted w = ((deleted, None), w)"
| "expire_loop e s now (x # xs) deleted w =
     (if \<not> site_due now x then expire_loop e s now xs deleted w
      else case Delete e s (Site_Name x) w of
        (Inl err, w1) \<Rightarrow>
          if is_ErrNotFound err then expire_loop e s now xs (deleted @ [Site_Name x]) w1
          else ((deleted, Some err), w1)
      | (Inr u, w1) \<Rightarrow> expire_loop e s now xs (deleted @ [Site_Name x]) w1)"

text \<open>The two results of the source: the names deleted, and an error or nil.\<close>

definition DeleteExpired :: "env \<Rightarrow> store \<Rightarrow> time \<Rightarrow> world \<Rightarrow> (string list \<times> store_err option) \<times> world" where
  "DeleteExpired e s now w =
     (case List e s w of
        (Inl err, w1) \<Rightarrow> (([], Some err), w1)
      | (Inr sites, w1) \<Rightarrow> expire_loop e s now sites [] w1)"

section \<open>Replacing a site\<close>

text \<open>The body of the extraction loop: the new count of bytes written, or the error.\<close>

definition extract_entry ::
  "env \<Rightarrow> fpath \<Rightarrow> int \<Rightarrow> int \<Rightarrow> tar_entry \<Rightarrow> bool \<Rightarrow> world \<Rightarrow> (store_err + int) \<times> world" where
  "extract_entry e dst limit written hdr broken w =
     (case SafeTarPath (hdr_Name hdr) of
        Inl err \<Rightarrow> (Inl err, w)
      | Inr clean \<Rightarrow>
          (let target = fjoin dst clean
           in if hdr_Typeflag hdr = TypeDir then
                (case os_MkdirAll e target w of
                   (Inl err, w1) \<Rightarrow> (Inl err, w1)
                 | (Inr u, w1) \<Rightarrow> (Inr written, w1))
              else if hdr_Typeflag hdr = TypeReg \<or> hdr_Typeflag hdr = TypeRegA then
                (case os_MkdirAll e (fdir target) w of
                   (Inl err, w1) \<Rightarrow> (Inl err, w1)
                 | (Inr u, w1) \<Rightarrow>
                     (case os_OpenFile e target w1 of
                        (Inl err, w2) \<Rightarrow> (Inl err, w2)
                      | (Inr u, w2) \<Rightarrow>
                          (let (buf, failed) = copy_entry (copy_limit limit written) (hdr_data hdr) broken;
                               written' = written + int (length buf)
                           in case os_Write e target buf w2 of
                                (Inl err, w3) \<Rightarrow> (Inl err, snd (os_Close e w3))
                              | (Inr u, w3) \<Rightarrow>
                                  if failed then (Inl ErrCopy, snd (os_Close e w3))
                                  else if limit > 0 \<and> written' > limit
                                  then (Inl (ErrSiteTooLarge limit), snd (os_Close e w3))
                                  else (case os_Close e w3 of
                                          (Inl err, w4) \<Rightarrow> (Inl err, w4)
                                        | (Inr u, w4) \<Rightarrow> (Inr written', w4)))))
              else (Inr written, w)))"

fun extract_loop :: "env \<Rightarrow> fpath \<Rightarrow> int \<Rightarrow> int \<Rightarrow> tar_stream \<Rightarrow> world \<Rightarrow> (store_err + int) \<times> world" where
  "extract_loop e dst limit written TarEOF w = (Inr written, w)"
| "extract_loop e dst limit written TarErr w = (Inl (ErrWrap ''tar read'' ErrTarRead), w)"
| "extract_loop e dst limit written (TarTrunc hdr) w =
     (case extract_entry e dst limit written hdr True w of
        (Inl err, w1) \<Rightarrow> (Inl err, w1)
      | (Inr n, w1) \<Rightarrow> (Inl (ErrWrap ''tar read'' ErrTarRead), w1))"
| "extract_loop e dst limit written (TarNext hdr ts) w =
     (case extract_entry e dst limit written hdr False w of
        (Inl err, w1) \<Rightarrow> (Inl err, w1)
      | (Inr n, w1) \<Rightarrow> extract_loop e dst limit n ts w1)"

definition extractTar :: "env \<Rightarrow> fpath \<Rightarrow> tar_stream \<Rightarrow> int \<Rightarrow> world \<Rightarrow> (store_err + unit) \<times> world" where
  "extractTar e dst r limit w =
     (case extract_loop e dst limit 0 r w of
        (Inl err, w1) \<Rightarrow> (Inl err, w1) | (Inr n, w1) \<Rightarrow> (Inr (), w1))"

text \<open>\<^verbatim>\<open>p + ".old-" + fmt.Sprintf("%d", ns)\<close>\<close>

definition backup_name :: "string \<Rightarrow> time \<Rightarrow> string" where
  "backup_name name ns = name @ ''.old-'' @ dec_int ns"

definition backup_path :: "fpath \<Rightarrow> time \<Rightarrow> fpath" where
  "backup_path p ns = butlast p @ [backup_name (last p) ns]"

text \<open>Moving the old site aside: the backup path if there was one.\<close>

definition move_aside :: "env \<Rightarrow> fpath \<Rightarrow> world \<Rightarrow> (store_err + fpath option) \<times> world" where
  "move_aside e p w =
     (case os_Stat e p w of
        (Inl err, w1) \<Rightarrow> (Inr None, w1)
      | (Inr n, w1) \<Rightarrow>
          (let (now, w2) = time_Now e w1; backup = backup_path p now
           in case os_Rename e p backup w2 of
                (Inl err, w3) \<Rightarrow> (Inl err, w3)
              | (Inr u, w3) \<Rightarrow> (Inr (Some backup), w3)))"

definition roll_back :: "env \<Rightarrow> fpath option \<Rightarrow> fpath \<Rightarrow> world \<Rightarrow> world" where
  "roll_back e backup p w =
     (case backup of None \<Rightarrow> w | Some b \<Rightarrow> snd (os_Rename e b p w))"

text \<open>After the new tree is in place: record the expiry or undo, drop the backup, report.\<close>

definition commit_site ::
  "env \<Rightarrow> store \<Rightarrow> string \<Rightarrow> fpath \<Rightarrow> fpath option \<Rightarrow> (world \<Rightarrow> (store_err + unit) \<times> world) option \<Rightarrow>
     world \<Rightarrow> (store_err + site) \<times> world" where
  "commit_site e s name p backup afterInstall w =
     (case (case afterInstall of None \<Rightarrow> (Inr (), w) | Some f \<Rightarrow> f w) of
        (Inl err, w1) \<Rightarrow>
          (Inl (ErrWrap ''set expiry'' err), roll_back e backup p (snd (os_RemoveAll e p w1)))
      | (Inr u, w1) \<Rightarrow>
          Stat e s name (case backup of None \<Rightarrow> w1 | Some b \<Rightarrow> snd (os_RemoveAll e b w1)))"

text \<open>Swap the staged tree in.\<close>

definition install_site ::
  "env \<Rightarrow> store \<Rightarrow> string \<Rightarrow> fpath \<Rightarrow> fpath \<Rightarrow> (world \<Rightarrow> (store_err + unit) \<times> world) option \<Rightarrow>
     world \<Rightarrow> (store_err + site) \<times> world" where
  "install_site e s name p stage afterInstall w =
     (case move_aside e p w of
        (Inl err, w1) \<Rightarrow> (Inl (ErrWrap ''rename existing'' err), snd (os_RemoveAll e stage w1))
      | (Inr backup, w1) \<Rightarrow>
          (case os_Rename e stage p w1 of
             (Inl err, w2) \<Rightarrow>
               (Inl (ErrWrap ''install site'' err),
                snd (os_RemoveAll e stage (roll_back e backup p w2)))
           | (Inr u, w2) \<Rightarrow> commit_site e s name p backup afterInstall w2))"

definition replaceFromTar ::
  "env \<Rightarrow> store \<Rightarrow> string \<Rightarrow> tar_stream \<Rightarrow> (world \<Rightarrow> (store_err + unit) \<times> world) option \<Rightarrow>
     world \<Rightarrow> (store_err + site) \<times> world" where
  "replaceFromTar e s name r afterInstall w =
     (case Path s name of
        Inl err \<Rightarrow> (Inl err, w)
      | Inr p \<Rightarrow>
          (case os_MkdirTemp e (st_root s) (''.'' @ name @ ''.stage-'') w of
             (Inl err, w1) \<Rightarrow> (Inl (ErrWrap ''stage dir'' err), w1)
           | (Inr c, w1) \<Rightarrow>
               (let stage = st_root s @ [c]
                in case extractTar e stage r (st_maxSiteBytes s) w1 of
                     (Inl err, w2) \<Rightarrow> (Inl err, snd (os_RemoveAll e stage w2))
                   | (Inr u, w2) \<Rightarrow> install_site e s name p stage afterInstall w2)))"

definition ReplaceFromTar :: "env \<Rightarrow> store \<Rightarrow> string \<Rightarrow> tar_stream \<Rightarrow> world \<Rightarrow> (store_err + site) \<times> world" where
  "ReplaceFromTar e s name r = replaceFromTar e s name r None"

text \<open>The deadline is measured from the moment after the new tree is installed.\<close>

definition set_deadline :: "env \<Rightarrow> store \<Rightarrow> string \<Rightarrow> duration option \<Rightarrow> world \<Rightarrow> (store_err + unit) \<times> world" where
  "set_deadline e s name dur w =
     (case dur of
        None \<Rightarrow> SetExpiry e s name None w
      | Some d \<Rightarrow> let (now, w1) = time_Now e w in SetExpiry e s name (Some (now + d)) w1)"

definition ReplaceFromTarWithExpiry ::
  "env \<Rightarrow> store \<Rightarrow> string \<Rightarrow> tar_stream \<Rightarrow> duration option \<Rightarrow> world \<Rightarrow> (store_err + site) \<times> world" where
  "ReplaceFromTarWithExpiry e s name r dur =
     replaceFromTar e s name r (Some (set_deadline e s name dur))"

section \<open>Writing a directory as an archive\<close>

text \<open>
  The walk of \<^verbatim>\<open>tar.go\<close>: directories in lexical order, each before its contents, with a
  slash after its name; the root itself is left out.
\<close>

fun dir_entries :: "string \<Rightarrow> node \<Rightarrow> tar_entry list" where
  "dir_entries pre (File b m) = []"
| "dir_entries pre (Folder m es) =
     concat (map (\<lambda>(c, n).
       (case n of
          File b m' \<Rightarrow> [\<lparr>hdr_Name = pre @ c, hdr_Typeflag = TypeReg, hdr_data = b\<rparr>]
        | Folder m' es' \<Rightarrow>
            \<lparr>hdr_Name = TrimRight (pre @ c) slash @ ''/'', hdr_Typeflag = TypeDir, hdr_data = []\<rparr>
              # dir_entries (pre @ c @ ''/'') n)) (sort_key fst es))"

fun stream_of :: "tar_entry list \<Rightarrow> tar_stream" where
  "stream_of [] = TarEOF"
| "stream_of (x # xs) = TarNext x (stream_of xs)"

definition WriteDirAsTar :: "env \<Rightarrow> fpath \<Rightarrow> world \<Rightarrow> (store_err + tar_stream) \<times> world" where
  "WriteDirAsTar e src w =
     (case os_Stat e src w of
        (Inl err, w1) \<Rightarrow> (Inl err, w1)
      | (Inr (File b m), w1) \<Rightarrow> (Inl (ErrOS ''source is not a directory''), w1)
      | (Inr (Folder m es), w1) \<Rightarrow>
          sys e (\<lambda>t n. (case resolve n src of
                          Inl err \<Rightarrow> Inl err | Inr d \<Rightarrow> Inr (stream_of (dir_entries [] d)), n)) w1)"

end
