(* ===== verification/Local_Extract.thy ===== *)
theory Local_Extract
  imports Local_Store
begin

text \<open>
  What extraction into a staging directory does: it touches nothing outside that directory,
  whatever the archive holds and whichever calls fail, and when it succeeds the directory holds
  exactly the files of the archive, each with the contents of its last entry.
\<close>

section \<open>Joined paths\<close>

lemma fjoin_ordinary [simp]: "ordinary c \<Longrightarrow> fjoin dir c = dir @ [c]"
  by (simp add: fjoin_def ordinary_def Split_word clean_step_def)

lemma Path_ok: "Path s name = Inr p \<longleftrightarrow> nameRE name \<and> p = st_root s @ [name]"
  using nameRE_ordinary [of name] by (auto simp: Path_def ValidateName_def)

lemma Path_err: "Path s name = Inl err \<longleftrightarrow> \<not> nameRE name \<and> err = ErrInvalidName name"
  by (auto simp: Path_def ValidateName_def)

lemma expiryPath_eq: "nameRE name \<Longrightarrow> expiryPath s name = st_root s @ [''.expiries'', name]"
proof -
  have "ordinary ''.expiries''" by (simp add: ordinary_def)
  then show "nameRE name \<Longrightarrow> ?thesis"
    using nameRE_ordinary [of name] by (simp add: expiryPath_def expiryDir_def)
qed

text \<open>The target of a safe entry lies below the destination.\<close>

definition entry_comps :: "tar_entry \<Rightarrow> string list" where
  "entry_comps hdr = clean_comps False (hdr_Name hdr)"

lemma fjoin_safe:
  assumes "SafeTarPath (hdr_Name hdr) = Inr clean"
  shows "fjoin dst clean = dst @ entry_comps hdr"
proof -
  let ?cs = "clean_comps False (hdr_Name hdr)"
  have ord: "\<forall>c \<in> set ?cs. ordinary c"
    and shape: "clean = ''.'' \<and> ?cs = [] \<or> clean = Join ?cs ''/'' \<and> ?cs \<noteq> []"
    using SafeTarPath_comps [OF assms] by blast+
  show ?thesis
  proof (cases "?cs = []")
    case True
    then show ?thesis using shape by (simp add: fjoin_def clean_step_def entry_comps_def)
  next
    case False
    then have "Split clean slash = ?cs"
      using shape ord Split_Join [of ?cs slash] by (auto simp: ordinary_def)
    then show ?thesis
      using ord by (simp add: fjoin_def foldl_clean_ordinary entry_comps_def)
  qed
qed

section \<open>Containment\<close>

definition is_dir :: "node \<Rightarrow> fpath \<Rightarrow> bool" where
  "is_dir n p \<longleftrightarrow> (\<exists>m es. lookup n p = Some (Folder m es))"

lemma same_except_is_dir: "same_except R C n n' \<Longrightarrow> is_dir n R \<Longrightarrow> is_dir n' R"
  by (simp add: same_except_def is_dir_def)

lemma os_MkdirAll_same:
  assumes "is_dir (w_fs w) R"
  shows "same_except R C (w_fs w) (w_fs (snd (os_MkdirAll e R w)))"
  unfolding os_MkdirAll_def
proof (cases "env_fault e (w_tick w)")
  case False
  obtain m es where R: "lookup (w_fs w) R = Some (Folder m es)" using assms by (auto simp: is_dir_def)
  have "same_except R C (w_fs w) n'" if "mkdir_all t R (w_fs w) = Inr n'" for t n'
  proof -
    have "lookup n' R = Some (Folder m es)"
      using mkdir_all_below [of t R "[]" "w_fs w" n' "Folder m es"] that R by simp
    then show ?thesis using R by (simp add: same_except_def lookup_append)
  qed
  then show "same_except R C (w_fs w) (w_fs (snd (sys e (\<lambda>t n. case mkdir_all t R n of
      Inl err \<Rightarrow> (Inl err, n) | Inr n' \<Rightarrow> (Inr (), n')) w)))"
    by (auto simp: sys_def Let_def split: sum.splits)
qed (simp add: sys_def)

lemma extract_mkdir_frame:
  assumes "is_dir (w_fs w) R"
  shows "same_except R {c} (w_fs w) (w_fs (snd (os_MkdirAll e (fdir (R @ c # cs)) w)))"
proof (cases "cs = []")
  case True
  then show ?thesis using os_MkdirAll_same [OF assms] by (simp add: fdir_def)
next
  case False
  then show ?thesis using os_MkdirAll_frame [of R c w e "butlast cs"] by (simp add: fdir_def butlast_append)
qed

lemma extract_entry_frame:
  assumes "is_dir (w_fs w) R"
  shows "same_except R {c} (w_fs w) (w_fs (snd (extract_entry e (R @ [c]) limit written hdr broken w)))"
proof (cases "SafeTarPath (hdr_Name hdr)")
  case (Inr clean)
  define cs where "cs = entry_comps hdr"
  have tgt: "fjoin (R @ [c]) clean = R @ c # cs"
    using fjoin_safe [OF Inr] by (simp add: cs_def)
  obtain buf failed where cp: "copy_entry (copy_limit limit written) (hdr_data hdr) broken = (buf, failed)"
    by (cases "copy_entry (copy_limit limit written) (hdr_data hdr) broken")
  show ?thesis
    unfolding extract_entry_def Inr sum.case Let_def tgt cp prod.case
    by (intro frame extract_mkdir_frame assms same_except_refl) simp_all
qed (simp add: extract_entry_def)

lemma extract_loop_frame:
  assumes "is_dir (w_fs w) R"
  shows "same_except R {c} (w_fs w) (w_fs (snd (extract_loop e (R @ [c]) limit written ts w)))"
  using assms
proof (induction ts arbitrary: w written)
  case (TarTrunc hdr)
  then show ?case
    using extract_entry_frame [of w R c e limit written hdr True] by (auto split: sum.splits prod.splits)
next
  case (TarNext hdr ts)
  obtain r w1 where entry: "extract_entry e (R @ [c]) limit written hdr False w = (r, w1)"
    by (cases "extract_entry e (R @ [c]) limit written hdr False w")
  have step: "same_except R {c} (w_fs w) (w_fs w1)"
    using extract_entry_frame [OF TarNext.prems, of c e limit written hdr False] entry by simp
  have "same_except R {c} (w_fs w1) (w_fs (snd (extract_loop e (R @ [c]) limit n ts w1)))" for n
    using TarNext.IH same_except_is_dir [OF step TarNext.prems] by blast
  then show ?case
    using step entry same_except_trans [OF step] by (cases r) simp_all
qed simp_all

lemma extractTar_frame:
  assumes "is_dir (w_fs w) R"
  shows "same_except R {c} (w_fs w) (w_fs (snd (extractTar e (R @ [c]) r limit w)))"
  using extract_loop_frame [OF assms, of c e limit 0 r]
  by (auto simp: extractTar_def split: sum.splits prod.splits)

section \<open>Contents\<close>

definition file_at :: "node \<Rightarrow> fpath \<Rightarrow> bytes option" where
  "file_at n p = (case lookup n p of Some (File b m) \<Rightarrow> Some b | _ \<Rightarrow> None)"

lemma mkdir_all_file_at: "mkdir_all t ps n = Inr n' \<Longrightarrow> file_at n' q = file_at n q"
proof (induction t ps n arbitrary: n' q rule: mkdir_all.induct)
  case (3 t c cs m es)
  define k where "k = (case map_of es c of None \<Rightarrow> Folder t [] | Some n \<Rightarrow> n)"
  obtain k' where k': "mkdir_all t cs k = Inr k'"
      "n' = Folder (if map_of es c = None then t else m) (ent_put c (Some k') es)"
    using 3 by (auto simp: k_def split: sum.splits)
  then have IH: "file_at k' r = file_at k r" for r
    using 3 by (simp add: k_def)
  show ?case
  proof (cases q)
    case (Cons d ds)
    have "file_at (Folder t []) ds = None" by (cases ds) (simp_all add: file_at_def)
    then show ?thesis
      using IH [of ds] Cons k'(2) by (auto simp: file_at_def k_def split: option.splits)
  qed (simp add: file_at_def k'(2))
qed auto

lemma put_file_at:
  assumes "lookup n ps = Some (Folder m es)" "\<not> is_dir n (ps @ [c])"
  shows "file_at (put t (ps @ [c]) (Some (File b s)) n) q = (if q = ps @ [c] then Some b else file_at n q)"
  using assms
proof (induction ps arbitrary: n q)
  case Nil
  have "file_at n (c # d # ds) = None" for d ds
    using Nil by (auto simp: file_at_def is_dir_def split: option.splits node.splits) (metis lookup.simps(2) node.exhaust option.distinct(1))
  moreover have "file_at (File b s) ds = None" if "ds \<noteq> []" for ds
    using that by (cases ds) (auto simp: file_at_def)
  ultimately show ?case
    using Nil by (cases q) (auto simp: file_at_def neq_Nil_conv)
next
  case (Cons p ps)
  obtain m' es' k where n: "n = Folder m' es'" and k: "map_of es' p = Some k" "lookup k ps = Some (Folder m es)"
    using Cons.prems(1) by (cases n) (auto split: option.splits)
  moreover have "\<not> is_dir k (ps @ [c])"
    using Cons.prems(2) n k by (simp add: is_dir_def)
  ultimately have IH: "file_at (put t (ps @ [c]) (Some (File b s)) k) r = (if r = ps @ [c] then Some b else file_at k r)" for r
    using Cons.IH by blast
  show ?case
    using n k IH by (cases q) (auto simp: file_at_def)
qed

text \<open>Directories stay directories.\<close>

lemma mkdir_all_is_dir: "mkdir_all t ps n = Inr n' \<Longrightarrow> is_dir n q \<Longrightarrow> is_dir n' q"
proof (induction t ps n arbitrary: n' q rule: mkdir_all.induct)
  case (3 t c cs m es)
  then show ?case
    by (cases q) (auto simp: is_dir_def split: sum.splits option.splits)
qed auto

lemma put_file_is_dir:
  assumes "is_dir n q" "\<not> is_dir n (ps @ [c])"
  shows "is_dir (put t (ps @ [c]) (Some (File b s)) n) q"
  using assms
proof (induction ps arbitrary: n q)
  case Nil
  obtain m es where "n = Folder m es"
    using Nil.prems(1) by (cases n; cases q) (auto simp: is_dir_def)
  moreover have "\<not> is_dir n (c # ds)" for ds
  proof (cases "map_of es c")
    case (Some k)
    then show ?thesis
      using Nil.prems(2) \<open>n = Folder m es\<close> by (cases k; cases ds) (auto simp: is_dir_def)
  qed (use \<open>n = Folder m es\<close> in \<open>simp add: is_dir_def\<close>)
  ultimately show ?case
    using Nil.prems(1) by (cases q) (auto simp: is_dir_def split: option.splits)
next
  case (Cons p ps)
  show ?case
  proof (cases n)
    case (Folder m es)
    then show ?thesis
      using Cons by (cases q) (auto simp: is_dir_def split: option.splits)
  qed (use Cons.prems in \<open>simp add: is_dir_def\<close>)
qed

lemma os_MkdirAll_ok_file_at:
  "os_MkdirAll e p w = (Inr u, w') \<Longrightarrow>
    file_at (w_fs w') q = file_at (w_fs w) q \<and> (is_dir (w_fs w) q \<longrightarrow> is_dir (w_fs w') q)"
  unfolding os_MkdirAll_def
  by (drule sys_ok) (auto split: sum.splits dest: mkdir_all_file_at mkdir_all_is_dir)

lemma os_Close_ok_fs: "os_Close e w = (r, w') \<Longrightarrow> w_fs w' = w_fs w"
  using os_Close_fs [of e w] by simp

text \<open>Opening for writing and writing: the one file changes, all else stays.\<close>

lemma open_write_file_at:
  assumes "os_OpenFile e p w = (Inr u, w1)" "os_Write e p d w1 = (Inr v, w2)"
  shows "file_at (w_fs w2) q = (if q = p then Some d else file_at (w_fs w) q) \<and>
    (is_dir (w_fs w) q \<longrightarrow> is_dir (w_fs w2) q)"
proof -
  let ?t = "env_now e (w_tick w)"
  have create: "fs_create ?t p (w_fs w) = (Inr u, w_fs w1)"
    using sys_ok [OF assms(1) [unfolded os_OpenFile_def]] by simp
  obtain m es where par: "lookup (w_fs w) (butlast p) = Some (Folder m es)"
    using create by (auto simp: fs_create_def resolve_lookup split: sum.splits node.splits)
  have new: "\<not> is_dir (w_fs w) p" and w1: "w_fs w1 = put ?t p (Some (File [] ?t)) (w_fs w)"
    using create by (auto simp: fs_create_def is_dir_def split: sum.splits node.splits option.splits)
  have "p \<noteq> []" using par new by (auto simp: is_dir_def)
  then have p: "p = butlast p @ [last p]" by simp
  obtain m' es' where par': "lookup (w_fs w1) (butlast p) = Some (Folder m' es')"
    using put_parent [OF par, of ?t "last p"] p w1 by fastforce
  have "lookup (w_fs w1) p = Some (File [] ?t)"
    using put_lookup_same [OF par, of ?t "last p"] p w1 by simp
  then have new': "\<not> is_dir (w_fs w1) p" by (simp add: is_dir_def)
  have w2: "w_fs w2 = put (env_now e (w_tick w1)) p (Some (File d (env_now e (w_tick w1)))) (w_fs w1)"
    using assms(2) by (auto simp: os_Write_def Let_def split: if_splits)
  show ?thesis
    using put_file_at [OF par', of "last p"] put_file_at [OF par, of "last p"] new new' p w1 w2
      put_file_is_dir [of _ q "butlast p" "last p"] by simp
qed

definition is_regular :: "tar_entry \<Rightarrow> bool" where
  "is_regular hdr \<longleftrightarrow> hdr_Typeflag hdr = TypeReg \<or> hdr_Typeflag hdr = TypeRegA"

text \<open>A successful step of the loop.\<close>

lemma extract_entry_ok:
  assumes "extract_entry e dst limit written hdr broken w = (Inr k, w')"
    and "0 < limit \<longrightarrow> 0 \<le> written \<and> written \<le> limit" "limit < 2 ^ 63 - 1"
  shows "(0 < limit \<longrightarrow> 0 \<le> k \<and> k \<le> limit) \<and>
    (\<forall>q. file_at (w_fs w') q =
       (if is_regular hdr \<and> q = dst @ entry_comps hdr then Some (hdr_data hdr) else file_at (w_fs w) q) \<and>
       (is_dir (w_fs w) q \<longrightarrow> is_dir (w_fs w') q))"
proof -
  obtain clean where safe: "SafeTarPath (hdr_Name hdr) = Inr clean"
    using assms(1) by (auto simp: extract_entry_def split: sum.splits)
  note tgt = fjoin_safe [OF safe, of dst]
  show ?thesis
  proof (cases "is_regular hdr")
    case False
    then show ?thesis
      using assms safe tgt os_MkdirAll_ok_file_at
      by (auto simp: extract_entry_def is_regular_def Let_def split: if_splits prod.splits sum.splits)
  next
    case True
    then have reg: "hdr_Typeflag hdr \<noteq> TypeDir" by (auto simp: is_regular_def)
    obtain buf failed where cp: "copy_entry (copy_limit limit written) (hdr_data hdr) broken = (buf, failed)"
      by (cases "copy_entry (copy_limit limit written) (hdr_data hdr) broken")
    let ?tgt = "dst @ entry_comps hdr"
    obtain u1 w1 where mk: "os_MkdirAll e (fdir ?tgt) w = (Inr u1, w1)"
      and r1: "(case os_OpenFile e ?tgt w1 of (Inl err, w2) \<Rightarrow> (Inl err, w2)
         | (Inr u, w2) \<Rightarrow> (case os_Write e ?tgt buf w2 of
             (Inl err, w3) \<Rightarrow> (Inl err, snd (os_Close e w3))
           | (Inr u, w3) \<Rightarrow> if failed then (Inl ErrCopy, snd (os_Close e w3))
               else if limit > 0 \<and> written + int (length buf) > limit
               then (Inl (ErrSiteTooLarge limit), snd (os_Close e w3))
               else (case os_Close e w3 of (Inl err, w4) \<Rightarrow> (Inl err, w4)
                     | (Inr u, w4) \<Rightarrow> (Inr (written + int (length buf)), w4)))) = (Inr k, w')"
      using assms(1) True reg
      unfolding extract_entry_def safe sum.case Let_def tgt cp prod.case is_regular_def
      by (auto dest!: io_ok)
    obtain u2 w2 where op: "os_OpenFile e ?tgt w1 = (Inr u2, w2)"
      and r2: "(case os_Write e ?tgt buf w2 of
             (Inl err, w3) \<Rightarrow> (Inl err, snd (os_Close e w3))
           | (Inr u, w3) \<Rightarrow> if failed then (Inl ErrCopy, snd (os_Close e w3))
               else if limit > 0 \<and> written + int (length buf) > limit
               then (Inl (ErrSiteTooLarge limit), snd (os_Close e w3))
               else (case os_Close e w3 of (Inl err, w4) \<Rightarrow> (Inl err, w4)
                     | (Inr u, w4) \<Rightarrow> (Inr (written + int (length buf)), w4))) = (Inr k, w')"
      using io_ok [OF r1] by auto
    obtain u3 w3 where wr: "os_Write e ?tgt buf w2 = (Inr u3, w3)"
      and fin: "\<not> failed" "\<not> (0 < limit \<and> limit < written + int (length buf))"
        "k = written + int (length buf)" "w_fs w' = w_fs w3"
      using io_ok [OF r2] by (auto dest: os_Close_ok_fs split: if_splits prod.splits sum.splits)
    note run = mk op wr fin(4)
    have "buf = hdr_data hdr"
      using cp fin copy_entry_fits [OF assms(2,3), of "hdr_data hdr" broken] assms(2)
      by (auto split: if_splits)
    then show ?thesis
      using True run fin assms(2) os_MkdirAll_ok_file_at [OF run(1)] open_write_file_at [OF run(2,3)] by auto
  qed
qed

text \<open>The contents an archive gives to a path: those of the last regular entry with that path.\<close>

fun last_data :: "tar_entry list \<Rightarrow> string list \<Rightarrow> bytes option" where
  "last_data [] cs = None"
| "last_data (hdr # hs) cs =
     (case last_data hs cs of
        Some d \<Rightarrow> Some d
      | None \<Rightarrow> if is_regular hdr \<and> entry_comps hdr = cs then Some (hdr_data hdr) else None)"

lemma extract_loop_content:
  assumes "extract_loop e dst limit written ts w = (Inr k, w')"
    and "0 < limit \<longrightarrow> 0 \<le> written \<and> written \<le> limit" "limit < 2 ^ 63 - 1"
  shows "file_at (w_fs w') (dst @ cs) =
    (case last_data (stream_entries ts) cs of Some d \<Rightarrow> Some d | None \<Rightarrow> file_at (w_fs w) (dst @ cs)) \<and>
    (is_dir (w_fs w) q \<longrightarrow> is_dir (w_fs w') q)"
  using assms
proof (induction ts arbitrary: w written)
  case (TarNext hdr ts)
  obtain n w1 where entry: "extract_entry e dst limit written hdr False w = (Inr n, w1)"
      and rest: "extract_loop e dst limit n ts w1 = (Inr k, w')"
    using TarNext.prems(1) by (auto split: prod.splits sum.splits)
  note ok = extract_entry_ok [OF entry TarNext.prems(2,3)]
  show ?case
    using TarNext.IH [OF rest] ok TarNext.prems(3) by (auto split: option.splits)
qed (auto split: prod.splits sum.splits)

lemma extractTar_content:
  assumes "extractTar e dst r limit w = (Inr u, w')" "limit < 2 ^ 63 - 1"
    and "lookup (w_fs w) dst = Some (Folder m [])"
  shows "file_at (w_fs w') (dst @ cs) = last_data (stream_entries r) cs \<and> is_dir (w_fs w') dst"
proof -
  obtain k where "extract_loop e dst limit 0 r w = (Inr k, w')"
    using assms(1) by (auto simp: extractTar_def split: prod.splits sum.splits)
  moreover have "file_at (w_fs w) (dst @ cs) = None"
    using assms(3) by (cases cs) (simp_all add: file_at_def lookup_append)
  moreover have "is_dir (w_fs w) dst" using assms(3) by (simp add: is_dir_def)
  ultimately show ?thesis
    using extract_loop_content [of e dst limit 0 r w k w' cs dst] assms(2) by (auto split: option.splits)
qed

end
