(* ===== verification/Local_Replace.thy ===== *)
theory Local_Replace
  imports Local_Extract
begin

text \<open>
  Replacing a site on disk: whatever fails, the old site survives (in place or under its backup
  name) or the new one is completely installed; and expiry metadata: what is recorded is what is
  read back, and the expiry sweep removes what is due and nothing else.
\<close>

section \<open>Frames of the operations\<close>

lemma frame_temp [frame]:
  assumes "same_except R C n0 (w_fs w)" "c \<in> C"
  shows "same_except R C n0 (w_fs (snd (os_CreateTemp e (R @ c # qs) pattern w)))"
proof -
  have "same_except R {c} n (snd (fs_temp new ss t (R @ c # qs) pattern n))" for new ss t n
    using fs_temp_frame [of new ss t "R @ c # qs" pattern n] put_same_except [of R c] by auto
  then have "same_except R {c} (w_fs w) (w_fs (snd (os_CreateTemp e (R @ c # qs) pattern w)))"
    unfolding os_CreateTemp_def by (intro sys_fs)
  then show ?thesis by (rule frame_step) (use assms in auto)
qed

lemma os_Walk_fs: "os_Walk e p w = (r, w1) \<Longrightarrow> w_fs w1 = w_fs w"
  by (auto simp: os_Walk_def sys_def split: if_splits)

lemma expiry_fs: "expiry e s name w = (r, w1) \<Longrightarrow> w_fs w1 = w_fs w"
  by (auto simp: expiry_def dest: reads_fs split: prod.splits sum.splits option.splits if_splits)

lemma Stat_fs: "Stat e s name w = (r, w1) \<Longrightarrow> w_fs w1 = w_fs w"
  by (auto simp: Stat_def Let_def dest!: reads_fs os_Walk_fs expiry_fs split: prod.splits sum.splits)

lemma Stat_fs_snd [simp]: "w_fs (snd (Stat e s name w)) = w_fs w"
  by (metis Stat_fs prod.collapse)

lemma frame_SetExpiry [frame]:
  assumes "same_except (st_root s) C n0 (w_fs w)" and "''.expiries'' \<in> C"
  shows "same_except (st_root s) C n0 (w_fs (snd (SetExpiry e s name x w)))"
proof (cases "Path s name")
  case (Inr p)
  then have md: "expiryPath s name = st_root s @ ''.expiries'' # [name]"
      "fdir (expiryPath s name) = st_root s @ ''.expiries'' # []"
    by (simp_all add: Path_ok expiryPath_eq fdir_def butlast_append)
  show ?thesis
  proof (cases x)
    case None
    show ?thesis
      unfolding SetExpiry_def Inr None sum.case option.case md Let_def
      by (intro frame assms)
  next
    case (Some t)
    show ?thesis
      unfolding SetExpiry_def write_expiry_def Inr Some sum.case option.case Let_def md(2)
      unfolding md(1) append.assoc append.simps
      by (intro frame assms)
  qed
qed (simp add: SetExpiry_def assms)

lemma frame_set_deadline [frame]:
  assumes "same_except (st_root s) C n0 (w_fs w)" and "''.expiries'' \<in> C"
  shows "same_except (st_root s) C n0 (w_fs (snd (set_deadline e s name dur w)))"
  using assms
  by (cases dur) (auto simp: set_deadline_def time_Now_def intro: frame_SetExpiry)

section \<open>Expiry metadata\<close>

lemma TrimSpace_id:
  "s \<noteq> [] \<Longrightarrow> \<not> is_space (hd s) \<Longrightarrow> \<not> is_space (last s) \<Longrightarrow> TrimSpace s = s"
proof -
  assume "s \<noteq> []" "\<not> is_space (hd s)" "\<not> is_space (last s)"
  then have "dropWhile is_space s = s" "dropWhile is_space (rev s) = rev s"
    by (cases s, auto) (cases s rule: rev_cases, auto)
  then show ?thesis by (simp add: TrimSpace_def)
qed

definition year_ok :: "time \<Rightarrow> bool" where
  "year_ok t \<longleftrightarrow> 0 \<le> fst (civil (t div second div 86400)) \<and> fst (civil (t div second div 86400)) < 10000"

lemma TrimSpace_Format:
  assumes "year_ok t"
  shows "TrimSpace (Format_RFC3339Nano t) = Format_RFC3339Nano t"
proof -
  obtain y m d where c: "civil (t div second div 86400) = (y, m, d)" by (metis prod.exhaust)
  then have y: "0 \<le> y" "y < 10000" using assms by (simp_all add: year_ok_def)
  let ?s = "Format_RFC3339Nano t"
  have fmt: "\<exists>r. ?s = pad 4 y @ r @ ''Z''"
    using c y by (simp add: Format_RFC3339Nano_def Let_def format_year_def del: pad.simps)
  have "pad 4 y \<noteq> []" by (metis length_pad list.size(3) zero_neq_numeral)
  then have "hd ?s \<in> set (pad 4 y)" using fmt by fastforce
  then have "is_digit (hd ?s)" using pad_digits by blast
  then have "\<not> is_space (hd ?s)"
    by (auto simp: is_digit_def digit_val_def is_space_def less_eq_char_def split: if_splits)
  moreover have "last ?s = CHR ''Z''" "?s \<noteq> []" using fmt by auto
  ultimately show ?thesis by (intro TrimSpace_id) (auto simp: is_space_def)
qed

lemma Parse_TrimSpace_Format:
  assumes "year_ok t"
  shows "Parse_RFC3339Nano (TrimSpace (Format_RFC3339Nano t)) = Some t"
proof -
  obtain y m d where "civil (t div second div 86400) = (y, m, d)" by (metis prod.exhaust)
  then show ?thesis
    using assms Parse_Format [of t y m d] TrimSpace_Format [OF assms] by (simp add: year_ok_def)
qed

text \<open>What \<^const>\<open>expiry\<close> will read at a site's metadata path.\<close>

definition recorded :: "node \<Rightarrow> fpath \<Rightarrow> time option \<Rightarrow> bool" where
  "recorded n p x =
     (case x of None \<Rightarrow> resolve n p = Inl ErrNotExist | Some t \<Rightarrow> file_at n p = Some (Format_RFC3339Nano t))"

lemma expiry_recorded:
  assumes "recorded (w_fs w) (expiryPath s name) x" "\<forall>t. x = Some t \<longrightarrow> year_ok t"
    and "expiry e s name w = (Inr y, w')"
  shows "y = x"
proof (cases x)
  case None
  then show ?thesis
    using assms by (auto simp: recorded_def expiry_def os_ReadFile_def sys_def split: if_splits option.splits)
next
  case (Some t)
  then obtain m where "resolve (w_fs w) (expiryPath s name) = Inr (File (Format_RFC3339Nano t) m)"
    using assms(1) by (auto simp: recorded_def file_at_def resolve_lookup split: option.splits node.splits)
  then show ?thesis
    using assms Some Parse_TrimSpace_Format [of t]
    by (auto simp: expiry_def os_ReadFile_def sys_def split: if_splits option.splits)
qed

lemma resolve_snoc_NotExist:
  "lookup n ps = Some (Folder m es) \<Longrightarrow> lookup n (ps @ [c]) = None \<Longrightarrow> resolve n (ps @ [c]) = Inl ErrNotExist"
proof (induction n ps rule: lookup.induct)
  case (3 m' es' d ds)
  then show ?case by (auto split: option.splits)
qed (auto split: option.splits)

lemma os_Remove_gone:
  assumes "os_Remove e (ps @ [c]) w = (r, w')" "r = Inr () \<or> r = Inl ErrNotExist"
  shows "resolve (w_fs w') (ps @ [c]) = Inl ErrNotExist"
proof -
  let ?t = "env_now e (w_tick w)"
  have run: "fs_remove ?t (ps @ [c]) (w_fs w) = (r, w_fs w')"
    using assms by (auto simp: os_Remove_def sys_def Let_def split: if_splits prod.splits)
  show ?thesis
  proof (cases "resolve (w_fs w) (ps @ [c])")
    case (Inl err)
    then show ?thesis using run assms(2) by (auto simp: fs_remove_def)
  next
    case (Inr m)
    then have "lookup (w_fs w) (ps @ [c]) = Some m" by (simp add: resolve_lookup)
    then obtain s es where par: "lookup (w_fs w) ps = Some (Folder s es)"
      by (auto simp: lookup_append split: option.splits) (metis lookup.simps(2) node.exhaust option.distinct(1))
    have "w_fs w' = put ?t (ps @ [c]) None (w_fs w)"
      using run assms(2) Inr by (auto simp: fs_remove_def split: node.splits if_splits)
    then show ?thesis
      using put_lookup_same [OF par] put_parent [OF par] resolve_snoc_NotExist by metis
  qed
qed

lemma put_keep:
  "lookup n ps = Some (Folder m es) \<Longrightarrow> c \<noteq> d \<Longrightarrow> lookup (put t (ps @ [c]) v n) (ps @ [d]) = lookup n (ps @ [d])"
  using put_lookup_other [of c d t ps "[]" v n "[]"] by simp

lemma os_Remove_other:
  "c \<noteq> d \<Longrightarrow> lookup (w_fs (snd (os_Remove e (ps @ [c]) w))) (ps @ [d]) = lookup (w_fs w) (ps @ [d])"
  using os_Remove_frame [of ps c w e "[]"] same_except_entry [of ps "{c}"] by simp

text \<open>A successful \<^const>\<open>SetExpiry\<close> has recorded the deadline.\<close>

lemma SetExpiry_records:
  assumes "SetExpiry e s name x w = (Inr u, w')" "nameRE name"
  shows "recorded (w_fs w') (expiryPath s name) x"
proof -
  let ?D = "st_root s @ [''.expiries'']"
  have path: "Path s name = Inr (st_root s @ [name])" using assms(2) by (simp add: Path_ok)
  have md: "expiryPath s name = ?D @ [name]" "fdir (?D @ [name]) = ?D"
    using assms(2) by (simp_all add: expiryPath_eq fdir_def butlast_append)
  show ?thesis
  proof (cases x)
    case None
    then have "\<exists>r. os_Remove e (?D @ [name]) w = (r, w') \<and> (r = Inr () \<or> r = Inl ErrNotExist)"
      using assms(1) unfolding SetExpiry_def path md sum.case Let_def
      by (auto split: prod.splits sum.splits if_splits)
    then show ?thesis
      using os_Remove_gone [of e ?D name w _ w'] None md by (auto simp: recorded_def)
  next
    case (Some t)
    obtain w1 c w2 r w3 where tmp: "os_CreateTemp e ?D ''.expiry-'' w1 = (Inr c, w2)"
        and we: "write_expiry e (?D @ [c]) (?D @ [name]) t w2 = (r, w3)" "r = Inr ()"
        and w': "w' = snd (os_Remove e (?D @ [c]) w3)"
      using assms(1) unfolding SetExpiry_def path md sum.case Let_def Some option.case
      by (auto split: prod.splits sum.splits)
    have c: "HasPrefix c ''.expiry-'' \<and> lookup (w_fs w2) (?D @ [c]) \<noteq> None \<and> is_dir (w_fs w2) ?D"
      using sys_ok [OF tmp [unfolded os_CreateTemp_def]] fs_temp_ok [of _ _ _ ?D]
      by (metis is_dir_def option.distinct(1) same_except_is_dir)
    have "c \<noteq> name"
      using c assms(2) lower_alnum_not_dot by (cases name) (auto simp: HasPrefix_iff)
    obtain w4 where wr: "os_Write e (?D @ [c]) (Format_RFC3339Nano t) w2 = (Inr (), w4)"
        and ren: "\<exists>w5. w_fs w5 = w_fs w4 \<and> os_Rename e (?D @ [c]) (?D @ [name]) w5 = (Inr (), w3)"
      using we unfolding write_expiry_def by (force dest!: io_ok reads_fs)
    have "\<exists>m. lookup (w_fs w4) (?D @ [c]) = Some (File (Format_RFC3339Nano t) m)"
      using wr c put_lookup_same [of "w_fs w2" ?D]
      by (auto simp: os_Write_def Let_def is_dir_def split: if_splits)
    then have "\<exists>m. lookup (w_fs w3) (?D @ [name]) = Some (File (Format_RFC3339Nano t) m)"
      using ren os_Rename_ok [OF _ \<open>c \<noteq> name\<close>, of e ?D] by (metis option.inject)
    then show ?thesis
      using os_Remove_other [OF \<open>c \<noteq> name\<close>, of e ?D w3] md Some w' by (auto simp: recorded_def file_at_def)
  qed
qed

section \<open>The names a replacement uses\<close>

abbreviation stage_prefix :: "string \<Rightarrow> string" where
  "stage_prefix name \<equiv> ''.'' @ name @ ''.stage-''"

definition own_names :: "string \<Rightarrow> string set" where
  "own_names name =
     {name, ''.expiries''} \<union> {c. HasPrefix c (stage_prefix name)} \<union> range (backup_name name)"

lemma name_no_dot_start: "nameRE name \<Longrightarrow> name \<noteq> CHR ''.'' # r"
  using lower_alnum_not_dot by (cases name) auto

lemma backup_name_ne: "backup_name name ns \<noteq> name"
  by (simp add: backup_name_def)

lemma backup_name_no_dot_start: "nameRE name \<Longrightarrow> backup_name name ns \<noteq> CHR ''.'' # r"
  using lower_alnum_not_dot by (cases name) (auto simp: backup_name_def)

lemma stage_ne_expiries:
  assumes "nameRE name" "HasPrefix c (stage_prefix name)"
  shows "c \<noteq> ''.expiries''"
proof
  assume "c = ''.expiries''"
  then obtain r where eq: "''.expiries'' = stage_prefix name @ r" using assms(2) by (auto simp: HasPrefix_iff)
  then have "length ''.expiries'' = 1 + length name + 7 + length r" by simp
  moreover have "0 < length name" using nameRE_length [OF assms(1)] by simp
  ultimately have "length name = 1" by (cases "length name") auto
  then obtain x where "name = [x]" by (auto simp: length_Suc_conv)
  with eq show False by simp
qed

lemma stage_names:
  assumes "nameRE name" "HasPrefix c (stage_prefix name)"
  shows "c \<noteq> name" "c \<noteq> backup_name name ns" "c \<noteq> ''.expiries''"
  using assms name_no_dot_start [OF assms(1)] backup_name_no_dot_start [OF assms(1)] stage_ne_expiries [OF assms]
  by (auto simp: HasPrefix_iff) metis

lemma backup_path_eq [simp]: "backup_path (R @ [name]) ns = R @ [backup_name name ns]"
  by (simp add: backup_path_def)

section \<open>The steps of a replacement\<close>

lemma stage_made:
  assumes "os_MkdirTemp e R pattern w = (Inr c, w1)"
  shows "HasPrefix c pattern \<and> same_except R {c} (w_fs w) (w_fs w1) \<and> is_dir (w_fs w1) R \<and>
    (\<exists>t. lookup (w_fs w1) (R @ [c]) = Some (Folder t []))"
  using sys_ok [OF assms [unfolded os_MkdirTemp_def]] fs_temp_ok [of _ _ _ R pattern "w_fs w" c "w_fs w1"]
  by (metis is_dir_def same_except_is_dir)

lemma stage_not_made:
  "os_MkdirTemp e R pattern w = (Inl err, w1) \<Longrightarrow> w_fs w1 = w_fs w"
  by (auto simp: os_MkdirTemp_def sys_def fs_temp_def Let_def split: if_splits sum.splits node.splits option.splits)

text \<open>Moving aside: nothing happens, or the old site is under its backup name and gone from its place.\<close>

lemma move_aside_cases:
  assumes "move_aside e (R @ [name]) w = (r, w')"
  obtains (none) "w_fs w' = w_fs w" "\<forall>b. r \<noteq> Inr (Some b)"
  | (moved) ns n where "r = Inr (Some (R @ [backup_name name ns]))"
      "lookup (w_fs w) (R @ [name]) = Some n" "lookup (w_fs w') (R @ [backup_name name ns]) = Some n"
      "lookup (w_fs w') (R @ [name]) = None"
      "same_except R {name, backup_name name ns} (w_fs w) (w_fs w')"
proof -
  obtain r1 w1 where st: "os_Stat e (R @ [name]) w = (r1, w1)" by (cases "os_Stat e (R @ [name]) w")
  show thesis
  proof (cases r1)
    case (Inl err)
    then show thesis using assms st reads_fs(1) [OF st] by (intro none) (auto simp: move_aside_def)
  next
    case (Inr n)
    define ns where "ns = env_now e (w_tick w1)"
    define w2 where "w2 = w1\<lparr>w_tick := Suc (w_tick w1)\<rparr>"
    obtain r3 w3 where ren: "os_Rename e (R @ [name]) (R @ [backup_name name ns]) w2 = (r3, w3)"
      by (cases "os_Rename e (R @ [name]) (R @ [backup_name name ns]) w2")
    have run: "(r, w') = (case r3 of Inl err \<Rightarrow> (Inl err, w3) | Inr u \<Rightarrow> (Inr (Some (R @ [backup_name name ns])), w3))"
      using assms st Inr ren by (simp add: move_aside_def time_Now_def ns_def w2_def split: sum.splits)
    have w2: "w_fs w2 = w_fs w" using reads_fs(1) [OF st] by (simp add: w2_def)
    show thesis
    proof (cases r3)
      case (Inl err)
      then show thesis using run os_Rename_fail [of e _ _ w2 err w3] ren w2 by (intro none) auto
    next
      case (Inr u)
      then have "os_Rename e (R @ [name]) (R @ [backup_name name ns]) w2 = (Inr u, w3)" using ren by simp
      from os_Rename_ok [OF this backup_name_ne [symmetric]]
      obtain n where "lookup (w_fs w2) (R @ [name]) = Some n"
          "lookup (w_fs w3) (R @ [backup_name name ns]) = Some n" "lookup (w_fs w3) (R @ [name]) = None"
        by blast
      then show thesis
        using run Inr w2 os_Rename_frame [of R name "backup_name name ns" w2 e "[]" "[]"] ren
        by (intro moved [of ns n]) auto
    qed
  qed
qed

definition survives :: "fpath \<Rightarrow> string \<Rightarrow> node \<Rightarrow> node \<Rightarrow> bool" where
  "survives R name old fs \<longleftrightarrow>
     lookup fs (R @ [name]) = Some old \<or> (\<exists>ns. lookup fs (R @ [backup_name name ns]) = Some old)"

definition installed :: "fpath \<Rightarrow> string \<Rightarrow> tar_stream \<Rightarrow> node \<Rightarrow> bool" where
  "installed R name r fs \<longleftrightarrow>
     (\<forall>cs. file_at fs (R @ name # cs) = last_data (stream_entries r) cs)"

text \<open>Undoing the move: the old site is back, or still under its backup name.\<close>

lemma roll_back_survives:
  assumes "lookup (w_fs w) (R @ [backup_name name ns]) = Some old"
  shows "survives R name old (w_fs (roll_back e (Some (R @ [backup_name name ns])) (R @ [name]) w))"
proof -
  obtain r w' where ren: "os_Rename e (R @ [backup_name name ns]) (R @ [name]) w = (r, w')"
    by (cases "os_Rename e (R @ [backup_name name ns]) (R @ [name]) w")
  show ?thesis
  proof (cases r)
    case (Inl err)
    then show ?thesis
      using ren os_Rename_fail [of e _ _ w err w'] assms by (auto simp: roll_back_def survives_def)
  next
    case (Inr u)
    then show ?thesis
      using ren os_Rename_ok [of e R "backup_name name ns" name w u w'] backup_name_ne assms
      by (auto simp: roll_back_def survives_def)
  qed
qed

lemma frame_roll_back [frame]:
  "\<lbrakk>same_except R C n0 (w_fs w); name \<in> C; \<forall>b. backup = Some b \<longrightarrow> (\<exists>c \<in> C. b = R @ [c])\<rbrakk>
    \<Longrightarrow> same_except R C n0 (w_fs (roll_back e backup (R @ [name]) w))"
  by (auto simp: roll_back_def intro: frame_rename [where ps = "[]" and qs = "[]"] split: option.splits)

lemma frame_remove_entry [frame]:
  "\<lbrakk>same_except R C n0 (w_fs w); c \<in> C\<rbrakk>
    \<Longrightarrow> same_except R C n0 (w_fs (snd (os_RemoveAll e (R @ [c]) w)))"
  using frame_calls(4) [where qs = "[]"] by simp

definition run_after :: "(world \<Rightarrow> (store_err + unit) \<times> world) option \<Rightarrow> world \<Rightarrow> (store_err + unit) \<times> world" where
  "run_after aft w = (case aft of None \<Rightarrow> (Inr (), w) | Some f \<Rightarrow> f w)"

text \<open>The callback touches the expiry metadata only.\<close>

definition expiry_only :: "fpath \<Rightarrow> (world \<Rightarrow> (store_err + unit) \<times> world) option \<Rightarrow> bool" where
  "expiry_only R aft \<longleftrightarrow> (\<forall>w. same_except R {''.expiries''} (w_fs w) (w_fs (snd (run_after aft w))))"

lemma expiry_only_deadline: "expiry_only (st_root s) (Some (set_deadline e s name dur))"
  by (simp add: expiry_only_def run_after_def frame_set_deadline)

lemma expiry_only_None: "expiry_only R None"
  by (simp add: expiry_only_def run_after_def)

lemma installed_frame:
  "\<lbrakk>installed R name r n; same_except R C n n'; name \<notin> C\<rbrakk> \<Longrightarrow> installed R name r n'"
  by (simp add: installed_def same_except_def file_at_def)

lemma survives_frame:
  "\<lbrakk>survives R name old n; same_except R C n n'; name \<notin> C; \<forall>ns. backup_name name ns \<notin> C\<rbrakk>
    \<Longrightarrow> survives R name old n'"
  by (auto simp: survives_def same_except_entry)

lemma own_names_in [simp]: "name \<in> own_names name" "''.expiries'' \<in> own_names name"
    "backup_name name ns \<in> own_names name" "HasPrefix c (stage_prefix name) \<Longrightarrow> c \<in> own_names name"
  by (auto simp: own_names_def)

lemma commit_outcome:
  fixes s :: store and R :: fpath
  defines "R \<equiv> st_root s"
  assumes run: "commit_site e s name (R @ [name]) backup aft w = (res, w')"
    and name: "nameRE name" and aft: "expiry_only R aft" and inst: "installed R name r (w_fs w)"
    and bk: "backup = None \<or> (\<exists>ns. backup = Some (R @ [backup_name name ns]) \<and>
        lookup (w_fs w) (R @ [backup_name name ns]) = Some old)"
  shows "same_except R (own_names name) (w_fs w) (w_fs w') \<and>
    (\<forall>site. res = Inr site \<longrightarrow> installed R name r (w_fs w')) \<and>
    (backup \<noteq> None \<longrightarrow> survives R name old (w_fs w') \<or> installed R name r (w_fs w'))"
proof -
  obtain r1 w1 where r1: "run_after aft w = (r1, w1)" by (cases "run_after aft w")
  have f1: "same_except R {''.expiries''} (w_fs w) (w_fs w1)" using aft r1 by (metis expiry_only_def snd_conv)
  have ne: "name \<noteq> ''.expiries''" "backup_name name ns \<noteq> ''.expiries''" for ns
    using name_no_dot_start [OF name] backup_name_no_dot_start [OF name] by auto
  have own1: "same_except R (own_names name) (w_fs w) (w_fs w1)" by (rule same_except_mono [OF f1]) simp
  have bks: "\<forall>b. backup = Some b \<longrightarrow> (\<exists>c \<in> own_names name. b = R @ [c])" using bk by auto
  show ?thesis
  proof (cases r1)
    case (Inl err)
    then have run': "(res, w') = (Inl (ErrWrap ''set expiry'' err),
        roll_back e backup (R @ [name]) (snd (os_RemoveAll e (R @ [name]) w1)))"
      using run r1 by (simp add: commit_site_def run_after_def)
    have "same_except R (own_names name) (w_fs w) (w_fs w')"
      using run' frame_roll_back [OF frame_remove_entry [OF own1], of name name backup e e] bks by simp
    moreover have "survives R name old (w_fs w')" if some: "backup \<noteq> None"
    proof -
      obtain ns where ns: "backup = Some (R @ [backup_name name ns])"
          "lookup (w_fs w) (R @ [backup_name name ns]) = Some old"
        using bk some by auto
      have "lookup (w_fs (snd (os_RemoveAll e (R @ [name]) w1))) (R @ [backup_name name ns]) = Some old"
        using ns(2) same_except_entry [OF f1, of "backup_name name ns"] ne(2)
          same_except_entry [OF os_RemoveAll_frame [of R name w1 e "[]"], of "backup_name name ns"]
          backup_name_ne [of name ns] by simp
      then show ?thesis using roll_back_survives run' ns(1) by simp
    qed
    ultimately show ?thesis using run' by auto
  next
    case (Inr u)
    then have run': "(res, w') = Stat e s name (case backup of None \<Rightarrow> w1 | Some b \<Rightarrow> snd (os_RemoveAll e b w1))"
      using run r1 by (simp add: commit_site_def run_after_def)
    then have fs: "w_fs w' = w_fs (case backup of None \<Rightarrow> w1 | Some b \<Rightarrow> snd (os_RemoveAll e b w1))"
      using Stat_fs [of e s name _ res w'] by simp
    have inst1: "installed R name r (w_fs w1)" using installed_frame [OF inst f1] ne by simp
    have "installed R name r (w_fs w')"
      using bk fs inst1 installed_frame [OF inst1 os_RemoveAll_frame [of R _ w1 e "[]"]] backup_name_ne [symmetric, of name]
      by auto
    moreover have "same_except R (own_names name) (w_fs w) (w_fs w')"
      using fs own1 bks frame_remove_entry [OF own1, of _ e] by (auto split: option.splits)
    ultimately show ?thesis by simp
  qed
qed

text \<open>A staged directory can only be renamed to a free name.\<close>

lemma rename_folder_free:
  assumes "os_Rename e (R @ [c]) (R @ [d]) w = (Inr u, w')" "c \<noteq> d" "is_dir (w_fs w) (R @ [c])"
  shows "lookup (w_fs w) (R @ [d]) = None \<and> lookup (w_fs w') (R @ [d]) = lookup (w_fs w) (R @ [c])"
proof -
  obtain m es where "resolve (w_fs w) (R @ [c]) = Inr (Folder m es)"
    using assms(3) by (auto simp: is_dir_def resolve_lookup)
  moreover have "fs_rename (env_now e (w_tick w)) (R @ [c]) (R @ [d]) (w_fs w) = (Inr u, w_fs w')"
    using sys_ok [OF assms(1) [unfolded os_Rename_def]] by simp
  ultimately have "lookup (w_fs w) (R @ [d]) = None"
    by (auto simp: fs_rename_def split: sum.splits node.splits option.splits)
  then show ?thesis using os_Rename_ok [OF assms(1,2)] by auto
qed

lemma installed_moved:
  assumes "lookup n' (R @ [name]) = lookup n (R @ [c])"
    and "\<forall>cs. file_at n (R @ c # cs) = last_data (stream_entries r) cs"
  shows "installed R name r n'"
proof -
  have "lookup n' (R @ name # cs) = lookup n (R @ c # cs)" for cs
    using assms(1) lookup_append [of n' "R @ [name]" cs] lookup_append [of n "R @ [c]" cs] by simp
  then show ?thesis using assms(2) by (simp add: installed_def file_at_def)
qed

text \<open>What a replacement promises, whatever fails: the tree after it against the tree before.\<close>

definition safe_outcome :: "fpath \<Rightarrow> string \<Rightarrow> tar_stream \<Rightarrow> node \<Rightarrow> node \<Rightarrow> bool \<Rightarrow> bool" where
  "safe_outcome R name r fs fs' ok \<longleftrightarrow>
     same_except R (own_names name) fs fs' \<and>
     (ok \<longrightarrow> installed R name r fs') \<and>
     (\<forall>old. lookup fs (R @ [name]) = Some old \<longrightarrow> survives R name old fs' \<or> installed R name r fs')"

text \<open>The state after \<^const>\<open>move_aside\<close> has not failed.\<close>

definition moved_aside :: "fpath \<Rightarrow> string \<Rightarrow> time \<Rightarrow> node \<Rightarrow> fpath option \<Rightarrow> node \<Rightarrow> node \<Rightarrow> bool" where
  "moved_aside R name ns old backup fs fs' \<longleftrightarrow>
     same_except R {name, backup_name name ns} fs fs' \<and>
     (backup = None \<and> fs' = fs \<or>
      backup = Some (R @ [backup_name name ns]) \<and> lookup fs (R @ [name]) = Some old \<and>
      lookup fs' (R @ [backup_name name ns]) = Some old)"

lemma move_aside_result:
  assumes "move_aside e (R @ [name]) w = (r, w')"
  shows "\<exists>ns old. case r of
      Inl err \<Rightarrow> w_fs w' = w_fs w | Inr backup \<Rightarrow> moved_aside R name ns old backup (w_fs w) (w_fs w')"
  using assms
proof (rule move_aside_cases)
  assume "w_fs w' = w_fs w" "\<forall>b. r \<noteq> Inr (Some b)"
  then show ?thesis by (cases r) (auto simp: moved_aside_def)
qed (auto simp: moved_aside_def)

lemma remove_stage_survives:
  assumes "survives R name old (w_fs w)" "nameRE name" "HasPrefix c (stage_prefix name)"
  shows "survives R name old (w_fs (snd (os_RemoveAll e (R @ [c]) w)))"
  using survives_frame [OF assms(1) os_RemoveAll_frame [of R c w e "[]"]] stage_names [OF assms(2,3)] by auto

text \<open>Installing failed: the move is undone and the stage removed.\<close>

lemma install_undone:
  assumes aside: "moved_aside R name ns old backup fs (w_fs w)"
    and name: "nameRE name" and c: "HasPrefix c (stage_prefix name)"
  shows "safe_outcome R name r fs (w_fs (snd (os_RemoveAll e (R @ [c]) (roll_back e backup (R @ [name]) w)))) False"
proof -
  have own: "same_except R (own_names name) fs (w_fs w)"
    by (rule same_except_mono [of _ "{name, backup_name name ns}"]) (use aside in \<open>auto simp: moved_aside_def\<close>)
  have "\<forall>b. backup = Some b \<longrightarrow> (\<exists>c \<in> own_names name. b = R @ [c])"
    using aside by (auto simp: moved_aside_def)
  note f = frame_remove_entry [OF frame_roll_back [OF own own_names_in(1) this] own_names_in(4) [OF c]]
  have "survives R name old' (w_fs (roll_back e backup (R @ [name]) w))"
    if "lookup fs (R @ [name]) = Some old'" for old'
    using aside that roll_back_survives [of w R name ns old' e]
    by (auto simp: moved_aside_def roll_back_def survives_def)
  then show ?thesis
    using f remove_stage_survives [OF _ name c] by (simp add: safe_outcome_def)
qed

text \<open>The staged tree took the site's place.\<close>

lemma install_done:
  fixes s :: store and R :: fpath
  defines "R \<equiv> st_root s"
  assumes run: "commit_site e s name (R @ [name]) backup aft w2 = (res, w')"
    and ren: "os_Rename e (R @ [c]) (R @ [name]) w1 = (Inr u, w2)"
    and aside: "moved_aside R name ns old backup (w_fs w) (w_fs w1)"
    and name: "nameRE name" and aft: "expiry_only R aft"
    and c: "HasPrefix c (stage_prefix name)" "is_dir (w_fs w) (R @ [c])"
    and new: "\<forall>cs. file_at (w_fs w) (R @ c # cs) = last_data (stream_entries r) cs"
  shows "safe_outcome R name r (w_fs w) (w_fs w') (\<exists>site. res = Inr site)"
proof -
  note cne = stage_names [OF name c(1)]
  have f1: "same_except R {name, backup_name name ns} (w_fs w) (w_fs w1)"
    using aside by (simp add: moved_aside_def)
  have f2: "same_except R {c, name} (w_fs w1) (w_fs w2)"
    using os_Rename_frame [of R c name w1 e "[]" "[]"] ren by simp
  have own: "same_except R (own_names name) (w_fs w) (w_fs w2)"
    by (rule frame_step [OF f2 _ same_except_mono [OF f1]]) (use c(1) in simp_all)
  have "lookup (w_fs w1) (R @ [c]) = lookup (w_fs w) (R @ [c])"
    using same_except_entry [OF f1, of c] cne by auto
  then have moved: "lookup (w_fs w1) (R @ [name]) = None" "lookup (w_fs w2) (R @ [name]) = lookup (w_fs w) (R @ [c])"
    using rename_folder_free [OF ren cne(1)] c(2) by (auto simp: is_dir_def)
  have "lookup (w_fs w2) (R @ [backup_name name ns]) = lookup (w_fs w1) (R @ [backup_name name ns])"
    using same_except_entry [OF f2, of "backup_name name ns"] cne(2) [of ns] backup_name_ne [of name ns] by auto
  then have bk: "backup = None \<or> (\<exists>ns. backup = Some (R @ [backup_name name ns]) \<and>
      lookup (w_fs w2) (R @ [backup_name name ns]) = Some old)"
    using aside by (auto simp: moved_aside_def)
  note out = commit_outcome [where s = s, folded R_def, OF run name aft installed_moved [OF moved(2) new] bk]
  show ?thesis
    using out same_except_trans [OF own] moved(1) aside by (auto simp: safe_outcome_def moved_aside_def)
qed

lemma install_outcome:
  fixes s :: store and R :: fpath
  defines "R \<equiv> st_root s"
  assumes run: "install_site e s name (R @ [name]) (R @ [c]) aft w = (res, w')"
    and name: "nameRE name" and aft: "expiry_only R aft"
    and c: "HasPrefix c (stage_prefix name)" "is_dir (w_fs w) (R @ [c])"
    and new: "\<forall>cs. file_at (w_fs w) (R @ c # cs) = last_data (stream_entries r) cs"
  shows "safe_outcome R name r (w_fs w) (w_fs w') (\<exists>site. res = Inr site)"
proof -
  obtain r1 w1 where mv: "move_aside e (R @ [name]) w = (r1, w1)" by (cases "move_aside e (R @ [name]) w")
  obtain r2 w2 where ren: "os_Rename e (R @ [c]) (R @ [name]) w1 = (r2, w2)"
    by (cases "os_Rename e (R @ [c]) (R @ [name]) w1")
  obtain ns old where aside: "case r1 of Inl err \<Rightarrow> w_fs w1 = w_fs w
      | Inr backup \<Rightarrow> moved_aside R name ns old backup (w_fs w) (w_fs w1)"
    using move_aside_result [OF mv] by blast
  show ?thesis
  proof (cases r1)
    case (Inl err)
    then have "moved_aside R name 0 old None (w_fs w) (w_fs w1)" using aside by (simp add: moved_aside_def)
    from install_undone [OF this name c(1), of r e] show ?thesis
      using run mv Inl by (auto simp: install_site_def roll_back_def safe_outcome_def)
  next
    case bk: (Inr backup)
    show ?thesis
    proof (cases r2)
      case (Inl err)
      then have "moved_aside R name ns old backup (w_fs w) (w_fs w2)"
        using aside bk ren os_Rename_fail [of e _ _ w1 err w2] by simp
      from install_undone [OF this name c(1), of r e] show ?thesis
        using run mv bk ren Inl by (auto simp: install_site_def safe_outcome_def)
    next
      case (Inr u)
      show ?thesis
        unfolding R_def
        by (rule install_done [of e s name backup aft w2 res w' c w1 u ns old])
          (use run mv bk ren Inr aside name aft c new in \<open>simp_all add: install_site_def R_def\<close>)
    qed
  qed
qed

lemma replace_outcome:
  assumes run: "replaceFromTar e s name r aft w = (res, w')"
    and aft: "expiry_only (st_root s) aft" and lim: "st_maxSiteBytes s < 2 ^ 63 - 1"
  shows "safe_outcome (st_root s) name r (w_fs w) (w_fs w') (\<exists>site. res = Inr site)"
proof (cases "Path s name")
  case (Inl err)
  then show ?thesis using run by (auto simp: replaceFromTar_def safe_outcome_def survives_def)
next
  case (Inr p)
  let ?R = "st_root s"
  have name: "nameRE name" and p: "p = ?R @ [name]" using Inr by (simp_all add: Path_ok)
  obtain r1 w1 where mk: "os_MkdirTemp e ?R (stage_prefix name) w = (r1, w1)"
    by (cases "os_MkdirTemp e ?R (stage_prefix name) w")
  show ?thesis
  proof (cases r1)
    case (Inl err)
    then show ?thesis
      using run Inr mk stage_not_made [of e ?R _ w err w1]
      by (auto simp: replaceFromTar_def safe_outcome_def survives_def)
  next
    case c: (Inr c)
    have st: "HasPrefix c (stage_prefix name)" "same_except ?R {c} (w_fs w) (w_fs w1)" "is_dir (w_fs w1) ?R"
        "\<exists>t. lookup (w_fs w1) (?R @ [c]) = Some (Folder t [])"
      using stage_made [OF mk [unfolded c]] by auto
    obtain r2 w2 where ex: "extractTar e (?R @ [c]) r (st_maxSiteBytes s) w1 = (r2, w2)"
      by (cases "extractTar e (?R @ [c]) r (st_maxSiteBytes s) w1")
    have f2: "same_except ?R {c} (w_fs w) (w_fs w2)"
      using same_except_trans [OF st(2)] extractTar_frame [OF st(3), of c e r "st_maxSiteBytes s"] ex by simp
    have own2: "same_except ?R (own_names name) (w_fs w) (w_fs w2)"
      by (rule same_except_mono [OF f2]) (use st(1) in simp)
    have site2: "lookup (w_fs w2) (?R @ [name]) = lookup (w_fs w) (?R @ [name])"
      using same_except_entry [OF f2, of name] stage_names(1) [OF name st(1)] by auto
    show ?thesis
    proof (cases r2)
      case (Inl err)
      have "moved_aside ?R name 0 undefined None (w_fs w2) (w_fs w2)" by (simp add: moved_aside_def)
      from install_undone [OF this name st(1), of r e] show ?thesis
        using run \<open>Path s name = Inr p\<close> mk c ex Inl site2 same_except_trans [OF own2]
        by (auto simp: replaceFromTar_def safe_outcome_def roll_back_def)
    next
      case (Inr u)
      have new: "\<forall>cs. file_at (w_fs w2) (?R @ c # cs) = last_data (stream_entries r) cs" "is_dir (w_fs w2) (?R @ [c])"
        using extractTar_content [OF ex [unfolded Inr] lim] st(4) by auto
      have "install_site e s name (?R @ [name]) (?R @ [c]) aft w2 = (res, w')"
        using run \<open>Path s name = Inr p\<close> p mk c ex Inr by (simp add: replaceFromTar_def)
      from install_outcome [OF this name aft st(1) new(2,1)] show ?thesis
        using site2 same_except_trans [OF own2] by (auto simp: safe_outcome_def)
    qed
  qed
qed

end
