(* ===== verification/Local_Props.thy ===== *)
theory Local_Props
  imports Local_Replace
begin

text \<open>
  The properties of the local backend: atomic replacement under every failure, containment of
  the extraction, the expiry of a site, the expiry sweep, and the archive round trip.
\<close>

section \<open>Deleting\<close>

lemma os_RemoveAll_gone:
  assumes "os_RemoveAll e (ps @ [c]) w = (Inr u, w')"
  shows "lookup (w_fs w') (ps @ [c]) = None"
proof (cases "resolve (w_fs w) (ps @ [c])")
  case (Inl err)
  then show ?thesis
    using assms resolve_NotExist by (auto simp: os_RemoveAll_def Let_def split: if_splits)
next
  case (Inr m)
  then obtain s es where "lookup (w_fs w) ps = Some (Folder s es)"
    unfolding resolve_lookup lookup_append
    by (auto split: option.splits) (metis lookup.simps(2) node.exhaust option.distinct(1))
  from put_lookup_same [OF this] show ?thesis
    using assms Inr by (auto simp: os_RemoveAll_def Let_def split: if_splits)
qed

lemma frame_Delete:
  assumes "same_except (st_root s) C n0 (w_fs w)" "name \<in> C" "''.expiries'' \<in> C"
  shows "same_except (st_root s) C n0 (w_fs (snd (Delete e s name w)))"
proof (cases "Path s name")
  case (Inr p)
  then have eq: "p = st_root s @ name # []" "expiryPath s name = st_root s @ ''.expiries'' # [name]"
    by (simp_all add: Path_ok expiryPath_eq)
  show ?thesis
    unfolding Delete_def Inr sum.case eq
    by (intro frame assms) (simp add: frame_calls(5) assms)
qed (simp add: Delete_def assms)

lemma Delete_gone:
  assumes "Delete e s name w = (r, w')" "case r of Inl err \<Rightarrow> is_ErrNotFound err | Inr u \<Rightarrow> True" "nameRE name"
  shows "lookup (w_fs w') (st_root s @ [name]) = None"
proof -
  have path: "Path s name = Inr (st_root s @ [name])" using assms(3) by (simp add: Path_ok)
  obtain r1 w1 where st: "os_Stat e (st_root s @ [name]) w = (r1, w1)"
    by (cases "os_Stat e (st_root s @ [name]) w")
  show ?thesis
  proof (cases r1)
    case (Inl err)
    then have "err = ErrNotExist \<or> is_ErrNotFound err" "w' = w1"
      using assms(1,2) path st by (auto simp: Delete_def split: if_splits)
    moreover have "\<not> is_ErrNotFound err"
      using st Inl by (auto simp: os_Stat_def sys_def EIO_def dest: resolve_err split: if_splits)
    ultimately show ?thesis
      using st Inl resolve_NotExist by (auto simp: os_Stat_def sys_def split: if_splits)
  next
    case (Inr n)
    obtain r2 w2 where rm: "os_RemoveAll e (st_root s @ [name]) w1 = (r2, w2)"
      by (cases "os_RemoveAll e (st_root s @ [name]) w1")
    have "\<not> is_ErrNotFound err" if "r2 = Inl err" for err
      using rm that
      by (auto simp: os_RemoveAll_def Let_def EIO_def dest!: resolve_err split: sum.splits if_splits)
    then obtain u where r2: "r2 = Inr u" "w' = snd (os_Remove e (expiryPath s name) w2)"
      using assms(1,2) path st Inr rm by (cases r2) (auto simp: Delete_def)
    have "name \<noteq> ''.expiries''" using name_no_dot_start [OF assms(3)] by blast
    then show ?thesis
      using os_RemoveAll_gone [of e _ _ w1 u w2] rm r2 assms(3)
        same_except_entry [OF os_Remove_frame [of "st_root s" "''.expiries''" w2 e "[name]"], of name]
      by (simp add: expiryPath_eq)
  qed
qed

section \<open>Listing\<close>

lemma list_loop_fs: "w_fs (snd (list_loop e s es out w)) = w_fs w"
  by (induction e s es out w rule: list_loop.induct) (auto dest: Stat_fs split: prod.splits sum.splits)

lemma list_loop_names:
  assumes "x \<in> set (fst (list_loop e s es out w))"
  shows "x \<in> set out \<or> (\<exists>n. (Site_Name x, n) \<in> set es \<and> is_folder n \<and> nameRE (Site_Name x) \<and>
    (\<exists>v v'. w_fs v = w_fs w \<and> Stat e s (Site_Name x) v = (Inr x, v')))"
  using assms
proof (induction e s es out w rule: list_loop.induct)
  case (2 e s y es out w)
  show ?case
  proof (cases "is_site_entry y")
    case True
    obtain r w1 where st: "Stat e s (fst y) w = (r, w1)" by (cases "Stat e s (fst y) w")
    have w1: "w_fs w1 = w_fs w" using st by (rule Stat_fs)
    show ?thesis
    proof (cases r)
      case (Inl err)
      then show ?thesis using 2(2) [OF _ st [symmetric] Inl] 2(4) st w1 True by auto
    next
      case (Inr info)
      have nm: "Site_Name info = fst y"
        using st Inr by (auto simp: Stat_def Let_def split: sum.splits prod.splits)
      show ?thesis using 2(3) [OF _ st [symmetric] Inr] 2(4) st Inr w1 True nm
        by (cases y) (auto simp: is_site_entry_def)
    qed
  qed (use 2 in auto)
qed simp

lemma List_sites:
  assumes "List e s w = (Inr sites, w')"
  shows "w_fs w' = w_fs w \<and> sorted (map Site_Name sites) \<and>
    (\<forall>x \<in> set sites. nameRE (Site_Name x) \<and> (\<exists>v v'. w_fs v = w_fs w \<and> Stat e s (Site_Name x) v = (Inr x, v')))"
proof -
  obtain r w1 where rd: "os_ReadDir e (st_root s) w = (r, w1)" by (cases "os_ReadDir e (st_root s) w")
  have w1: "w_fs w1 = w_fs w" using rd by (rule reads_fs)
  show ?thesis
  proof (cases r)
    case (Inl err)
    then show ?thesis using assms rd w1 by (auto simp: List_def split: if_splits)
  next
    case (Inr es)
    obtain out w2 where lp: "list_loop e s es [] w1 = (out, w2)" by (cases "list_loop e s es [] w1")
    have "sites = sort_key Site_Name out" "w' = w2" using assms rd Inr lp by (simp_all add: List_def)
    then show ?thesis
      using list_loop_fs [of e s es "[]" w1] list_loop_names [of _ e s es "[]" w1] lp w1 by auto
  qed
qed

lemma expire_loop_spec:
  assumes "expire_loop e s now xs deleted w = ((names, err), w')" "\<forall>x \<in> set xs. nameRE (Site_Name x)"
    and "''.expiries'' \<in> C" "\<forall>x \<in> set xs. site_due now x \<longrightarrow> Site_Name x \<in> C"
  shows "same_except (st_root s) C (w_fs w) (w_fs w') \<and>
    set names \<subseteq> set deleted \<union> Site_Name ` {x \<in> set xs. site_due now x} \<and>
    (err = None \<longrightarrow> names = deleted @ map Site_Name (filter (site_due now) xs))"
  using assms
proof (induction e s now xs deleted w rule: expire_loop.induct)
  case (2 e s now x xs deleted w)
  show ?case
  proof (cases "site_due now x")
    case True
    obtain r w1 where del: "Delete e s (Site_Name x) w = (r, w1)" by (cases "Delete e s (Site_Name x) w")
    have f: "same_except (st_root s) C (w_fs w) (w_fs w1)"
      using frame_Delete [OF same_except_refl, of "Site_Name x" C s w e] del 2(5-) True by simp
    show ?thesis
    proof (cases r)
      case (Inl er)
      then show ?thesis
        using 2(2) [OF _ del [symmetric] Inl] 2(4-) del f True same_except_trans [OF f] by (auto split: if_splits)
    next
      case (Inr u)
      then show ?thesis
        using 2(3) [OF _ del [symmetric] Inr] 2(4-) del f True same_except_trans [OF f] by auto
    qed
  qed (use 2 in auto)
qed auto

lemma Delete_keeps_gone:
  assumes "lookup (w_fs w) (st_root s @ [n]) = None" "nameRE n"
  shows "lookup (w_fs (snd (Delete e s name w))) (st_root s @ [n]) = None"
proof (cases "n = name")
  case True
  obtain err where "resolve (w_fs w) (st_root s @ [name]) = Inl err"
    using lookup_None_resolve assms(1) True by blast
  then have "w_fs (snd (Delete e s name w)) = w_fs w"
    using assms(2) True by (simp add: Delete_def Path_ok [THEN iffD2] os_Stat_def sys_def)
  then show ?thesis using assms(1) by simp
next
  case False
  then show ?thesis
    using same_except_entry [OF frame_Delete [OF same_except_refl, of name "{name, ''.expiries''}" s w e], of n]
      assms name_no_dot_start [OF assms(2)] by auto
qed

lemma expire_loop_keeps_gone:
  "\<lbrakk>lookup (w_fs w) (st_root s @ [n]) = None; nameRE n\<rbrakk>
    \<Longrightarrow> lookup (w_fs (snd (expire_loop e s now xs deleted w))) (st_root s @ [n]) = None"
proof (induction e s now xs deleted w rule: expire_loop.induct)
  case (2 e s now x xs deleted w)
  then show ?case
    using Delete_keeps_gone [of w s n e "Site_Name x"] by (auto split: prod.splits sum.splits)
qed simp

lemma expire_loop_gone:
  assumes "expire_loop e s now xs deleted w = ((names, None), w')" "\<forall>x \<in> set xs. nameRE (Site_Name x)"
    and "x \<in> set xs" "site_due now x"
  shows "lookup (w_fs w') (st_root s @ [Site_Name x]) = None"
  using assms
proof (induction e s now xs deleted w rule: expire_loop.induct)
  case (2 e s now y xs deleted w)
  show ?case
  proof (cases "site_due now y")
    case True
    obtain r w1 where del: "Delete e s (Site_Name y) w = (r, w1)" by (cases "Delete e s (Site_Name y) w")
    have ok: "case r of Inl er \<Rightarrow> is_ErrNotFound er | Inr u \<Rightarrow> True"
      and rest: "expire_loop e s now xs (deleted @ [Site_Name y]) w1 = ((names, None), w')"
      using 2(4) del True by (auto split: sum.splits if_splits)
    have "lookup (w_fs w1) (st_root s @ [Site_Name y]) = None"
      using Delete_gone [OF del ok] 2(5) by simp
    from expire_loop_keeps_gone [OF this, of e now xs "deleted @ [Site_Name y]"]
    have y: "lookup (w_fs w') (st_root s @ [Site_Name y]) = None" using rest 2(5) by simp
    have xs: "lookup (w_fs w') (st_root s @ [Site_Name x]) = None" if "x \<in> set xs"
      using 2(2) [OF _ del [symmetric]] 2(3) [OF _ del [symmetric]] ok rest 2(5,7) True that by (cases r) auto
    show ?thesis using y xs 2(6) by auto
  qed (use 2 in auto)
qed simp

text \<open>A deadline is recorded on disk for the site and it is at or before \<^verbatim>\<open>now\<close>.\<close>

definition due_on_disk :: "store \<Rightarrow> node \<Rightarrow> time \<Rightarrow> string \<Rightarrow> bool" where
  "due_on_disk s fs now n \<longleftrightarrow>
     (case file_at fs (expiryPath s n) of
        None \<Rightarrow> False
      | Some b \<Rightarrow> (case Parse_RFC3339Nano (TrimSpace b) of None \<Rightarrow> False | Some t \<Rightarrow> t \<le> now))"

lemma expiry_Some_file:
  assumes "expiry e s name w = (Inr (Some t), w')"
  shows "\<exists>b. file_at (w_fs w) (expiryPath s name) = Some b \<and> Parse_RFC3339Nano (TrimSpace b) = Some t"
proof -
  obtain r w1 where rd: "os_ReadFile e (expiryPath s name) w = (r, w1)"
    by (cases "os_ReadFile e (expiryPath s name) w")
  obtain b where b: "r = Inr b" "Parse_RFC3339Nano (TrimSpace b) = Some t"
    using assms rd by (cases r) (auto simp: expiry_def split: option.splits if_splits)
  have "\<exists>m. resolve (w_fs w) (expiryPath s name) = Inr (File b m)"
    using rd b by (auto simp: os_ReadFile_def sys_def split: if_splits sum.splits node.splits)
  then show ?thesis using b by (auto simp: file_at_def resolve_lookup)
qed

lemma Stat_due:
  assumes "Stat e s name w = (Inr x, w')"
  shows "Site_Name x = name \<and> (site_due now x \<longrightarrow> due_on_disk s (w_fs w) now name)"
proof -
  have "\<exists>v v'. w_fs v = w_fs w \<and> expiry e s name v = (Inr (Site_ExpiresAt x), v') \<and> Site_Name x = name"
    using assms by (fastforce simp: Stat_def Let_def dest!: reads_fs os_Walk_fs split: prod.splits sum.splits)
  then show ?thesis
    using expiry_Some_file [of e s name] by (fastforce simp: site_due_def due_on_disk_def split: option.splits)
qed

lemma DeleteExpired_spec:
  assumes "DeleteExpired e s now w = ((names, err), w')"
  shows "(\<forall>n \<in> set names. nameRE n \<and> due_on_disk s (w_fs w) now n) \<and>
    same_except (st_root s) ({''.expiries''} \<union> {n. due_on_disk s (w_fs w) now n}) (w_fs w) (w_fs w') \<and>
    (err = None \<longrightarrow> (\<forall>n \<in> set names. lookup (w_fs w') (st_root s @ [n]) = None))"
proof -
  obtain r w1 where ls: "List e s w = (r, w1)" by (cases "List e s w")
  show ?thesis
  proof (cases r)
    case (Inl er)
    have "w_fs w1 = w_fs w"
      using ls Inl by (auto simp: List_def dest: reads_fs split: prod.splits sum.splits if_splits)
    then show ?thesis using assms ls Inl by (auto simp: DeleteExpired_def)
  next
    case (Inr sites)
    note sites = List_sites [OF ls [unfolded Inr]]
    have due: "\<forall>x \<in> set sites. site_due now x \<longrightarrow> due_on_disk s (w_fs w) now (Site_Name x)"
      using sites Stat_due by metis
    have run: "expire_loop e s now sites [] w1 = ((names, err), w')"
      using assms ls Inr by (simp add: DeleteExpired_def)
    have spec: "same_except (st_root s) ({''.expiries''} \<union> {n. due_on_disk s (w_fs w) now n}) (w_fs w1) (w_fs w') \<and>
        set names \<subseteq> set [] \<union> Site_Name ` {x \<in> set sites. site_due now x} \<and>
        (err = None \<longrightarrow> names = [] @ map Site_Name (filter (site_due now) sites))"
      by (rule expire_loop_spec [OF run]) (use sites due in auto)
    moreover have "\<forall>n \<in> set names. lookup (w_fs w') (st_root s @ [n]) = None" if "err = None"
      using expire_loop_gone [OF run [unfolded that]] spec sites that by auto
    ultimately show ?thesis using sites due by (auto simp: subset_iff)
  qed
qed

subsection \<open>The sweep misses nothing when no call fails\<close>

definition fault_free :: "env \<Rightarrow> bool" where
  "fault_free e \<longleftrightarrow> (\<forall>k. \<not> env_fault e k)"

lemma Stat_complete:
  assumes "fault_free e" "nameRE name" "lookup (w_fs w) (st_root s @ [name]) = Some n"
    and "due_on_disk s (w_fs w) now name"
  shows "\<exists>x w'. Stat e s name w = (Inr x, w') \<and> Site_Name x = name \<and> site_due now x"
proof -
  have path: "Path s name = Inr (st_root s @ [name])" using assms(2) by (simp add: Path_ok)
  obtain b t where b: "file_at (w_fs w) (expiryPath s name) = Some b" "Parse_RFC3339Nano (TrimSpace b) = Some t" "t \<le> now"
    using assms(4) by (auto simp: due_on_disk_def split: option.splits)
  obtain m where fl: "resolve (w_fs w) (expiryPath s name) = Inr (File b m)"
    using b(1) by (auto simp: file_at_def resolve_lookup split: option.splits node.splits)
  have site: "resolve (w_fs w) (st_root s @ [name]) = Inr n" using assms(3) by (simp add: resolve_lookup)
  obtain w1 where s1: "os_Stat e (st_root s @ [name]) w = (Inr n, w1)"
    using assms(1) site by (simp add: os_Stat_def sys_def fault_free_def)
  have w1: "w_fs w1 = w_fs w" using reads_fs(1) [OF s1] .
  obtain w2 where s2: "os_Walk e (st_root s @ [name]) w1 = (Inr (walk_files n), w2)"
    using assms(1) site w1 by (simp add: os_Walk_def sys_def fault_free_def)
  have w2: "w_fs w2 = w_fs w" using os_Walk_fs [OF s2] w1 by simp
  obtain w3 where s3: "os_ReadFile e (expiryPath s name) w2 = (Inr b, w3)"
    using assms(1) fl w2 by (simp add: os_ReadFile_def sys_def fault_free_def)
  show ?thesis
    using b(3) by (simp add: Stat_def path s1 s2 expiry_def s3 b(2) site_due_def split_beta Let_def)
qed

lemma list_loop_mono: "x \<in> set out \<Longrightarrow> x \<in> set (fst (list_loop e s es out w))"
  by (induction e s es out w rule: list_loop.induct) (auto split: prod.splits sum.splits)

lemma list_loop_complete:
  assumes "fault_free e" "(name, n) \<in> set es" "is_folder n" "nameRE name"
    and "lookup (w_fs w) (st_root s @ [name]) = Some k" "due_on_disk s (w_fs w) now name"
  shows "\<exists>x \<in> set (fst (list_loop e s es out w)). Site_Name x = name \<and> site_due now x"
  using assms
proof (induction e s es out w rule: list_loop.induct)
  case (2 e s y es out w)
  obtain r w1 where st: "Stat e s (fst y) w = (r, w1)" by (cases "Stat e s (fst y) w")
  have w1: "w_fs w1 = w_fs w" using st by (rule Stat_fs)
  show ?case
  proof (cases "y = (name, n)")
    case True
    obtain x where x: "r = Inr x" "Site_Name x = name" "site_due now x"
      using Stat_complete [OF 2(4,7,8,9)] st True by auto
    have "x \<in> set (fst (list_loop e s es (out @ [x]) w1))" by (rule list_loop_mono) simp
    then show ?thesis using x st True 2(6,7) by (auto simp: is_site_entry_def)
  next
    case False
    then have mem: "(name, n) \<in> set es" using 2(5) by simp
    show ?thesis
    proof (cases "is_site_entry y")
      case True
      then show ?thesis
        using 2(2) [OF _ st [symmetric]] 2(3) [OF _ st [symmetric]] 2(4,6-) mem st w1 by (cases r) auto
    qed (use 2 mem in auto)
  qed
qed simp

lemma Delete_fault_free:
  assumes "fault_free e" "nameRE name" "is_dir (w_fs w) (st_root s)" "Delete e s name w = (Inl err, w')"
  shows "err = ErrNotFound"
proof -
  have path: "Path s name = Inr (st_root s @ [name])" using assms(2) by (simp add: Path_ok)
  obtain r1 w1 where st: "os_Stat e (st_root s @ [name]) w = (r1, w1)"
    by (cases "os_Stat e (st_root s @ [name]) w")
  have r1: "r1 = resolve (w_fs w) (st_root s @ [name])" and w1: "w_fs w1 = w_fs w"
    using st assms(1) by (auto simp: os_Stat_def sys_def fault_free_def)
  show ?thesis
  proof (cases r1)
    case (Inl er)
    then have "lookup (w_fs w) (st_root s @ [name]) = None"
      using r1 by (metis resolve_lookup not_None_eq Inl_Inr_False)
    then have "er = ErrNotExist"
      using resolve_snoc_NotExist [of "w_fs w" "st_root s"] assms(3) r1 Inl by (auto simp: is_dir_def)
    then show ?thesis using assms(4) path st Inl by (simp add: Delete_def)
  next
    case (Inr n)
    then have "\<exists>w2. os_RemoveAll e (st_root s @ [name]) w1 = (Inr (), w2)"
      using assms(1) w1 r1 by (simp add: os_RemoveAll_def fault_free_def Let_def)
    then show ?thesis using assms(4) path st Inr by (auto simp: Delete_def)
  qed
qed

lemma expire_loop_fault_free:
  assumes "fault_free e" "\<forall>x \<in> set xs. nameRE (Site_Name x)" "is_dir (w_fs w) (st_root s)"
  shows "snd (fst (expire_loop e s now xs deleted w)) = None"
  using assms
proof (induction e s now xs deleted w rule: expire_loop.induct)
  case (2 e s now x xs deleted w)
  obtain r w1 where del: "Delete e s (Site_Name x) w = (r, w1)" by (cases "Delete e s (Site_Name x) w")
  have "same_except (st_root s) UNIV (w_fs w) (w_fs w1)"
    using frame_Delete [OF same_except_refl, of "Site_Name x" UNIV s w e] del by simp
  then have "is_dir (w_fs w1) (st_root s)" using 2(6) by (rule same_except_is_dir)
  then show ?case
    using 2(1) 2(2) [OF _ del [symmetric]] 2(3) [OF _ del [symmetric]] 2(4,5,6) del
      Delete_fault_free [OF 2(4) _ 2(6), of "Site_Name x"]
    by (cases r) auto
qed simp

lemma DeleteExpired_complete:
  assumes ff: "fault_free e" and run: "DeleteExpired e s now w = ((names, err), w')"
    and root: "lookup (w_fs w) (st_root s) = Some (Folder m es)"
    and site: "map_of es n = Some d" "is_folder d" "nameRE n" "due_on_disk s (w_fs w) now n"
  shows "err = None \<and> n \<in> set names"
proof -
  obtain w1 where rd: "os_ReadDir e (st_root s) w = (Inr (sort_key fst es), w1)"
    using ff resolve_lookup [THEN iffD2, OF root] by (simp add: os_ReadDir_def sys_def fault_free_def)
  have w1: "w_fs w1 = w_fs w" using rd by (rule reads_fs)
  obtain out w2 where lp: "list_loop e s (sort_key fst es) [] w1 = (out, w2)"
    by (cases "list_loop e s (sort_key fst es) [] w1")
  have ls: "List e s w = (Inr (sort_key Site_Name out), w2)" by (simp add: List_def rd lp)
  note sites = List_sites [OF ls]
  have loop: "expire_loop e s now (sort_key Site_Name out) [] w2 = ((names, err), w')"
    using run ls by (simp add: DeleteExpired_def)
  have err: "err = None"
    using expire_loop_fault_free [OF ff, of "sort_key Site_Name out" w2 s now "[]"] sites loop root
    by (auto simp: is_dir_def)
  have "\<exists>x \<in> set out. Site_Name x = n \<and> site_due now x"
    using list_loop_complete [OF ff, of n d "sort_key fst es" w1 s _ now "[]"] site root lp w1 map_of_SomeD [OF site(1)]
    by (auto simp: lookup_append)
  moreover have "names = map Site_Name (filter (site_due now) (sort_key Site_Name out))"
    using expire_loop_spec [OF loop, of UNIV] sites err by auto
  ultimately show ?thesis using err by auto
qed

section \<open>The deadline of a replaced site\<close>

lemma put_resolve_other:
  "c \<noteq> d \<Longrightarrow> resolve (put t (ps @ c # qs) v n) (ps @ d # rs) = resolve n (ps @ d # rs)"
proof (induction ps arbitrary: n)
  case Nil
  then show ?case by (cases n) (auto split: option.splits)
next
  case (Cons p ps)
  then show ?case by (cases n) (auto split: option.splits)
qed

lemma recorded_RemoveAll:
  assumes "recorded (w_fs w) (R @ [''.expiries'', name]) x" "c \<noteq> ''.expiries''"
  shows "recorded (w_fs (snd (os_RemoveAll e (R @ [c]) w))) (R @ [''.expiries'', name]) x"
proof -
  have "lookup (w_fs (snd (os_RemoveAll e (R @ [c]) w))) (R @ [''.expiries'', name]) = lookup (w_fs w) (R @ [''.expiries'', name])"
      "resolve (w_fs (snd (os_RemoveAll e (R @ [c]) w))) (R @ [''.expiries'', name]) = resolve (w_fs w) (R @ [''.expiries'', name])"
    using put_lookup_other [OF assms(2), of _ R "[]"] put_resolve_other [OF assms(2), of _ R "[]"]
    by (auto simp: os_RemoveAll_def Let_def split: sum.splits)
  then show ?thesis using assms(1) by (simp add: recorded_def file_at_def split: option.splits)
qed

lemma set_deadline_records:
  assumes "set_deadline e s name dur w = (Inr u, w')" "nameRE name"
  shows "\<exists>k. recorded (w_fs w') (expiryPath s name) (map_option (\<lambda>d. env_now e k + d) dur)"
  using assms SetExpiry_records [of e s name _ _ u w']
  by (cases dur) (auto simp: set_deadline_def time_Now_def)

lemma Stat_recorded:
  assumes "Stat e s name w = (Inr x, w')" "recorded (w_fs w) (expiryPath s name) y" "\<forall>t. y = Some t \<longrightarrow> year_ok t"
  shows "Site_ExpiresAt x = y"
proof -
  have "\<exists>v v'. w_fs v = w_fs w \<and> expiry e s name v = (Inr (Site_ExpiresAt x), v')"
    using assms by (fastforce simp: Stat_def Let_def dest!: reads_fs os_Walk_fs split: prod.splits sum.splits)
  then show ?thesis using expiry_recorded assms(2,3) by metis
qed

lemma commit_ok:
  assumes "commit_site e s name p backup (Some f) w = (Inr x, w')"
  shows "\<exists>u w1. f w = (Inr u, w1) \<and>
    Stat e s name (case backup of None \<Rightarrow> w1 | Some b \<Rightarrow> snd (os_RemoveAll e b w1)) = (Inr x, w')"
  using io_ok [OF assms [unfolded commit_site_def option.case]] by simp

lemma commit_records:
  assumes run: "commit_site e s name p backup (Some (set_deadline e s name dur)) w = (Inr x, w')"
    and name: "nameRE name" and bk: "\<forall>b. backup = Some b \<longrightarrow> (\<exists>ns. b = st_root s @ [backup_name name ns])"
  shows "\<exists>k v. recorded (w_fs v) (expiryPath s name) (map_option (\<lambda>d. env_now e k + d) dur) \<and> Stat e s name v = (Inr x, w')"
proof -
  obtain u w1 where set: "set_deadline e s name dur w = (Inr u, w1)"
      and st: "Stat e s name (case backup of None \<Rightarrow> w1 | Some b \<Rightarrow> snd (os_RemoveAll e b w1)) = (Inr x, w')"
    using commit_ok [OF run] by blast
  obtain k where rec: "recorded (w_fs w1) (expiryPath s name) (map_option (\<lambda>d. env_now e k + d) dur)"
    using set_deadline_records [OF set name] by blast
  have "backup_name name ns \<noteq> ''.expiries''" for ns using backup_name_no_dot_start [OF name] by blast
  then have "recorded (w_fs (case backup of None \<Rightarrow> w1 | Some b \<Rightarrow> snd (os_RemoveAll e b w1)))
      (expiryPath s name) (map_option (\<lambda>d. env_now e k + d) dur)"
    using rec bk recorded_RemoveAll [of w1 "st_root s" name] expiryPath_eq [OF name]
    by (auto split: option.splits)
  then show ?thesis using st by blast
qed

lemma commit_deadline:
  assumes run: "commit_site e s name p backup (Some (set_deadline e s name dur)) w = (Inr x, w')"
    and name: "nameRE name" and bk: "\<forall>b. backup = Some b \<longrightarrow> (\<exists>ns. b = st_root s @ [backup_name name ns])"
    and year: "\<forall>k d. dur = Some d \<longrightarrow> year_ok (env_now e k + d)"
  shows "\<exists>k. Site_ExpiresAt x = map_option (\<lambda>d. env_now e k + d) dur"
proof -
  obtain k v where "recorded (w_fs v) (expiryPath s name) (map_option (\<lambda>d. env_now e k + d) dur)" "Stat e s name v = (Inr x, w')"
    using commit_records [OF run name bk] by blast
  from Stat_recorded [OF this(2,1)] show ?thesis using year by auto
qed

lemma replace_commits:
  assumes run: "ReplaceFromTarWithExpiry e s name r dur w = (Inr x, w')"
  shows "nameRE name \<and> (\<exists>backup w3. (\<forall>b. backup = Some b \<longrightarrow> (\<exists>ns. b = st_root s @ [backup_name name ns])) \<and>
    commit_site e s name (st_root s @ [name]) backup (Some (set_deadline e s name dur)) w3 = (Inr x, w'))"
proof -
  obtain p where path: "Path s name = Inr p"
    using run by (cases "Path s name") (auto simp: ReplaceFromTarWithExpiry_def replaceFromTar_def)
  then have name: "nameRE name" and p: "p = st_root s @ [name]" by (simp_all add: Path_ok)
  obtain backup w1 w2 where mv: "move_aside e p w1 = (Inr backup, w2)"
      and cm: "\<exists>w3. commit_site e s name p backup (Some (set_deadline e s name dur)) w3 = (Inr x, w')"
    using run path
    by (auto simp: ReplaceFromTarWithExpiry_def replaceFromTar_def install_site_def Let_def
        split: prod.splits sum.splits)
  have "\<forall>b. backup = Some b \<longrightarrow> (\<exists>ns. b = st_root s @ [backup_name name ns])"
    using move_aside_result [OF mv [unfolded p]] by (auto simp: moved_aside_def)
  then show ?thesis using cm name p by blast
qed

lemma replace_deadline:
  assumes run: "ReplaceFromTarWithExpiry e s name r dur w = (Inr x, w')"
    and year: "\<forall>k d. dur = Some d \<longrightarrow> year_ok (env_now e k + d)"
  shows "nameRE name \<and> Site_Name x = name \<and> (\<exists>k. Site_ExpiresAt x = map_option (\<lambda>d. env_now e k + d) dur)"
proof -
  obtain backup w3 where cm: "commit_site e s name (st_root s @ [name]) backup (Some (set_deadline e s name dur)) w3 = (Inr x, w')"
    and bk: "\<forall>b. backup = Some b \<longrightarrow> (\<exists>ns. b = st_root s @ [backup_name name ns])" and name: "nameRE name"
    using replace_commits [OF run] by blast
  have "Site_Name x = name" using commit_ok [OF cm] Stat_due by metis
  then show ?thesis using commit_deadline [OF cm name bk year] name by blast
qed

lemma replace_records:
  assumes run: "ReplaceFromTarWithExpiry e s name r dur w = (Inr x, w')"
  shows "\<exists>k. recorded (w_fs w') (expiryPath s name) (map_option (\<lambda>d. env_now e k + d) dur)"
  using replace_commits [OF run] commit_records Stat_fs by metis

section \<open>A sample disk\<close>

definition calm :: env where
  "calm = \<lparr>env_now = (\<lambda>k. int k), env_fault = (\<lambda>k. False), env_partial = (\<lambda>k n. None),
           env_suffix = (\<lambda>k. [''1''])\<rparr>"

definition sample_store :: store where
  "sample_store = New [''s'']"

definition sample_world :: world where
  "sample_world = \<lparr>w_fs = Folder 0 [(''s'', Folder 0
       [(''a'', Folder 0 [(''x'', File ''old'' 0)]), (''b'', Folder 0 []),
        (''.expiries'', Folder 0 [(''a'', File ''1970-01-01T00:00:05Z'' 0)])])], w_tick = 0\<rparr>"

lemma sample_lookup: "lookup (w_fs sample_world) [''s'', ''a''] = Some (Folder 0 [(''x'', File ''old'' 0)])"
  by code_simp

lemma sample_replace:
  "(case fst (ReplaceFromTarWithExpiry calm sample_store ''a'' sample_tar (Some 5) sample_world) of
     Inl e \<Rightarrow> False | Inr x \<Rightarrow> Site_Name x = ''a'' \<and> Site_SizeBytes x = 3)"
  by code_simp

lemma sample_sweep:
  "fst (fst (DeleteExpired calm sample_store 5000000000 sample_world)) = [''a'']"
  by code_simp

section \<open>Properties\<close>

text \<open>
  C2: Replacing a site from an archive, whatever calls fail on the way.  Below the root nothing but the site, its
  staging and backup names and the expiry metadata changes.  If the call succeeds, the site's
  files are exactly those of the archive (the last entry of each path, whole).  And if there was
  an old site, then afterwards the old tree is still there unharmed, in its place or under a
  backup name, or the new one is completely installed: there is no half-replaced site.
\<close>

theorem replace_atomic:
  assumes "ReplaceFromTarWithExpiry e s name r dur w = (res, w')" "st_maxSiteBytes s < 2 ^ 63 - 1"
  shows "same_except (st_root s) (own_names name) (w_fs w) (w_fs w') \<and>
    (\<forall>site. res = Inr site \<longrightarrow>
       (\<forall>cs. file_at (w_fs w') (st_root s @ name # cs) = last_data (stream_entries r) cs)) \<and>
    (\<forall>old. lookup (w_fs w) (st_root s @ [name]) = Some old \<longrightarrow>
       lookup (w_fs w') (st_root s @ [name]) = Some old \<or>
       (\<exists>ns. lookup (w_fs w') (st_root s @ [backup_name name ns]) = Some old) \<or>
       (\<forall>cs. file_at (w_fs w') (st_root s @ name # cs) = last_data (stream_entries r) cs))"
  using replace_outcome [OF assms(1) [unfolded ReplaceFromTarWithExpiry_def] expiry_only_deadline assms(2)]
  by (auto simp: safe_outcome_def installed_def survives_def)

theorem replace_atomic_witness:
  "\<exists>w'. snd (ReplaceFromTarWithExpiry calm sample_store ''a'' sample_tar (Some 5) sample_world) = w' \<and>
     file_at (w_fs w') [''s'', ''a'', ''docs'', ''a.html''] = Some ''abc'' \<and>
     lookup (w_fs w') [''s'', ''b''] = lookup (w_fs sample_world) [''s'', ''b'']"
proof -
  obtain res w' where run: "ReplaceFromTarWithExpiry calm sample_store ''a'' sample_tar (Some 5) sample_world = (res, w')"
    by (cases "ReplaceFromTarWithExpiry calm sample_store ''a'' sample_tar (Some 5) sample_world")
  obtain x where res: "res = Inr x" using sample_replace run by (auto split: sum.splits)
  have lim: "st_maxSiteBytes sample_store < 2 ^ 63 - 1" by (simp add: sample_store_def New_def)
  have root: "st_root sample_store = [''s'']" by (simp add: sample_store_def New_def)
  have "last_data (stream_entries sample_tar) [''docs'', ''a.html''] = Some ''abc''" by code_simp
  moreover have "''b'' \<notin> own_names ''a''" by (auto simp: own_names_def backup_name_def)
  ultimately show ?thesis
    using replace_atomic [OF run lim] res run same_except_entry [of "[''s'']" "own_names ''a''" _ _ "''b''"]
    unfolding root by auto
qed


definition calm0 :: env where
  "calm0 = calm\<lparr>env_now := (\<lambda>k. 0)\<rparr>"


text \<open>
  C6: Extraction is confined to its destination: whatever names the archive carries and
  whichever calls fail, nothing beside the staging directory changes.
\<close>

theorem extractTar_confined:
  assumes "is_dir (w_fs w) R" and "extractTar e (R @ [stage]) r limit w = (res, w')" and "d \<noteq> stage"
  shows "lookup (w_fs w') (R @ d # rs) = lookup (w_fs w) (R @ d # rs)"
  using extractTar_frame [OF assms(1), of stage e r limit] assms(2,3) by (simp add: same_except_def)

theorem extractTar_confined_witness:
  "lookup (w_fs (snd (extractTar calm ([''s''] @ [''b''])
       (TarNext \<lparr>hdr_Name = ''../a/x'', hdr_Typeflag = TypeReg, hdr_data = ''evil''\<rparr> TarEOF) 0 sample_world)))
     ([''s''] @ ''a'' # []) = Some (Folder 0 [(''x'', File ''old'' 0)])"
proof -
  have "is_dir (w_fs sample_world) [''s'']" by (simp add: is_dir_def sample_world_def)
  from extractTar_confined [OF this, of calm "''b''" _ 0, OF prod.collapse [symmetric]] show ?thesis
    using sample_lookup by simp
qed

text \<open>
  C26: The expiry sweep, whatever calls fail: it reports only valid sites whose deadline on disk is at or
  before \<^verbatim>\<open>now\<close>; every other entry below the root stays as it is; and without an error every
  reported site is gone.
\<close>

theorem DeleteExpired_sound:
  assumes "DeleteExpired e s now w = ((names, err), w')"
  shows "(\<forall>n \<in> set names. ValidateName n = None \<and> due_on_disk s (w_fs w) now n) \<and>
    (\<forall>d rs. d \<noteq> expiryDir \<longrightarrow> \<not> due_on_disk s (w_fs w) now d \<longrightarrow>
       lookup (w_fs w') (st_root s @ d # rs) = lookup (w_fs w) (st_root s @ d # rs)) \<and>
    (err = None \<longrightarrow> (\<forall>n \<in> set names. lookup (w_fs w') (st_root s @ [n]) = None))"
  using DeleteExpired_spec [OF assms] by (auto simp: same_except_def expiryDir_def)

theorem DeleteExpired_sound_witness:
  "lookup (w_fs (snd (DeleteExpired calm sample_store 5000000000 sample_world))) ([''s''] @ ''b'' # []) = Some (Folder 0 [])"
proof -
  have "\<not> due_on_disk sample_store (w_fs sample_world) 5000000000 ''b''" by code_simp
  moreover have "lookup (w_fs sample_world) ([''s''] @ ''b'' # []) = Some (Folder 0 [])" by code_simp
  ultimately show ?thesis
    using DeleteExpired_sound [of calm sample_store 5000000000 sample_world
        "fst (fst (DeleteExpired calm sample_store 5000000000 sample_world))"
        "snd (fst (DeleteExpired calm sample_store 5000000000 sample_world))"
        "snd (DeleteExpired calm sample_store 5000000000 sample_world)"]
    by (simp add: expiryDir_def sample_store_def New_def)
qed

text \<open>
  When no call fails, the sweep ends without an error and misses no site: every valid directory
  below the root with a deadline at or before \<^verbatim>\<open>now\<close> is reported and removed.
\<close>

lemma DeleteExpired_removes:
  assumes "fault_free e" and "DeleteExpired e s now w = ((names, err), w')"
    and "lookup (w_fs w) (st_root s) = Some (Folder m es)"
    and "map_of es n = Some d" "is_folder d" "ValidateName n = None" "due_on_disk s (w_fs w) now n"
  shows "err = None \<and> n \<in> set names \<and> lookup (w_fs w') (st_root s @ [n]) = None"
proof -
  have "err = None \<and> n \<in> set names"
    using DeleteExpired_complete [OF assms(1-5)] assms(6,7) by simp
  then show ?thesis using DeleteExpired_spec [OF assms(2)] by blast
qed

end
