(* ===== verification/Archive_Roundtrip.thy ===== *)
theory Archive_Roundtrip
  imports Local_Props
begin

text \<open>
  The client's \<^verbatim>\<open>WriteDirAsTar\<close> against the server's \<^verbatim>\<open>extractTar\<close>: a directory that is
  pushed arrives with the same files.
\<close>

text \<open>A tree as a disk can hold it: the names in a directory are ordinary and distinct.\<close>

fun wf_node :: "node \<Rightarrow> bool" where
  "wf_node (File b m) = True"
| "wf_node (Folder m es) = (distinct (map fst es) \<and> (\<forall>e \<in> set es. ordinary (fst e) \<and> wf_node (snd e)))"

definition pfx :: "string list \<Rightarrow> string" where
  "pfx P = concat (map (\<lambda>c. c @ ''/'') P)"

lemma pfx_Join: "pfx P @ c = Join (P @ [c]) ''/''"
proof (induction P)
  case (Cons p P)
  then show ?case by (simp add: pfx_def Join_Cons)
qed (simp add: pfx_def)

lemma pfx_snoc: "pfx P @ c @ ''/'' = pfx (P @ [c])"
  by (simp add: pfx_def)

lemma entry_comps_file:
  assumes "\<forall>p \<in> set P. ordinary p" "ordinary c" "hdr_Name h = pfx P @ c"
  shows "entry_comps h = P @ [c]"
  using clean_comps_Join [of False "P @ [c]"] ordinary_stack_ok [of "rev (P @ [c])" False] assms
  by (simp add: entry_comps_def pfx_Join)

lemma last_data_append:
  "last_data (xs @ ys) q = (case last_data ys q of Some d \<Rightarrow> Some d | None \<Rightarrow> last_data xs q)"
  by (induction xs) (auto split: option.splits)

text \<open>Blocks that only speak about paths below distinct names do not interfere.\<close>

lemma last_data_blocks:
  assumes "distinct (map fst es)"
    and "\<And>c n q. (c, n) \<in> set es \<Longrightarrow> last_data (f (c, n)) q \<noteq> None \<Longrightarrow> \<exists>cs. q = P @ c # cs"
  shows "last_data (concat (map f es)) (P @ c # cs) =
    (case map_of es c of None \<Rightarrow> None | Some n \<Rightarrow> last_data (f (c, n)) (P @ c # cs))"
  using assms
proof (induction es)
  case (Cons e es)
  obtain d n where e: "e = (d, n)" by (cases e)
  have IH: "last_data (concat (map f es)) (P @ c # cs) =
      (case map_of es c of None \<Rightarrow> None | Some n \<Rightarrow> last_data (f (c, n)) (P @ c # cs))"
  proof (rule Cons.IH)
    show "distinct (map fst es)" using Cons.prems(1) by simp
    show "\<exists>cs. q = P @ c # cs" if "(c, n) \<in> set es" "last_data (f (c, n)) q \<noteq> None" for c n q
      by (rule Cons.prems(2) [OF _ that(2)]) (use that(1) in simp)
  qed
  have other: "last_data (f (d, n)) (P @ c # cs) = None" if "d \<noteq> c"
    using Cons.prems(2) [of d n "P @ c # cs"] e that by (cases "last_data (f (d, n)) (P @ c # cs)") auto
  have "map_of es d = None" using Cons.prems(1) e by (simp add: map_of_eq_None_iff)
  then show ?case
    using IH other e by (auto simp: last_data_append split: option.splits)
qed simp

lemma last_data_concat_None:
  assumes "\<And>e. e \<in> set es \<Longrightarrow> last_data (f e) q = None"
  shows "last_data (concat (map f es)) q = None"
  using assms by (induction es) (auto simp: last_data_append)

lemma map_of_sort_key: "distinct (map fst es) \<Longrightarrow> map_of (sort_key fst es) = map_of es"
  by (rule map_of_inject_set [THEN iffD2]) (simp_all add: distinct_map)

lemma dir_entries_data:
  assumes "wf_node n" "\<forall>p \<in> set P. ordinary p"
  shows "last_data (dir_entries (pfx P) n) q =
    (if \<exists>cs. q = P @ cs then (if is_folder n then file_at n (drop (length P) q) else None) else None)"
  using assms
proof (induction "pfx P" n arbitrary: P q rule: dir_entries.induct)
  case (2 m es)
  define f where "f = (\<lambda>(c, n). (case n of
          File b m' \<Rightarrow> [\<lparr>hdr_Name = pfx P @ c, hdr_Typeflag = TypeReg, hdr_data = b\<rparr>]
        | Folder m' es' \<Rightarrow>
            \<lparr>hdr_Name = TrimRight (pfx P @ c) slash @ ''/'', hdr_Typeflag = TypeDir, hdr_data = []\<rparr>
              # dir_entries (pfx P @ c @ ''/'') n))"
  have block: "last_data (f (c, n)) q = (if \<exists>cs. q = P @ c # cs then file_at n (drop (Suc (length P)) q) else None)"
    if mem: "(c, n) \<in> set es" for c n q
  proof (cases n)
    case (File b m')
    have "entry_comps \<lparr>hdr_Name = pfx P @ c, hdr_Typeflag = TypeReg, hdr_data = b\<rparr> = P @ [c]"
      by (rule entry_comps_file) (use mem 2(2,3) in auto)
    moreover have "file_at (File b m') cs = None" if "cs \<noteq> []" for cs
      using that by (cases cs) (simp_all add: file_at_def)
    moreover have "file_at (File b m') [] = Some b" by (simp add: file_at_def)
    ultimately show ?thesis
      by (auto simp: f_def File is_regular_def) (metis option.distinct(1))
  next
    case (Folder m' es')
    have "wf_node n" using mem 2(2) by force
    moreover have "\<forall>p \<in> set (P @ [c]). ordinary p" using mem 2(2,3) by force
    ultimately have "last_data (dir_entries (pfx (P @ [c])) n) q =
        (if \<exists>cs. q = (P @ [c]) @ cs then (if is_folder n then file_at n (drop (length (P @ [c])) q) else None) else None)"
      by (intro 2(1) [of "(c, n)" c n m' es']) (use mem Folder in \<open>auto simp: pfx_snoc\<close>)
    then show ?thesis
      by (simp add: f_def Folder pfx_snoc is_regular_def split: option.splits)
  qed
  have "dir_entries (pfx P) (Folder m es) = concat (map f (sort_key fst es))"
    by (simp add: f_def)
  moreover have "last_data (concat (map f (sort_key fst es))) q =
      (if \<exists>cs. q = P @ cs then file_at (Folder m es) (drop (length P) q) else None)"
  proof (cases "\<exists>c cs. q = P @ c # cs")
    case True
    then obtain c cs where q: "q = P @ c # cs" by blast
    have "last_data (concat (map f (sort_key fst es))) (P @ c # cs) =
        (case map_of (sort_key fst es) c of None \<Rightarrow> None | Some n \<Rightarrow> last_data (f (c, n)) (P @ c # cs))"
      by (rule last_data_blocks) (use block 2(2) in \<open>auto simp: distinct_map split: if_splits\<close>)
    also have "map_of (sort_key fst es) = map_of es"
      using 2(2) by (simp add: map_of_sort_key)
    finally show ?thesis
      using q block map_of_SomeD [of es c] by (auto simp: file_at_def split: option.splits)
  next
    case False
    have "last_data (f e) q = None" if "e \<in> set es" for e
      using block [of "fst e" "snd e" q] that False by auto
    then have "last_data (concat (map f (sort_key fst es))) q = None"
      by (intro last_data_concat_None) simp
    moreover have "(\<exists>cs. q = P @ cs) \<longrightarrow> q = P" using False by (metis append.right_neutral neq_Nil_conv)
    ultimately show ?thesis by (auto simp: file_at_def)
  qed
  ultimately show ?case by simp
qed simp

lemma WriteDirAsTar_data:
  assumes "WriteDirAsTar e src w = (Inr ts, w1)" "lookup (w_fs w) src = Some n" "wf_node n"
  shows "last_data (stream_entries ts) cs = file_at (w_fs w) (src @ cs)"
proof -
  have res: "resolve (w_fs w) src = Inr n" using assms(2) by (simp add: resolve_lookup)
  obtain k es where n: "n = Folder k es" and ts: "ts = stream_of (dir_entries [] n)"
    using assms(1) res
    by (auto simp: WriteDirAsTar_def os_Stat_def sys_def split: if_splits node.splits)
  have "stream_entries (stream_of hs) = hs" for hs by (induction hs) auto
  then have "last_data (stream_entries ts) cs = file_at n cs"
    using dir_entries_data [OF assms(3), of "[]" cs] ts by (simp add: n pfx_def)
  also have "\<dots> = file_at (w_fs w) (src @ cs)"
    using assms(2) by (simp add: file_at_def lookup_append)
  finally show ?thesis .
qed

text \<open>
  C20: The archive that \<^verbatim>\<open>WriteDirAsTar\<close> makes of a directory, extracted by
  \<^verbatim>\<open>extractTar\<close> into an empty directory (on any machine and under any failures that do not
  surface as an error), gives the same files with the same contents at the same paths, and no
  others.
\<close>

theorem tar_roundtrip:
  assumes "WriteDirAsTar e src w = (Inr ts, w1)"
    and "lookup (w_fs w) src = Some n" "wf_node n"
    and "extractTar e' dst ts limit v = (Inr u, v')" "lookup (w_fs v) dst = Some (Folder m [])" "limit < 2 ^ 63 - 1"
  shows "file_at (w_fs v') (dst @ cs) = file_at (w_fs w) (src @ cs)"
  using extractTar_content [OF assms(4,6,5), of cs] WriteDirAsTar_data [OF assms(1-3)] by simp

definition sample_src :: world where
  "sample_src = \<lparr>w_fs = Folder 0 [(''src'', Folder 0 [(''docs'', Folder 0 [(''a.html'', File ''abc'' 0)])])], w_tick = 0\<rparr>"

theorem tar_roundtrip_witness:
  "\<exists>ts v'. fst (WriteDirAsTar calm [''src''] sample_src) = Inr ts \<and>
     extractTar calm [''s'', ''b''] ts 10 sample_world = (Inr (), v') \<and>
     file_at (w_fs v') ([''s'', ''b''] @ [''docs'', ''a.html'']) = Some ''abc''"
proof -
  obtain r w1 where wr: "WriteDirAsTar calm [''src''] sample_src = (r, w1)" by (cases "WriteDirAsTar calm [''src''] sample_src")
  have "case fst (WriteDirAsTar calm [''src''] sample_src) of Inl e \<Rightarrow> False
      | Inr ts \<Rightarrow> fst (extractTar calm [''s'', ''b''] ts 10 sample_world) = Inr ()"
    by code_simp
  then obtain ts where r: "r = Inr ts" and ex: "fst (extractTar calm [''s'', ''b''] ts 10 sample_world) = Inr ()"
    using wr by (auto split: sum.splits)
  obtain v' where ex': "extractTar calm [''s'', ''b''] ts 10 sample_world = (Inr (), v')"
    using ex by (metis prod.collapse)
  have src: "lookup (w_fs sample_src) [''src''] = Some (Folder 0 [(''docs'', Folder 0 [(''a.html'', File ''abc'' 0)])])"
    by (simp add: sample_src_def)
  have "file_at (w_fs v') ([''s'', ''b''] @ [''docs'', ''a.html'']) =
      file_at (w_fs sample_src) ([''src''] @ [''docs'', ''a.html''])"
    by (rule tar_roundtrip [OF wr [unfolded r] src _ ex', of 0])
      (simp_all add: ordinary_def sample_world_def)
  then show ?thesis using wr r ex' by (simp add: sample_src_def file_at_def)
qed

end
