(* ===== verification/Sha256.thy ===== *)
theory Sha256
  imports Go_Prelude "HOL-Library.Word"
begin

text \<open>
  \<^verbatim>\<open>crypto/sha256.Sum256\<close>, the hash under which token secrets are stored: FIPS 180-4 on 32-bit
  words, with the message schedule as a sliding window of sixteen words.
\<close>

unbundle bit_operations_syntax

type_synonym w32 = "32 word"

text \<open>
  The constants are, as the standard says, the first 32 bits of the fractional parts of roots of
  the first primes: \<^verbatim>\<open>iroot k n\<close> is the integer k-th root of n, found bit by bit.
\<close>

fun root_bits :: "nat \<Rightarrow> int \<Rightarrow> nat \<Rightarrow> int \<Rightarrow> int" where
  "root_bits k n 0 r = r"
| "root_bits k n (Suc i) r =
     (let r' = r + 2 ^ i in root_bits k n i (if r' ^ k \<le> n then r' else r))"

definition iroot :: "nat \<Rightarrow> int \<Rightarrow> int" where
  "iroot k n = root_bits k n 40 0"

definition primes_upto :: "int \<Rightarrow> int list" where
  "primes_upto m = filter (\<lambda>p. list_all (\<lambda>d. p mod d \<noteq> 0) [2..p - 1]) [2..m]"

definition K256 :: "w32 list" where
  "K256 = map (\<lambda>p. word_of_int (iroot 3 (p * 2 ^ 96))) (primes_upto 311)"

definition H0 :: "w32 list" where
  "H0 = map (\<lambda>p. word_of_int (iroot 2 (p * 2 ^ 64))) (primes_upto 19)"

lemma length_H0: "length H0 = 8"
  by (simp add: H0_def primes_upto_def upto.simps)

definition rotr :: "nat \<Rightarrow> w32 \<Rightarrow> w32" where
  "rotr n x = (drop_bit n x) OR (push_bit (32 - n) x)"

definition ssig0 :: "w32 \<Rightarrow> w32" where
  "ssig0 x = rotr 7 x XOR rotr 18 x XOR drop_bit 3 x"

definition ssig1 :: "w32 \<Rightarrow> w32" where
  "ssig1 x = rotr 17 x XOR rotr 19 x XOR drop_bit 10 x"

definition bsig0 :: "w32 \<Rightarrow> w32" where
  "bsig0 x = rotr 2 x XOR rotr 13 x XOR rotr 22 x"

definition bsig1 :: "w32 \<Rightarrow> w32" where
  "bsig1 x = rotr 6 x XOR rotr 11 x XOR rotr 25 x"

definition sha_ch :: "w32 \<Rightarrow> w32 \<Rightarrow> w32 \<Rightarrow> w32" where
  "sha_ch x y z = (x AND y) XOR (NOT x AND z)"

definition sha_maj :: "w32 \<Rightarrow> w32 \<Rightarrow> w32 \<Rightarrow> w32" where
  "sha_maj x y z = (x AND y) XOR (x AND z) XOR (y AND z)"

text \<open>One round, with the window \<^verbatim>\<open>w\<close> whose head is the round's message word.\<close>

definition sha_round :: "w32 list \<times> w32 list \<Rightarrow> w32 \<Rightarrow> w32 list \<times> w32 list" where
  "sha_round st k =
     (case st of
        ([a, b, c, d, e, f, g, h], w) \<Rightarrow>
          (let t1 = h + bsig1 e + sha_ch e f g + k + hd w;
               t2 = bsig0 a + sha_maj a b c;
               nw = ssig1 (w ! 14) + w ! 9 + ssig0 (w ! 1) + hd w
           in ([t1 + t2, a, b, c, d + t1, e, f, g], tl w @ [nw]))
      | _ \<Rightarrow> st)"

definition sha_block :: "w32 list \<Rightarrow> w32 list \<Rightarrow> w32 list" where
  "sha_block hs w = map2 (+) hs (fst (foldl sha_round (hs, w) K256))"

definition be32 :: "char list \<Rightarrow> w32" where
  "be32 bs = foldl (\<lambda>acc b. push_bit 8 acc OR word_of_int (of_char b)) 0 bs"

fun chunks :: "nat \<Rightarrow> 'a list \<Rightarrow> 'a list list" where
  "chunks n xs = (if n = 0 \<or> xs = [] then [] else take n xs # chunks n (drop n xs))"

declare chunks.simps [simp del]

definition be_bytes :: "nat \<Rightarrow> int \<Rightarrow> char list" where
  "be_bytes k n = map (\<lambda>i. char_of (n div 256 ^ i mod 256)) (rev [0..<k])"

definition sha_pad :: "bytes \<Rightarrow> bytes" where
  "sha_pad m =
     (let l = length m; z = (119 - l mod 64) mod 64
      in m @ [CHR 0x80] @ replicate z (CHR 0x00) @ be_bytes 8 (8 * int l))"

definition Sum256 :: "bytes \<Rightarrow> bytes" where
  "Sum256 m =
     concat (map (\<lambda>h. be_bytes 4 (uint h))
       (foldl (\<lambda>hs blk. sha_block hs (map be32 (chunks 4 blk))) H0 (chunks 64 (sha_pad m))))"

lemma length_be_bytes [simp]: "length (be_bytes k n) = k"
  by (simp add: be_bytes_def)

lemma length_sha_round: "length (fst st) = 8 \<Longrightarrow> length (fst (sha_round st k)) = 8"
  by (auto simp: sha_round_def Let_def split: prod.splits list.splits)

lemma length_sha_block: "length hs = 8 \<Longrightarrow> length (sha_block hs w) = 8"
proof -
  have "length (fst st) = 8 \<Longrightarrow> length (fst (foldl sha_round st ks)) = 8" for st ks
    by (induction ks arbitrary: st) (auto simp: length_sha_round)
  then show "length hs = 8 \<Longrightarrow> ?thesis" by (simp add: sha_block_def)
qed

lemma length_Sum256 [simp]: "length (Sum256 m) = 32"
proof -
  have "length hs = 8 \<Longrightarrow> length (foldl (\<lambda>hs blk. sha_block hs (map be32 (chunks 4 blk))) hs bs) = 8" for hs bs
    by (induction bs arbitrary: hs) (auto simp: length_sha_block)
  then have "length (foldl (\<lambda>hs blk. sha_block hs (map be32 (chunks 4 blk))) H0 (chunks 64 (sha_pad m))) = 8"
    by (simp add: length_H0)
  moreover have "length (concat (map (\<lambda>h::w32. be_bytes 4 (uint h)) hs)) = 4 * length hs" for hs
    by (induction hs) auto
  ultimately show ?thesis by (simp add: Sum256_def)
qed

end
