(* ===== verification/Token_Store.thy ===== *)
theory Token_Store
  imports Posix_FS Sha256 Wire Local_Extract
begin

text \<open>
  \<^verbatim>\<open>internal/token/token.go\<close>: named API tokens.  The persistence layer is an interface of the
  source and a locale here; the YAML library is a pair of parameters (\<^verbatim>\<open>marshal\<close>,
  \<^verbatim>\<open>unmarshal\<close>), and the random source the sequence of its answers.  The mutex makes each
  method one step.
\<close>

section \<open>Records and errors\<close>

record token_rec =
  R_ID :: string
  R_Name :: string
  R_SHA256 :: string
  R_CreatedAt :: time
  R_ExpiresAt :: "time option"
  R_LastUsedAt :: "time option"

datatype token_err =
    TErrName string
  | TErrDuplicateName string
  | TErrNotFound string
  | TErrRand
  | TErrUniqueID
  | TErrMarshal
  | TErrSave store_err
  | TErrRead store_err
  | TErrParse

definition Prefix :: string where
  "Prefix = ''crate_''"

definition idBytes :: nat where
  "idBytes = 4"

definition secretBytes :: nat where
  "secretBytes = 32"

definition touchInterval :: duration where
  "touchInterval = 60 * 1000000000"

text \<open>The name pattern: it starts and ends with a letter or digit, 64 characters at most.\<close>

definition tok_nameRE :: "string \<Rightarrow> bool" where
  "tok_nameRE name =
     (case name of
        [] \<Rightarrow> False
      | c # cs \<Rightarrow> lower_alnum c \<and>
          (cs = [] \<or> length cs \<le> 63 \<and> list_all name_char (butlast cs) \<and> lower_alnum (last cs)))"

definition tok_ValidateName :: "string \<Rightarrow> token_err option" where
  "tok_ValidateName name = (if tok_nameRE name then None else Some (TErrName name))"

definition hashSecret :: "string \<Rightarrow> string" where
  "hashSecret secret = EncodeToString (Sum256 secret)"

section \<open>The store\<close>

record token_store =
  ts_recs :: "token_rec list"
  ts_lastSaved :: "string \<Rightarrow> time option"

type_synonym 'w save_fn = "bytes \<Rightarrow> 'w \<Rightarrow> (store_err + unit) \<times> 'w"
type_synonym 'w load_fn = "'w \<Rightarrow> (store_err + bytes) \<times> 'w"
type_synonym marshal_fn = "token_rec list \<Rightarrow> bytes option"
type_synonym unmarshal_fn = "bytes \<Rightarrow> token_rec list option"
type_synonym rand_fn = "nat \<Rightarrow> nat \<Rightarrow> bytes option"
  \<comment> \<open>the answer of the k-th call of rand.Read for n bytes\<close>

definition saveLocked :: "marshal_fn \<Rightarrow> 'w save_fn \<Rightarrow> token_rec list \<Rightarrow> 'w \<Rightarrow> (token_err + unit) \<times> 'w" where
  "saveLocked marshal save recs w =
     (case marshal recs of
        None \<Rightarrow> (Inl TErrMarshal, w)
      | Some out \<Rightarrow>
          (case save out w of (Inl e, w1) \<Rightarrow> (Inl (TErrSave e), w1) | (Inr u, w1) \<Rightarrow> (Inr (), w1)))"

definition load_saved :: "token_rec list \<Rightarrow> string \<Rightarrow> time option" where
  "load_saved recs =
     foldl (\<lambda>m r. case R_LastUsedAt r of None \<Rightarrow> m | Some t \<Rightarrow> m(R_ID r \<mapsto> t)) (\<lambda>_. None) recs"

definition LoadFrom :: "unmarshal_fn \<Rightarrow> 'w load_fn \<Rightarrow> 'w \<Rightarrow> (token_err + token_store) \<times> 'w" where
  "LoadFrom unmarshal load w =
     (case load w of
        (Inl e, w1) \<Rightarrow> (Inl (TErrRead e), w1)
      | (Inr data, w1) \<Rightarrow>
          if length data = 0 then (Inr \<lparr>ts_recs = [], ts_lastSaved = (\<lambda>_. None)\<rparr>, w1)
          else case unmarshal data of
            None \<Rightarrow> (Inl TErrParse, w1)
          | Some recs \<Rightarrow> (Inr \<lparr>ts_recs = recs, ts_lastSaved = load_saved recs\<rparr>, w1))"

text \<open>The loop of \<^verbatim>\<open>freshIDLocked\<close>: the id and the number of the next random call.\<close>

fun fresh_loop :: "rand_fn \<Rightarrow> token_rec list \<Rightarrow> nat \<Rightarrow> nat \<Rightarrow> token_err + string \<times> nat" where
  "fresh_loop rnd recs 0 k = Inl TErrUniqueID"
| "fresh_loop rnd recs (Suc tries) k =
     (case rnd k idBytes of
        None \<Rightarrow> Inl TErrRand
      | Some raw \<Rightarrow>
          (let tid = EncodeToString raw
           in if list_ex (\<lambda>r. R_ID r = tid) recs then fresh_loop rnd recs tries (Suc k)
              else Inr (tid, Suc k)))"

definition freshIDLocked :: "rand_fn \<Rightarrow> token_rec list \<Rightarrow> token_err + string \<times> nat" where
  "freshIDLocked rnd recs = fresh_loop rnd recs 10 0"

definition tok_Create ::
  "marshal_fn \<Rightarrow> 'w save_fn \<Rightarrow> rand_fn \<Rightarrow> string \<Rightarrow> duration option \<Rightarrow> time \<Rightarrow> token_store \<Rightarrow> 'w \<Rightarrow>
     (token_err + string \<times> token_rec) \<times> token_store \<times> 'w" where
  "tok_Create marshal save rnd name ttl now s w =
     (case tok_ValidateName name of
        Some e \<Rightarrow> (Inl e, s, w)
      | None \<Rightarrow>
          if list_ex (\<lambda>r. R_Name r = name) (ts_recs s) then (Inl (TErrDuplicateName name), s, w)
          else case freshIDLocked rnd (ts_recs s) of
            Inl e \<Rightarrow> (Inl e, s, w)
          | Inr (tid, k) \<Rightarrow>
              (case rnd k secretBytes of
                 None \<Rightarrow> (Inl TErrRand, s, w)
               | Some secretRaw \<Rightarrow>
                   (let secret = EncodeToString secretRaw;
                        rec = \<lparr>R_ID = tid, R_Name = name, R_SHA256 = hashSecret secret,
                               R_CreatedAt = now, R_ExpiresAt = map_option (\<lambda>d. now + d) ttl,
                               R_LastUsedAt = None\<rparr>;
                        s1 = s\<lparr>ts_recs := ts_recs s @ [rec]\<rparr>
                    in case saveLocked marshal save (ts_recs s1) w of
                         (Inl e, w1) \<Rightarrow> (Inl e, s1\<lparr>ts_recs := take (length (ts_recs s1) - 1) (ts_recs s1)\<rparr>, w1)
                       | (Inr u, w1) \<Rightarrow> (Inr (Prefix @ tid @ ''_'' @ secret, rec), s1, w1))))"

definition tok_List :: "token_store \<Rightarrow> token_rec list" where
  "tok_List s = ts_recs s"

text \<open>The index of the first record with a property, as the search loops compute it.\<close>

fun find_idx :: "('a \<Rightarrow> bool) \<Rightarrow> 'a list \<Rightarrow> nat option" where
  "find_idx P [] = None"
| "find_idx P (x # xs) = (if P x then Some 0 else map_option Suc (find_idx P xs))"

definition revoke_idx :: "token_rec list \<Rightarrow> string \<Rightarrow> nat option" where
  "revoke_idx recs idOrName =
     (case find_idx (\<lambda>r. R_ID r = idOrName) recs of
        Some i \<Rightarrow> Some i | None \<Rightarrow> find_idx (\<lambda>r. R_Name r = idOrName) recs)"

definition tok_Revoke ::
  "marshal_fn \<Rightarrow> 'w save_fn \<Rightarrow> string \<Rightarrow> token_store \<Rightarrow> 'w \<Rightarrow> (token_err + unit) \<times> token_store \<times> 'w" where
  "tok_Revoke marshal save idOrName s w =
     (case revoke_idx (ts_recs s) idOrName of
        None \<Rightarrow> (Inl (TErrNotFound idOrName), s, w)
      | Some idx \<Rightarrow>
          (let removed = ts_recs s ! idx;
               nxt = take idx (ts_recs s) @ drop (idx + 1) (ts_recs s);
               prev = ts_recs s;
               s1 = s\<lparr>ts_recs := nxt\<rparr>
           in case saveLocked marshal save (ts_recs s1) w of
                (Inl e, w1) \<Rightarrow> (Inl e, s1\<lparr>ts_recs := prev\<rparr>, w1)
              | (Inr u, w1) \<Rightarrow>
                  (Inr (), s1\<lparr>ts_lastSaved := (ts_lastSaved s1)(R_ID removed := None)\<rparr>, w1)))"

text \<open>How a bearer value splits into id and secret.\<close>

definition parse_bearer :: "string \<Rightarrow> (string \<times> string) option" where
  "parse_bearer bearer =
     (case CutPrefix bearer Prefix of
        None \<Rightarrow> None
      | Some rest \<Rightarrow>
          (case Cut rest (CHR ''_'') of
             None \<Rightarrow> None
           | Some (tid, secret) \<Rightarrow> if tid = [] \<or> secret = [] then None else Some (tid, secret)))"

definition expired_at :: "token_rec \<Rightarrow> time \<Rightarrow> bool" where
  "expired_at r now = (case R_ExpiresAt r of None \<Rightarrow> False | Some t \<Rightarrow> now > t)"

text \<open>\<^verbatim>\<open>subtle.ConstantTimeCompare\<close> answers 1 for equal byte strings.\<close>

definition ConstantTimeCompare :: "string \<Rightarrow> string \<Rightarrow> nat" where
  "ConstantTimeCompare a b = (if a = b then 1 else 0)"

definition tok_Verify ::
  "marshal_fn \<Rightarrow> 'w save_fn \<Rightarrow> string \<Rightarrow> time \<Rightarrow> token_store \<Rightarrow> 'w \<Rightarrow> token_rec option \<times> token_store \<times> 'w" where
  "tok_Verify marshal save bearer now s w =
     (case parse_bearer bearer of
        None \<Rightarrow> (None, s, w)
      | Some (tid, secret) \<Rightarrow>
          (let gotHash = hashSecret secret
           in case find_idx (\<lambda>r. R_ID r = tid) (ts_recs s) of
                None \<Rightarrow> (None, s, w)
              | Some i \<Rightarrow>
                  (let r = ts_recs s ! i
                   in if ConstantTimeCompare gotHash (R_SHA256 r) \<noteq> 1 then (None, s, w)
                      else if expired_at r now then (None, s, w)
                      else
                        (let r1 = r\<lparr>R_LastUsedAt := Some now\<rparr>;
                             s1 = s\<lparr>ts_recs := (ts_recs s)[i := r1]\<rparr>
                         in if (case ts_lastSaved s1 (R_ID r) of
                                  None \<Rightarrow> True | Some saved \<Rightarrow> now - saved \<ge> touchInterval)
                            then (case saveLocked marshal save (ts_recs s1) w of
                                    (Inl e, w1) \<Rightarrow> (Some r1, s1, w1)
                                  | (Inr u, w1) \<Rightarrow>
                                      (Some r1, s1\<lparr>ts_lastSaved := (ts_lastSaved s1)(R_ID r \<mapsto> now)\<rparr>, w1))
                            else (Some r1, s1, w)))))"

section \<open>The file persistence\<close>

definition FileStore_Load :: "env \<Rightarrow> fpath \<Rightarrow> world \<Rightarrow> (store_err + bytes) \<times> world" where
  "FileStore_Load e path w =
     (case os_ReadFile e path w of
        (Inl err, w1) \<Rightarrow> (if err = ErrNotExist then Inr [] else Inl err, w1)
      | (Inr data, w1) \<Rightarrow> (Inr data, w1))"

text \<open>\<^verbatim>\<open>f.Path + ".tmp"\<close>: the last component gets the suffix.\<close>

definition tmp_path :: "fpath \<Rightarrow> fpath" where
  "tmp_path p = butlast p @ [last p @ ''.tmp'']"

text \<open>\<^verbatim>\<open>os.WriteFile\<close>: open, write, close.\<close>

definition os_WriteFile :: "env \<Rightarrow> fpath \<Rightarrow> bytes \<Rightarrow> world \<Rightarrow> (store_err + unit) \<times> world" where
  "os_WriteFile e p d w =
     (case os_OpenFile e p w of
        (Inl err, w1) \<Rightarrow> (Inl err, w1)
      | (Inr u, w1) \<Rightarrow>
          (case os_Write e p d w1 of
             (Inl err, w2) \<Rightarrow> (Inl err, snd (os_Close e w2))
           | (Inr u, w2) \<Rightarrow> os_Close e w2))"

definition FileStore_Save :: "env \<Rightarrow> fpath \<Rightarrow> bytes \<Rightarrow> world \<Rightarrow> (store_err + unit) \<times> world" where
  "FileStore_Save e path data w =
     (case os_WriteFile e (tmp_path path) data w of
        (Inl err, w1) \<Rightarrow> (Inl (ErrWrap ''write tokens'' err), w1)
      | (Inr u, w1) \<Rightarrow>
          (case os_Rename e (tmp_path path) path w1 of
             (Inl err, w2) \<Rightarrow> (Inl (ErrWrap ''install tokens'' err), w2)
           | (Inr u, w2) \<Rightarrow> (Inr (), w2)))"

section \<open>The persistence interface\<close>

text \<open>
  What the token store relies on: \<^verbatim>\<open>content\<close> is the stored document, if any; a load reads
  it, a successful save replaces it, and a failed save leaves the old document or the new one,
  never a part.  A strict persistence leaves the old one.
\<close>

locale persistence =
  fixes load :: "'w load_fn" and save :: "'w save_fn" and content :: "'w \<Rightarrow> bytes option"
  assumes load_reads: "load w = (Inr d, w') \<Longrightarrow> d = (case content w of None \<Rightarrow> [] | Some b \<Rightarrow> b)"
    and load_keeps: "load w = (r, w') \<Longrightarrow> content w' = content w"
    and save_ok: "save d w = (Inr u, w') \<Longrightarrow> content w' = Some d"
    and save_atomic: "save d w = (Inl err, w') \<Longrightarrow> content w' = content w \<or> content w' = Some d"

locale strict_persistence = persistence +
  assumes save_fail: "save d w = (Inl err, w') \<Longrightarrow> content w' = content w"

subsection \<open>The file store is a strict persistence\<close>

lemma tmp_path_eq [simp]: "tmp_path (dir @ [f]) = dir @ [f @ ''.tmp'']"
  by (simp add: tmp_path_def)

lemma os_WriteFile_frame:
  "same_except R {c} (w_fs w) (w_fs (snd (os_WriteFile e (R @ [c]) d w)))"
proof -
  have "same_except R {c} (w_fs w) (w_fs (snd (os_WriteFile e (R @ c # []) d w)))"
    unfolding os_WriteFile_def by (intro frame same_except_refl singletonI)
  then show ?thesis by simp
qed

lemma os_WriteFile_ok:
  assumes "os_WriteFile e p d w = (Inr u, w')"
  shows "file_at (w_fs w') p = Some d"
proof -
  obtain u1 w1 where op: "os_OpenFile e p w = (Inr u1, w1)"
    and r1: "(case os_Write e p d w1 of (Inl err, w2) \<Rightarrow> (Inl err, snd (os_Close e w2)) | (Inr u, w2) \<Rightarrow> os_Close e w2) = (Inr u, w')"
    using io_ok [OF assms [unfolded os_WriteFile_def]] by auto
  obtain u2 w2 where wr: "os_Write e p d w1 = (Inr u2, w2)" and cl: "os_Close e w2 = (Inr u, w')"
    using io_ok [OF r1] by auto
  show ?thesis using open_write_file_at [OF op wr, of p] os_Close_ok_fs [OF cl] by simp
qed

lemma FileStore_Save_cases:
  assumes "FileStore_Save e (dir @ [f]) d w = (r, w')"
  shows "case r of
      Inl err \<Rightarrow> file_at (w_fs w') (dir @ [f]) = file_at (w_fs w) (dir @ [f])
    | Inr u \<Rightarrow> file_at (w_fs w') (dir @ [f]) = Some d"
proof -
  let ?tmp = "dir @ [f @ ''.tmp'']"
  obtain r1 w1 where wr: "os_WriteFile e ?tmp d w = (r1, w1)" by (cases "os_WriteFile e ?tmp d w")
  have same: "file_at (w_fs w1) (dir @ [f]) = file_at (w_fs w) (dir @ [f])"
    using same_except_entry [OF os_WriteFile_frame [of dir "f @ ''.tmp''" w e d], of f] wr
    by (simp add: file_at_def)
  show ?thesis
  proof (cases r1)
    case (Inl err)
    then show ?thesis using assms wr same by (auto simp: FileStore_Save_def)
  next
    case (Inr u)
    obtain r2 w2 where ren: "os_Rename e ?tmp (dir @ [f]) w1 = (r2, w2)" by (cases "os_Rename e ?tmp (dir @ [f]) w1")
    have run: "(r, w') = (case r2 of Inl err \<Rightarrow> (Inl (ErrWrap ''install tokens'' err), w2) | Inr u \<Rightarrow> (Inr (), w2))"
      using assms wr Inr ren by (auto simp: FileStore_Save_def)
    have "file_at (w_fs w1) ?tmp = Some d" using os_WriteFile_ok wr Inr by simp
    then have "file_at (w_fs w2) (dir @ [f]) = Some d" if ok: "r2 = Inr v" for v
      using os_Rename_ok [OF ren [unfolded ok]] by (auto simp: file_at_def)
    moreover have "w_fs w2 = w_fs w1" if er: "r2 = Inl err" for err
      using os_Rename_fail [OF ren [unfolded er]] .
    ultimately show ?thesis
      using run same by (cases r2) auto
  qed
qed

interpretation disk: strict_persistence
  "FileStore_Load e (dir @ [f])" "FileStore_Save e (dir @ [f])" "\<lambda>w. file_at (w_fs w) (dir @ [f])"
  for e dir f
proof
  fix w d w'
  assume ld: "FileStore_Load e (dir @ [f]) w = (Inr d, w')"
  show "d = (case file_at (w_fs w) (dir @ [f]) of None \<Rightarrow> [] | Some b \<Rightarrow> b)"
  proof (cases "resolve (w_fs w) (dir @ [f])")
    case (Inl err)
    then have "err = ErrNotExist" "d = []"
      using ld by (auto simp: FileStore_Load_def os_ReadFile_def sys_def split: if_splits)
    then show ?thesis using resolve_NotExist Inl by (simp add: file_at_def)
  next
    case (Inr n)
    then have "lookup (w_fs w) (dir @ [f]) = Some n" by (simp add: resolve_lookup)
    then show ?thesis
      using ld Inr by (cases n) (auto simp: FileStore_Load_def os_ReadFile_def sys_def file_at_def split: if_splits)
  qed
next
  fix w r w'
  assume "FileStore_Load e (dir @ [f]) w = (r, w')"
  then have "w_fs w' = w_fs w"
    by (auto simp: FileStore_Load_def dest: reads_fs split: prod.splits sum.splits)
  then show "file_at (w_fs w') (dir @ [f]) = file_at (w_fs w) (dir @ [f])" by simp
next
  fix w d u w' assume "FileStore_Save e (dir @ [f]) d w = (Inr u, w')"
  then show "file_at (w_fs w') (dir @ [f]) = Some d" using FileStore_Save_cases by fastforce
next
  fix w d err w' assume "FileStore_Save e (dir @ [f]) d w = (Inl err, w')"
  then show "file_at (w_fs w') (dir @ [f]) = file_at (w_fs w) (dir @ [f])"
    using FileStore_Save_cases by fastforce
  then show "file_at (w_fs w') (dir @ [f]) = file_at (w_fs w) (dir @ [f]) \<or> file_at (w_fs w') (dir @ [f]) = Some d" ..
qed

end
