(* ===== verification/Token_Props.thy ===== *)
theory Token_Props
  imports Token_Store
begin

text \<open>
  The properties of the token store: which bearer values are accepted, that a created token is
  accepted until it expires and a revoked one never, and that what a restart reads back is what
  the daemon holds in memory, after any sequence of operations with any failures.
\<close>

section \<open>The invariant\<close>

definition tokens_ok :: "token_rec list \<Rightarrow> bool" where
  "tokens_ok recs \<longleftrightarrow> distinct (map R_ID recs) \<and> distinct (map R_Name recs) \<and> list_all tok_nameRE (map R_Name recs)"

lemma find_idx_Some:
  "find_idx P xs = Some i \<Longrightarrow> i < length xs \<and> P (xs ! i) \<and> (\<forall>j < i. \<not> P (xs ! j))"
proof (induction xs arbitrary: i)
  case (Cons x xs)
  show ?case
  proof (cases "P x")
    case False
    then obtain k where "find_idx P xs = Some k" "i = Suc k" using Cons.prems by auto
    then show ?thesis using Cons.IH False by (auto simp: less_Suc_eq_0_disj)
  qed (use Cons.prems in auto)
qed simp

lemma find_idx_None: "find_idx P xs = None \<longleftrightarrow> (\<forall>x \<in> set xs. \<not> P x)"
  by (induction xs) auto

lemma find_idx_unique:
  assumes "distinct (map R_ID recs)" "r \<in> set recs"
  shows "\<exists>i. find_idx (\<lambda>x. R_ID x = R_ID r) recs = Some i \<and> i < length recs \<and> recs ! i = r"
proof -
  obtain i where i: "find_idx (\<lambda>x. R_ID x = R_ID r) recs = Some i"
    using assms(2) by (metis (mono_tags, lifting) find_idx_None not_Some_eq)
  then have "i < length recs" "R_ID (recs ! i) = R_ID r" using find_idx_Some by fastforce+
  then have "recs ! i = r" using assms by (metis distinct_map inj_on_def nth_mem)
  then show ?thesis using i find_idx_Some [OF i] by blast
qed

lemma drop_nth_split: "i < length xs \<Longrightarrow> xs = take i xs @ xs ! i # drop (Suc i) xs"
  by (rule id_take_nth_drop)

lemma saveLocked_cases:
  "saveLocked marshal save recs w = (r, w1) \<Longrightarrow>
     (r = Inl TErrMarshal \<and> w1 = w) \<or>
     (\<exists>b. marshal recs = Some b \<and> (\<exists>e. save b w = (Inl e, w1) \<and> r = Inl (TErrSave e))) \<or>
     (\<exists>b u. marshal recs = Some b \<and> save b w = (Inr u, w1) \<and> r = Inr ())"
  by (auto simp: saveLocked_def split: option.splits prod.splits sum.splits)

section \<open>Create\<close>

lemma fresh_loop_ok:
  "fresh_loop rnd recs n k = Inr (tid, k') \<Longrightarrow>
     tid \<notin> R_ID ` set recs \<and> (\<exists>j raw. rnd j idBytes = Some raw \<and> tid = EncodeToString raw)"
proof (induction n arbitrary: k)
  case (Suc n)
  show ?case
  proof (cases "rnd k idBytes")
    case (Some raw)
    then show ?thesis
      using Suc by (cases "list_ex (\<lambda>r. R_ID r = EncodeToString raw) recs") (auto simp: list_ex_iff Let_def)
  qed (use Suc in auto)
qed simp

text \<open>
  A call of \<^const>\<open>tok_Create\<close>: it fails and the records stay, or it appends one record with a
  fresh id and a free, valid name.
\<close>

lemma tok_Create_cases:
  assumes "tok_Create marshal save rnd name ttl now s w = (res, s', w')"
  obtains (failed) e where "res = Inl e" "s' = s"
      "w' = w \<or> (\<exists>b e rec. marshal (ts_recs s @ [rec]) = Some b \<and> save b w = (Inl e, w'))"
  | (created) tid j raw k secretRaw rec b u where "tid \<notin> R_ID ` set (ts_recs s)" "rnd j idBytes = Some raw"
      "tid = EncodeToString raw" "rnd k secretBytes = Some secretRaw"
      "name \<notin> R_Name ` set (ts_recs s)" "tok_nameRE name"
      "rec = \<lparr>R_ID = tid, R_Name = name, R_SHA256 = hashSecret (EncodeToString secretRaw),
              R_CreatedAt = now, R_ExpiresAt = map_option (\<lambda>d. now + d) ttl, R_LastUsedAt = None\<rparr>"
      "res = Inr (Prefix @ tid @ ''_'' @ EncodeToString secretRaw, rec)"
      "s' = s\<lparr>ts_recs := ts_recs s @ [rec]\<rparr>"
      "marshal (ts_recs s @ [rec]) = Some b" "save b w = (Inr u, w')"
proof -
  note def = assms [unfolded tok_Create_def tok_ValidateName_def]
  show thesis
  proof (cases "tok_nameRE name \<and> \<not> list_ex (\<lambda>r. R_Name r = name) (ts_recs s)")
    case False
    then have "\<exists>e. res = Inl e \<and> s' = s \<and> w' = w" using def by (auto split: if_splits)
    then show thesis using failed by blast
  next
    case name: True
    show thesis
    proof (cases "freshIDLocked rnd (ts_recs s)")
      case (Inl e)
      then show thesis using def name by (intro failed) auto
    next
      case (Inr a)
      obtain tid k where a: "a = (tid, k)" by (cases a)
      show thesis
      proof (cases "rnd k secretBytes")
        case None
        then show thesis using def name Inr a by (intro failed) auto
      next
        case (Some secretRaw)
        define rec where "rec = \<lparr>R_ID = tid, R_Name = name, R_SHA256 = hashSecret (EncodeToString secretRaw),
              R_CreatedAt = now, R_ExpiresAt = map_option (\<lambda>d. now + d) ttl, R_LastUsedAt = None\<rparr>"
        obtain r1 w1 where sv: "saveLocked marshal save (ts_recs s @ [rec]) w = (r1, w1)"
          by (cases "saveLocked marshal save (ts_recs s @ [rec]) w")
        have run: "(res, s', w') = (case r1 of Inl e \<Rightarrow> (Inl e, s, w1)
            | Inr u \<Rightarrow> (Inr (Prefix @ tid @ ''_'' @ EncodeToString secretRaw, rec), s\<lparr>ts_recs := ts_recs s @ [rec]\<rparr>, w1))"
          using def name Inr a Some sv unfolding rec_def [symmetric]
          by (cases r1) (simp_all add: Let_def rec_def [symmetric])
        have fresh: "tid \<notin> R_ID ` set (ts_recs s)" "\<exists>j raw. rnd j idBytes = Some raw \<and> tid = EncodeToString raw"
          using fresh_loop_ok [of rnd "ts_recs s" 10 0 tid k] Inr a by (auto simp: freshIDLocked_def)
        show thesis
        proof (cases r1)
          case (Inl e)
          then show thesis
            using run saveLocked_cases [OF sv] by (intro failed) auto
        next
          case (Inr u)
          then obtain b v where "marshal (ts_recs s @ [rec]) = Some b" "save b w = (Inr v, w1)"
            using saveLocked_cases [OF sv] by auto
          moreover obtain j raw where "rnd j idBytes = Some raw" "tid = EncodeToString raw" using fresh(2) by blast
          ultimately show thesis
            using run Inr fresh(1) Some name rec_def
            by (intro created [of tid j raw k secretRaw rec b v]) (auto simp: list_ex_iff)
        qed
      qed
    qed
  qed
qed

section \<open>Revoke and Verify\<close>

lemma tok_Revoke_cases:
  assumes "tok_Revoke marshal save key s w = (res, s', w')"
  obtains (failed) e where "res = Inl e" "s' = s"
      "w' = w \<or> (\<exists>b e idx. marshal (take idx (ts_recs s) @ drop (Suc idx) (ts_recs s)) = Some b \<and> save b w = (Inl e, w'))"
  | (revoked) idx b u where "revoke_idx (ts_recs s) key = Some idx" "res = Inr ()"
      "ts_recs s' = take idx (ts_recs s) @ drop (Suc idx) (ts_recs s)"
      "marshal (ts_recs s') = Some b" "save b w = (Inr u, w')"
proof (cases "revoke_idx (ts_recs s) key")
  case None
  then show thesis using assms by (intro failed) (auto simp: tok_Revoke_def)
next
  case (Some idx)
  let ?nxt = "take idx (ts_recs s) @ drop (Suc idx) (ts_recs s)"
  obtain r1 w1 where sv: "saveLocked marshal save ?nxt w = (r1, w1)" by (cases "saveLocked marshal save ?nxt w")
  show thesis
  proof (cases r1)
    case (Inl e)
    then show thesis
      using assms Some sv saveLocked_cases [OF sv] by (intro failed [of e]) (auto simp: tok_Revoke_def)
  next
    case (Inr u)
    then obtain b v where "marshal ?nxt = Some b" "save b w = (Inr v, w1)" using saveLocked_cases [OF sv] by auto
    then show thesis
      using assms Some sv Inr by (intro revoked [of idx b v]) (auto simp: tok_Revoke_def)
  qed
qed

definition strip :: "token_rec \<Rightarrow> token_rec" where
  "strip r = r\<lparr>R_LastUsedAt := None\<rparr>"

lemma strip_fields [simp]: "R_ID (strip r) = R_ID r" "R_Name (strip r) = R_Name r"
    "R_SHA256 (strip r) = R_SHA256 r" "R_ExpiresAt (strip r) = R_ExpiresAt r"
  by (simp_all add: strip_def)

lemma strip_touch [simp]: "strip (r\<lparr>R_LastUsedAt := x\<rparr>) = strip r"
  by (simp add: strip_def)

lemma map_strip_touch: "map strip (xs[i := (xs ! i)\<lparr>R_LastUsedAt := x\<rparr>]) = map strip xs"
proof (rule nth_equalityI)
  fix j assume "j < length (map strip (xs[i := (xs ! i)\<lparr>R_LastUsedAt := x\<rparr>]))"
  then show "map strip (xs[i := (xs ! i)\<lparr>R_LastUsedAt := x\<rparr>]) ! j = map strip xs ! j"
    by (cases "j = i") simp_all
qed simp

text \<open>
  A call of \<^const>\<open>tok_Verify\<close>: the answer depends on the bearer value, the records and the
  time only, the records change at most in their time of last use, and a save, if there is one,
  writes the new records.
\<close>

definition accepts :: "token_rec list \<Rightarrow> string \<Rightarrow> time \<Rightarrow> nat option" where
  "accepts recs bearer now =
     (case parse_bearer bearer of
        None \<Rightarrow> None
      | Some (tid, secret) \<Rightarrow>
          (case find_idx (\<lambda>r. R_ID r = tid) recs of
             None \<Rightarrow> None
           | Some i \<Rightarrow>
               if hashSecret secret = R_SHA256 (recs ! i) \<and> \<not> expired_at (recs ! i) now then Some i else None))"

lemma accepts_lt: "accepts recs bearer now = Some i \<Longrightarrow> i < length recs"
  by (auto simp: accepts_def dest: find_idx_Some split: option.splits if_splits)

lemma tok_Verify_cases:
  assumes "tok_Verify marshal save bearer now s w = (res, s', w')"
  shows "case accepts (ts_recs s) bearer now of
      None \<Rightarrow> res = None \<and> s' = s \<and> w' = w
    | Some i \<Rightarrow>
        res = Some ((ts_recs s ! i)\<lparr>R_LastUsedAt := Some now\<rparr>) \<and>
        ts_recs s' = (ts_recs s)[i := (ts_recs s ! i)\<lparr>R_LastUsedAt := Some now\<rparr>] \<and>
        (w' = w \<or> (\<exists>b r. marshal (ts_recs s') = Some b \<and> save b w = (r, w'))) \<and>
        (\<forall>t. ts_lastSaved s (R_ID (ts_recs s ! i)) = Some t \<longrightarrow> now - t < touchInterval \<longrightarrow> w' = w)"
proof (cases "accepts (ts_recs s) bearer now")
  case None
  then show ?thesis
    using assms
    by (auto simp: tok_Verify_def accepts_def ConstantTimeCompare_def Let_def split: option.splits if_splits)
next
  case (Some i)
  define r1 where "r1 = (ts_recs s ! i)\<lparr>R_LastUsedAt := Some now\<rparr>"
  define s1 where "s1 = s\<lparr>ts_recs := (ts_recs s)[i := r1]\<rparr>"
  define due where "due = (case ts_lastSaved s (R_ID (ts_recs s ! i)) of None \<Rightarrow> True | Some saved \<Rightarrow> now - saved \<ge> touchInterval)"
  obtain r2 w2 where sv: "saveLocked marshal save (ts_recs s1) w = (r2, w2)" by (cases "saveLocked marshal save (ts_recs s1) w")
  have run: "(res, s', w') = (if due then (case r2 of Inl e \<Rightarrow> (Some r1, s1, w2)
      | Inr u \<Rightarrow> (Some r1, s1\<lparr>ts_lastSaved := (ts_lastSaved s1)(R_ID (ts_recs s ! i) \<mapsto> now)\<rparr>, w2)) else (Some r1, s1, w))"
    using assms Some sv unfolding accepts_def s1_def r1_def due_def
    by (auto simp: tok_Verify_def ConstantTimeCompare_def Let_def split: option.splits if_splits sum.splits)
  then have "res = Some r1 \<and> ts_recs s' = ts_recs s1 \<and> (w' = w \<or> due \<and> w' = w2)"
    by (auto split: if_splits sum.splits)
  then show ?thesis
    using Some saveLocked_cases [OF sv] by (auto simp: r1_def s1_def due_def)
qed

section \<open>The invariant is kept\<close>

lemma tokens_ok_strip: "map strip xs = map strip ys \<Longrightarrow> tokens_ok xs = tokens_ok ys"
proof -
  assume eq: "map strip xs = map strip ys"
  have "map R_ID xs = map R_ID ys" using arg_cong [OF eq, of "map R_ID"] by (simp add: comp_def)
  moreover have nm: "map R_Name xs = map R_Name ys" using arg_cong [OF eq, of "map R_Name"] by (simp add: comp_def)
  ultimately show ?thesis unfolding tokens_ok_def by (simp only:)
qed

lemma tokens_ok_Create:
  assumes "tok_Create marshal save rnd name ttl now s w = (res, s', w')" "tokens_ok (ts_recs s)"
  shows "tokens_ok (ts_recs s')"
  using assms(1) by (rule tok_Create_cases) (use assms(2) in \<open>auto simp: tokens_ok_def\<close>)

lemma tokens_ok_Revoke:
  assumes "tok_Revoke marshal save key s w = (res, s', w')" "tokens_ok (ts_recs s)"
  shows "tokens_ok (ts_recs s')"
  using assms(1)
proof (rule tok_Revoke_cases)
  fix idx b u
  assume recs: "ts_recs s' = take idx (ts_recs s) @ drop (Suc idx) (ts_recs s)"
  have "distinct xs \<Longrightarrow> distinct (take idx xs @ drop (Suc idx) xs)" for xs :: "string list"
    using set_take_disj_set_drop_if_distinct [of xs idx "Suc idx"] by auto
  from this [of "map R_ID (ts_recs s)"] this [of "map R_Name (ts_recs s)"] show ?thesis
    using assms(2) unfolding tokens_ok_def recs map_append take_map [symmetric] drop_map [symmetric]
    by (auto simp: list_all_iff dest!: in_set_takeD in_set_dropD)
qed (use assms(2) in auto)

lemma tok_Verify_strip:
  assumes "tok_Verify marshal save bearer now s w = (res, s', w')"
  shows "map strip (ts_recs s') = map strip (ts_recs s)"
  using tok_Verify_cases [OF assms] map_strip_touch by (cases "accepts (ts_recs s) bearer now") auto

lemma tokens_ok_Verify:
  assumes "tok_Verify marshal save bearer now s w = (res, s', w')" "tokens_ok (ts_recs s)"
  shows "tokens_ok (ts_recs s')"
  using tokens_ok_strip [OF tok_Verify_strip [OF assms(1)]] assms(2) by simp

section \<open>Memory and document agree\<close>

text \<open>What the YAML library promises: what it writes is not empty, and it reads it back.\<close>

definition yaml_ok :: "marshal_fn \<Rightarrow> unmarshal_fn \<Rightarrow> bool" where
  "yaml_ok marshal unmarshal \<longleftrightarrow>
     (\<forall>rs b. marshal rs = Some b \<longrightarrow> b \<noteq> [] \<and> unmarshal b = Some rs)"

text \<open>The document holds the records, up to their time of last use, which is saved less often.\<close>

definition doc_holds :: "unmarshal_fn \<Rightarrow> bytes option \<Rightarrow> token_rec list \<Rightarrow> bool" where
  "doc_holds unmarshal doc recs \<longleftrightarrow>
     (case doc of
        None \<Rightarrow> recs = []
      | Some b \<Rightarrow> if b = [] then recs = []
                  else \<exists>rs. unmarshal b = Some rs \<and> map strip rs = map strip recs)"

lemma doc_holds_strip:
  "doc_holds unmarshal doc recs \<Longrightarrow> map strip recs' = map strip recs \<Longrightarrow> doc_holds unmarshal doc recs'"
  by (auto simp: doc_holds_def split: option.splits if_splits)

lemma doc_holds_saved:
  "yaml_ok marshal unmarshal \<Longrightarrow> marshal recs = Some b \<Longrightarrow> doc_holds unmarshal (Some b) recs"
  by (auto simp: doc_holds_def yaml_ok_def)

text \<open>One operation of the daemon, or a restart of it.\<close>

inductive token_step ::
  "marshal_fn \<Rightarrow> unmarshal_fn \<Rightarrow> 'w load_fn \<Rightarrow> 'w save_fn \<Rightarrow> token_store \<times> 'w \<Rightarrow> token_store \<times> 'w \<Rightarrow> bool"
  for marshal unmarshal load save where
  create: "tok_Create marshal save rnd name ttl now s w = (res, s', w')
    \<Longrightarrow> token_step marshal unmarshal load save (s, w) (s', w')"
| revoke: "tok_Revoke marshal save key s w = (res, s', w')
    \<Longrightarrow> token_step marshal unmarshal load save (s, w) (s', w')"
| verify: "tok_Verify marshal save bearer now s w = (res, s', w')
    \<Longrightarrow> token_step marshal unmarshal load save (s, w) (s', w')"
| restart: "LoadFrom unmarshal load w = (Inr s', w')
    \<Longrightarrow> token_step marshal unmarshal load save (s, w) (s', w')"

context persistence
begin

lemma load_holds:
  assumes "LoadFrom unmarshal load w = (Inr s', w')" "doc_holds unmarshal (content w) recs"
  shows "map strip (ts_recs s') = map strip recs \<and> content w' = content w"
proof -
  obtain d w1 where ld: "load w = (Inr d, w1)"
    using assms(1) by (auto simp: LoadFrom_def split: prod.splits sum.splits)
  have "d = (case content w of None \<Rightarrow> [] | Some b \<Rightarrow> b)" "content w1 = content w"
    using load_reads [OF ld] load_keeps [OF ld] by simp_all
  then show ?thesis
    using assms ld by (auto simp: LoadFrom_def doc_holds_def split: option.splits if_splits)
qed

text \<open>Even where a failed save may have been applied, a reload sees the set before or after.\<close>

lemma create_atomic:
  assumes "tok_Create marshal save rnd name ttl now s w = (Inl e, s', w')" "yaml_ok marshal unmarshal"
    and "doc_holds unmarshal (content w) (ts_recs s)"
  shows "doc_holds unmarshal (content w') (ts_recs s) \<or> (\<exists>rec. doc_holds unmarshal (content w') (ts_recs s @ [rec]))"
  using assms(1)
proof (rule tok_Create_cases)
  assume "w' = w \<or> (\<exists>b e rec. marshal (ts_recs s @ [rec]) = Some b \<and> save b w = (Inl e, w'))"
  then show ?thesis
    using assms(2,3) save_atomic doc_holds_saved by (metis (no_types, lifting))
qed simp

end

context strict_persistence
begin

lemma saved_holds:
  "\<lbrakk>yaml_ok marshal unmarshal; marshal recs = Some b; save b w = (Inr u, w')\<rbrakk>
    \<Longrightarrow> doc_holds unmarshal (content w') recs"
  using save_ok doc_holds_saved by fastforce

lemma step_holds:
  assumes "token_step marshal unmarshal load save (s, w) (s', w')" "yaml_ok marshal unmarshal"
    and "doc_holds unmarshal (content w) (ts_recs s)" "tokens_ok (ts_recs s)"
  shows "doc_holds unmarshal (content w') (ts_recs s') \<and> tokens_ok (ts_recs s')"
  using assms(1)
proof cases
  case (create rnd name ttl now res)
  then have "doc_holds unmarshal (content w') (ts_recs s')"
    by (rule tok_Create_cases)
      (use assms(2,3) in \<open>auto dest: save_fail intro: saved_holds\<close>)
  then show ?thesis using tokens_ok_Create [OF create assms(4)] by simp
next
  case (revoke key res)
  then have "doc_holds unmarshal (content w') (ts_recs s')"
    by (rule tok_Revoke_cases)
      (use assms(2,3) in \<open>auto dest: save_fail intro: saved_holds\<close>)
  then show ?thesis using tokens_ok_Revoke [OF revoke assms(4)] by simp
next
  case (verify bearer now res)
  have "w' = w \<or> (\<exists>b r. marshal (ts_recs s') = Some b \<and> save b w = (r, w'))"
    using tok_Verify_cases [OF verify] by (auto split: option.splits)
  moreover have "content w' = content w \<or> content w' = Some b" if sv: "save b w = (r, w')" for b r
    using save_ok [of b w _ w'] save_fail [of b w _ w'] sv by (cases r) auto
  ultimately have "doc_holds unmarshal (content w') (ts_recs s')"
    using assms(2,3) tok_Verify_strip [OF verify] doc_holds_strip doc_holds_saved by metis
  then show ?thesis using tokens_ok_Verify [OF verify assms(4)] by simp
next
  case restart
  then have "map strip (ts_recs s') = map strip (ts_recs s)" "content w' = content w"
    using load_holds assms(3) by auto
  then show ?thesis using assms(3,4) doc_holds_strip tokens_ok_strip by metis
qed

lemma reach_holds:
  assumes "(token_step marshal unmarshal load save)\<^sup>*\<^sup>* a b" "yaml_ok marshal unmarshal"
    and "doc_holds unmarshal (content (snd a)) (ts_recs (fst a))" "tokens_ok (ts_recs (fst a))"
  shows "doc_holds unmarshal (content (snd b)) (ts_recs (fst b)) \<and> tokens_ok (ts_recs (fst b))"
  using assms(1)
proof (induction rule: rtranclp_induct)
  case (step b c)
  then show ?case using step_holds [of marshal unmarshal "fst b" "snd b" "fst c" "snd c"] assms(2) by simp
qed (use assms in simp)

end

section \<open>Which bearer values are accepted\<close>

lemma find_idx_map: "find_idx P (map f xs) = find_idx (\<lambda>x. P (f x)) xs"
  by (induction xs) auto

lemma accepts_strip:
  assumes "map strip xs = map strip ys"
  shows "accepts xs bearer now = accepts ys bearer now"
proof -
  have "find_idx (\<lambda>r. R_ID r = tid) xs = find_idx (\<lambda>r. R_ID r = tid) ys" for tid
    using arg_cong [OF assms, of "find_idx (\<lambda>r. R_ID r = tid)"] by (simp add: find_idx_map)
  moreover have "R_SHA256 (xs ! i) = R_SHA256 (ys ! i) \<and> expired_at (xs ! i) now = expired_at (ys ! i) now"
    if "i < length xs" for i
  proof -
    have "strip (xs ! i) = strip (ys ! i)"
      using arg_cong [OF assms, of "\<lambda>zs. zs ! i"] map_eq_imp_length_eq [OF assms] that by simp
    then have "R_SHA256 (strip (xs ! i)) = R_SHA256 (strip (ys ! i))" "R_ExpiresAt (strip (xs ! i)) = R_ExpiresAt (strip (ys ! i))"
      by simp_all
    then show ?thesis by (simp add: expired_at_def)
  qed
  moreover have "i < length xs" if "find_idx (\<lambda>r. R_ID r = tid) ys = Some i" for tid i
    using calculation(1) [of tid] that find_idx_Some by metis
  ultimately show ?thesis
    by (simp add: accepts_def split: option.splits prod.splits)
qed

lemma EncodeToString_no_underscore: "CHR ''_'' \<notin> set (EncodeToString b)"
proof -
  have "digit n \<noteq> CHR ''_''" for n using digit_in [of n] by auto
  then have "CHR ''_'' \<notin> set (hex_byte c)" for c unfolding hex_byte_def by (metis empty_iff empty_set set_ConsD)
  then show ?thesis by (auto simp: EncodeToString_def)
qed

lemma parse_bearer_eq:
  "parse_bearer bearer = Some (tid, secret) \<longleftrightarrow>
     bearer = Prefix @ tid @ ''_'' @ secret \<and> tid \<noteq> [] \<and> secret \<noteq> [] \<and> CHR ''_'' \<notin> set tid"
proof -
  have "parse_bearer bearer = Some (tid, secret) \<longleftrightarrow>
      (\<exists>rest. CutPrefix bearer Prefix = Some rest \<and> Cut rest (CHR ''_'') = Some (tid, secret) \<and> tid \<noteq> [] \<and> secret \<noteq> [])"
    by (auto simp: parse_bearer_def split: option.splits if_splits)
  then show ?thesis by (auto simp: CutPrefix_eq_Some Cut_eq_Some)
qed

lemma accepts_iff:
  assumes "tokens_ok recs"
  shows "accepts recs bearer now = Some i \<longleftrightarrow>
    i < length recs \<and> (\<exists>secret. parse_bearer bearer = Some (R_ID (recs ! i), secret) \<and>
      hashSecret secret = R_SHA256 (recs ! i)) \<and> \<not> expired_at (recs ! i) now"
proof -
  have dist: "distinct (map R_ID recs)" using assms by (simp add: tokens_ok_def)
  have "find_idx (\<lambda>r. R_ID r = R_ID (recs ! i)) recs = Some i" if i: "i < length recs"
  proof -
    obtain j where "find_idx (\<lambda>r. R_ID r = R_ID (recs ! i)) recs = Some j" "j < length recs" "recs ! j = recs ! i"
      using find_idx_unique [OF dist nth_mem [OF i]] by auto
    then show ?thesis using dist i by (metis distinct_map nth_eq_iff_index_eq)
  qed
  then show ?thesis
    by (auto simp: accepts_def dest: find_idx_Some split: option.splits prod.splits if_splits)
qed

section \<open>A sample token document\<close>

text \<open>A concrete codec, to show that the assumptions about the YAML library can hold.\<close>

definition enc_str :: "string \<Rightarrow> string" where
  "enc_str s = concat (map (\<lambda>c. [CHR ''-'', c]) s) @ ''.''"

fun dec_str :: "string \<Rightarrow> (string \<times> string) option" where
  "dec_str (a # b # r) =
     (if a = CHR ''.'' then Some ([], b # r)
      else case dec_str r of None \<Rightarrow> None | Some (s, r') \<Rightarrow> Some (b # s, r'))"
| "dec_str [a] = (if a = CHR ''.'' then Some ([], []) else None)"
| "dec_str [] = None"

fun dec_nat_unary :: "string \<Rightarrow> nat \<times> string" where
  "dec_nat_unary (c # r) = (if c = CHR ''i'' then (let (n, r') = dec_nat_unary r in (Suc n, r')) else (0, r))"
| "dec_nat_unary [] = (0, [])"

definition enc_time :: "int \<Rightarrow> string" where
  "enc_time i = (if i < 0 then ''-'' else ''+'') @ replicate (nat \<bar>i\<bar>) (CHR ''i'') @ ''.''"

fun dec_time :: "string \<Rightarrow> (int \<times> string) option" where
  "dec_time (c # r) = (let (n, r') = dec_nat_unary r in Some (if c = CHR ''-'' then - int n else int n, r'))"
| "dec_time [] = None"

definition enc_opt :: "int option \<Rightarrow> string" where
  "enc_opt x = (case x of None \<Rightarrow> ''n'' | Some t \<Rightarrow> ''s'' @ enc_time t)"

fun dec_opt :: "string \<Rightarrow> (int option \<times> string) option" where
  "dec_opt (c # r) = (if c = CHR ''n'' then Some (None, r) else map_option (\<lambda>(t, r'). (Some t, r')) (dec_time r))"
| "dec_opt [] = None"

definition enc_rec :: "token_rec \<Rightarrow> string" where
  "enc_rec r = enc_str (R_ID r) @ enc_str (R_Name r) @ enc_str (R_SHA256 r) @ enc_time (R_CreatedAt r) @
     enc_opt (R_ExpiresAt r) @ enc_opt (R_LastUsedAt r)"

definition dec_rec :: "string \<Rightarrow> (token_rec \<times> string) option" where
  "dec_rec s0 =
     (case dec_str s0 of None \<Rightarrow> None | Some (a, s1) \<Rightarrow>
      case dec_str s1 of None \<Rightarrow> None | Some (b, s2) \<Rightarrow>
      case dec_str s2 of None \<Rightarrow> None | Some (c, s3) \<Rightarrow>
      case dec_time s3 of None \<Rightarrow> None | Some (d, s4) \<Rightarrow>
      case dec_opt s4 of None \<Rightarrow> None | Some (x, s5) \<Rightarrow>
      case dec_opt s5 of None \<Rightarrow> None | Some (y, s6) \<Rightarrow>
        Some (\<lparr>R_ID = a, R_Name = b, R_SHA256 = c, R_CreatedAt = d, R_ExpiresAt = x, R_LastUsedAt = y\<rparr>, s6))"

definition sample_marshal :: marshal_fn where
  "sample_marshal rs = Some (replicate (length rs) (CHR ''i'') @ ''.'' @ concat (map enc_rec rs))"

fun dec_recs :: "nat \<Rightarrow> string \<Rightarrow> token_rec list option" where
  "dec_recs 0 s = Some []"
| "dec_recs (Suc n) s = (case dec_rec s of None \<Rightarrow> None | Some (r, s') \<Rightarrow> map_option (\<lambda>rs. r # rs) (dec_recs n s'))"

definition sample_unmarshal :: unmarshal_fn where
  "sample_unmarshal s = (let (n, r) = dec_nat_unary s in dec_recs n r)"

lemma dec_enc_str [simp]: "dec_str (enc_str s @ r) = Some (s, r)"
proof (induction s)
  case Nil
  then show ?case by (cases r) (auto simp: enc_str_def)
qed (auto simp: enc_str_def)

lemma dec_enc_unary [simp]: "dec_nat_unary (replicate n (CHR ''i'') @ CHR ''.'' # r) = (n, r)"
  by (induction n) auto

lemma dec_enc_time [simp]: "dec_time (enc_time i @ r) = Some (i, r)"
  by (simp add: enc_time_def)

lemma dec_enc_opt [simp]: "dec_opt (enc_opt x @ r) = Some (x, r)"
  by (cases x) (simp_all add: enc_opt_def)

lemma dec_enc_rec [simp]: "dec_rec (enc_rec x @ r) = Some (x, r)"
  by (simp add: enc_rec_def dec_rec_def)

lemma sample_yaml_ok: "yaml_ok sample_marshal sample_unmarshal"
proof -
  have "dec_recs (length rs) (concat (map enc_rec rs)) = Some rs" for rs
    by (induction rs) auto
  then show ?thesis by (simp add: yaml_ok_def sample_marshal_def sample_unmarshal_def)
qed

definition sample_token :: token_rec where
  "sample_token = \<lparr>R_ID = ''0a0b0c0d'', R_Name = ''ci'', R_SHA256 = ''f00d'', R_CreatedAt = 0,
     R_ExpiresAt = Some 5, R_LastUsedAt = None\<rparr>"

definition token_world :: world where
  "token_world = \<lparr>w_fs = Folder 0 [(''cfg'', Folder 0
     [(''tokens.yaml'', File (the (sample_marshal [sample_token])) 0)])], w_tick = 0\<rparr>"

definition quiet :: env where
  "quiet = \<lparr>env_now = (\<lambda>k. int k), env_fault = (\<lambda>k. False), env_partial = (\<lambda>k n. None), env_suffix = (\<lambda>k. [''1''])\<rparr>"

section \<open>Properties\<close>

lemma Verify_accepts:
  "fst (tok_Verify marshal save bearer now s w) =
     map_option (\<lambda>i. (ts_recs s ! i)\<lparr>R_LastUsedAt := Some now\<rparr>) (accepts (ts_recs s) bearer now)"
proof -
  obtain res s' w' where run: "tok_Verify marshal save bearer now s w = (res, s', w')" by (metis prod.exhaust)
  show ?thesis using tok_Verify_cases [OF run] run by (auto split: option.splits)
qed

text \<open>
  C11: Exactly which bearer values \<^verbatim>\<open>Verify\<close> accepts: the prefix, the id of a stored token and a
  secret that hashes to the stored hash, before or at the token's deadline.  Whether the
  persistence can be written does not matter.
\<close>

theorem Verify_exact:
  assumes "tokens_ok (ts_recs s)"
  shows "fst (tok_Verify marshal save bearer now s w) = Some r \<longleftrightarrow>
    (\<exists>r0 secret. r0 \<in> set (ts_recs s) \<and> r = r0\<lparr>R_LastUsedAt := Some now\<rparr> \<and>
       bearer = Prefix @ R_ID r0 @ ''_'' @ secret \<and> R_ID r0 \<noteq> [] \<and> CHR ''_'' \<notin> set (R_ID r0) \<and> secret \<noteq> [] \<and>
       hashSecret secret = R_SHA256 r0 \<and> (\<forall>t. R_ExpiresAt r0 = Some t \<longrightarrow> now \<le> t))"
  unfolding Verify_accepts
proof
  assume "map_option (\<lambda>i. (ts_recs s ! i)\<lparr>R_LastUsedAt := Some now\<rparr>) (accepts (ts_recs s) bearer now) = Some r"
  then obtain i where i: "accepts (ts_recs s) bearer now = Some i" "r = (ts_recs s ! i)\<lparr>R_LastUsedAt := Some now\<rparr>" by auto
  then show "\<exists>r0 secret. r0 \<in> set (ts_recs s) \<and> r = r0\<lparr>R_LastUsedAt := Some now\<rparr> \<and>
       bearer = Prefix @ R_ID r0 @ ''_'' @ secret \<and> R_ID r0 \<noteq> [] \<and> CHR ''_'' \<notin> set (R_ID r0) \<and> secret \<noteq> [] \<and>
       hashSecret secret = R_SHA256 r0 \<and> (\<forall>t. R_ExpiresAt r0 = Some t \<longrightarrow> now \<le> t)"
    using accepts_iff [OF assms, of bearer now i] unfolding parse_bearer_eq
    by (intro exI [of _ "ts_recs s ! i"]) (auto simp: expired_at_def split: option.splits)
next
  assume "\<exists>r0 secret. r0 \<in> set (ts_recs s) \<and> r = r0\<lparr>R_LastUsedAt := Some now\<rparr> \<and>
       bearer = Prefix @ R_ID r0 @ ''_'' @ secret \<and> R_ID r0 \<noteq> [] \<and> CHR ''_'' \<notin> set (R_ID r0) \<and> secret \<noteq> [] \<and>
       hashSecret secret = R_SHA256 r0 \<and> (\<forall>t. R_ExpiresAt r0 = Some t \<longrightarrow> now \<le> t)"
  then obtain r0 secret where r0: "r0 \<in> set (ts_recs s)" "r = r0\<lparr>R_LastUsedAt := Some now\<rparr>"
      "parse_bearer bearer = Some (R_ID r0, secret)" "hashSecret secret = R_SHA256 r0"
      and live: "\<forall>t. R_ExpiresAt r0 = Some t \<longrightarrow> now \<le> t"
    unfolding parse_bearer_eq by blast
  have "\<not> expired_at r0 now" using live by (auto simp: expired_at_def split: option.splits)
  note r0 = r0 this
  obtain i where "i < length (ts_recs s)" "ts_recs s ! i = r0" using r0(1) by (metis in_set_conv_nth)
  then show "map_option (\<lambda>i. (ts_recs s ! i)\<lparr>R_LastUsedAt := Some now\<rparr>) (accepts (ts_recs s) bearer now) = Some r"
    using accepts_iff [OF assms, of bearer now i] r0 by auto
qed

definition hashed_token :: token_rec where
  "hashed_token = sample_token\<lparr>R_SHA256 := hashSecret ''beef''\<rparr>"

lemma sample_tokens_ok: "tokens_ok [hashed_token]" "tokens_ok [sample_token]"
  by (simp_all add: tokens_ok_def hashed_token_def sample_token_def tok_nameRE_def lower_alnum_def less_eq_char_def)

theorem Verify_exact_witness:
  "fst (tok_Verify sample_marshal (\<lambda>b w. (Inr (), w)) ''crate_0a0b0c0d_beef'' 5
      \<lparr>ts_recs = [hashed_token], ts_lastSaved = (\<lambda>_. None)\<rparr> ()) = Some (hashed_token\<lparr>R_LastUsedAt := Some 5\<rparr>)"
  using Verify_exact [of "\<lparr>ts_recs = [hashed_token], ts_lastSaved = (\<lambda>_. None)\<rparr>" sample_marshal "\<lambda>b w. (Inr (), w)"
      "''crate_0a0b0c0d_beef''" 5 "()" "hashed_token\<lparr>R_LastUsedAt := Some 5\<rparr>"] sample_tokens_ok(1)
  by (simp add: hashed_token_def sample_token_def Prefix_def)

text \<open>
  C14: A token that \<^verbatim>\<open>Create\<close> hands out is accepted by \<^verbatim>\<open>Verify\<close> up to and including its
  deadline, and not after it.
\<close>

theorem Create_Verify:
  assumes "tok_Create marshal save rnd name ttl now s w = (Inr (plaintext, rec), s', w')"
    and "tokens_ok (ts_recs s)" and "\<forall>k n raw. rnd k n = Some raw \<longrightarrow> length raw = n"
  shows "fst (tok_Verify marshal save plaintext t s' v) =
    (if \<exists>d. ttl = Some d \<and> now + d < t then None else Some (rec\<lparr>R_LastUsedAt := Some t\<rparr>))"
  using assms(1)
proof (rule tok_Create_cases)
  fix tid j raw k secretRaw rec' b u
  assume tid: "rnd j idBytes = Some raw" "tid = EncodeToString raw" "rnd k secretBytes = Some secretRaw"
    and rec': "rec' = \<lparr>R_ID = tid, R_Name = name, R_SHA256 = hashSecret (EncodeToString secretRaw),
              R_CreatedAt = now, R_ExpiresAt = map_option (\<lambda>d. now + d) ttl, R_LastUsedAt = None\<rparr>"
    and res: "Inr (plaintext, rec) = Inr (Prefix @ tid @ ''_'' @ EncodeToString secretRaw, rec')"
    and s': "s' = s\<lparr>ts_recs := ts_recs s @ [rec']\<rparr>"
  have len: "length tid = 8" "length (EncodeToString secretRaw) = 64"
    using assms(3) tid by (auto simp: idBytes_def secretBytes_def)
  have "tid \<noteq> []" "EncodeToString secretRaw \<noteq> []" using len by (metis list.size(3) zero_neq_numeral)+
  then have pb: "parse_bearer plaintext = Some (tid, EncodeToString secretRaw)"
    using res tid EncodeToString_no_underscore [of raw] unfolding parse_bearer_eq by simp
  have ok: "tokens_ok (ts_recs s')" using tokens_ok_Create [OF assms(1,2)] .
  have last: "ts_recs s' ! length (ts_recs s) = rec'" by (simp add: s')
  have "find_idx (\<lambda>r. R_ID r = tid) (ts_recs s') = Some (length (ts_recs s))"
  proof -
    have "rec' \<in> set (ts_recs s')" "R_ID rec' = tid" by (simp_all add: s' rec')
    then obtain i where i: "find_idx (\<lambda>r. R_ID r = tid) (ts_recs s') = Some i" "i < length (ts_recs s')" "ts_recs s' ! i = rec'"
      using find_idx_unique [of "ts_recs s'" rec'] ok by (auto simp: tokens_ok_def)
    then have "i = length (ts_recs s)"
      using ok last distinct_map [of R_ID "ts_recs s'"] nth_eq_iff_index_eq [of "ts_recs s'" i "length (ts_recs s)"]
      by (simp add: tokens_ok_def s')
    then show ?thesis using i by simp
  qed
  then show ?thesis
    using pb last res unfolding Verify_accepts
    by (auto simp: accepts_def rec' expired_at_def split: option.splits)
qed simp

definition sample_rand :: rand_fn where
  "sample_rand k n = Some (replicate n (CHR ''a''))"

theorem Create_Verify_witness:
  "\<exists>plaintext rec s' w'.
     tok_Create sample_marshal (\<lambda>b w. (Inr (), w)) sample_rand ''ci'' (Some 10) 0 \<lparr>ts_recs = [], ts_lastSaved = (\<lambda>_. None)\<rparr> ()
       = (Inr (plaintext, rec), s', w') \<and>
     fst (tok_Verify sample_marshal (\<lambda>b w. (Inr (), w)) plaintext 10 s' ()) = Some (rec\<lparr>R_LastUsedAt := Some 10\<rparr>)"
proof -
  let ?s = "\<lparr>ts_recs = [], ts_lastSaved = (\<lambda>_. None)\<rparr>"
  obtain plaintext rec s' w' where run:
    "tok_Create sample_marshal (\<lambda>b w. (Inr (), w)) sample_rand ''ci'' (Some 10) 0 ?s () = (Inr (plaintext, rec), s', w')"
    by (simp add: tok_Create_def tok_ValidateName_def tok_nameRE_def lower_alnum_def less_eq_char_def freshIDLocked_def
        sample_rand_def saveLocked_def sample_marshal_def eval_nat_numeral Let_def)
  have "tokens_ok (ts_recs ?s)" by (simp add: tokens_ok_def)
  moreover have "\<forall>k n raw. sample_rand k n = Some raw \<longrightarrow> length raw = n" by (auto simp: sample_rand_def)
  ultimately show ?thesis using Create_Verify [OF run, of 10 "()"] run by auto
qed

text \<open>
  C13: A successful \<^verbatim>\<open>Revoke\<close> removes exactly one token, one that has the given id or name,
  and no bearer value with its id is accepted any more.
\<close>

theorem Revoke_effective:
  assumes "tok_Revoke marshal save key s w = (Inr (), s', w')" and "tokens_ok (ts_recs s)"
  shows "\<exists>r \<in> set (ts_recs s). (R_ID r = key \<or> R_Name r = key) \<and> set (ts_recs s') = set (ts_recs s) - {r} \<and>
    (\<forall>bearer secret now v. parse_bearer bearer = Some (R_ID r, secret) \<longrightarrow>
       fst (tok_Verify marshal save bearer now s' v) = None)"
  using assms(1)
proof (rule tok_Revoke_cases)
  fix idx b u
  assume idx: "revoke_idx (ts_recs s) key = Some idx"
    and recs: "ts_recs s' = take idx (ts_recs s) @ drop (Suc idx) (ts_recs s)"
  let ?r = "ts_recs s ! idx"
  have lt: "idx < length (ts_recs s)" and hit: "R_ID ?r = key \<or> R_Name ?r = key"
    using idx find_idx_Some by (fastforce simp: revoke_idx_def split: option.splits)+
  note split = drop_nth_split [OF lt]
  have dist: "distinct (map R_ID (ts_recs s))" using assms(2) by (simp add: tokens_ok_def)
  have gone: "R_ID ?r \<notin> R_ID ` set (ts_recs s')" and set: "set (ts_recs s') = set (ts_recs s) - {?r}"
  proof -
    have d: "distinct (map R_ID (take idx (ts_recs s) @ ?r # drop (Suc idx) (ts_recs s)))" using dist split by simp
    then show "R_ID ?r \<notin> R_ID ` set (ts_recs s')" unfolding recs by auto
    have "set (ts_recs s) = insert ?r (set (ts_recs s'))" unfolding recs using arg_cong [OF split, of set] by auto
    then show "set (ts_recs s') = set (ts_recs s) - {?r}" using d unfolding recs by auto
  qed
  have "find_idx (\<lambda>r. R_ID r = R_ID ?r) (ts_recs s') = None"
    using gone unfolding find_idx_None by (metis imageI)
  then have "fst (tok_Verify marshal save bearer now s' v) = None"
    if "parse_bearer bearer = Some (R_ID ?r, secret)" for bearer secret now v
    using that by (simp add: Verify_accepts accepts_def)
  then show ?thesis using lt hit set by (intro bexI [of _ ?r]) auto
qed simp

theorem Revoke_effective_witness:
  "\<exists>s' w'. tok_Revoke sample_marshal (FileStore_Save quiet [''cfg'', ''tokens.yaml'']) ''ci''
      \<lparr>ts_recs = [sample_token], ts_lastSaved = (\<lambda>_. None)\<rparr> token_world = (Inr (), s', w') \<and>
     set (ts_recs s') = set [sample_token] - {sample_token}"
proof -
  let ?run = "tok_Revoke sample_marshal (FileStore_Save quiet [''cfg'', ''tokens.yaml'']) ''ci''
      \<lparr>ts_recs = [sample_token], ts_lastSaved = (\<lambda>_. None)\<rparr> token_world"
  have "fst ?run = Inr ()" by code_simp
  then obtain s' w' where run: "?run = (Inr (), s', w')" by (metis prod.collapse)
  from Revoke_effective [OF this] show ?thesis using run sample_tokens_ok(2) by auto
qed

text \<open>
  C12: A restart at any point reads back the tokens the daemon held: from the moment the store
  was loaded, after any sequence of creations, revocations, verifications and restarts, with
  any of the writes failing, reloading gives the same records up to their time of last use, so it
  accepts exactly the same bearer values; and ids and names stay unique.
\<close>

theorem token_restart:
  assumes "yaml_ok marshal unmarshal"
    and "LoadFrom unmarshal (FileStore_Load e (dir @ [f])) w0 = (Inr s0, w1)" "tokens_ok (ts_recs s0)"
    and "(token_step marshal unmarshal (FileStore_Load e (dir @ [f])) (FileStore_Save e (dir @ [f])))\<^sup>*\<^sup>* (s0, w1) (s, w)"
    and "LoadFrom unmarshal (FileStore_Load e (dir @ [f])) w = (Inr s', w')"
  shows "map strip (ts_recs s') = map strip (ts_recs s) \<and> tokens_ok (ts_recs s') \<and>
    (\<forall>bearer now v v'. (fst (tok_Verify marshal save bearer now s' v) = None) =
       (fst (tok_Verify marshal save bearer now s v') = None))"
proof -
  have "doc_holds unmarshal (file_at (w_fs w1) (dir @ [f])) (ts_recs s0)"
  proof -
    obtain d w2 where ld: "FileStore_Load e (dir @ [f]) w0 = (Inr d, w2)"
      using assms(2) by (auto simp: LoadFrom_def split: prod.splits sum.splits)
    then show ?thesis
      using assms(2) disk.load_reads [OF ld] disk.load_keeps [OF ld]
      by (auto simp: LoadFrom_def doc_holds_def split: if_splits option.splits)
  qed
  from disk.reach_holds [OF assms(4,1)] this assms(3)
  have "doc_holds unmarshal (file_at (w_fs w) (dir @ [f])) (ts_recs s)" "tokens_ok (ts_recs s)" by simp_all
  then have strip: "map strip (ts_recs s') = map strip (ts_recs s)" "tokens_ok (ts_recs s')"
    using disk.load_holds [OF assms(5)] tokens_ok_strip by metis+
  then show ?thesis using accepts_strip [OF strip(1)] by (auto simp: Verify_accepts)
qed

theorem token_restart_witness:
  "\<exists>s w s' w'. snd (tok_Revoke sample_marshal (FileStore_Save quiet ([''cfg''] @ [''tokens.yaml''])) ''ci''
      \<lparr>ts_recs = [sample_token], ts_lastSaved = load_saved [sample_token]\<rparr> (token_world\<lparr>w_tick := 1\<rparr>)) = (s, w) \<and>
     LoadFrom sample_unmarshal (FileStore_Load quiet ([''cfg''] @ [''tokens.yaml''])) w = (Inr s', w') \<and>
     map strip (ts_recs s') = map strip (ts_recs s) \<and> ts_recs s = []"
proof -
  let ?s0 = "\<lparr>ts_recs = [sample_token], ts_lastSaved = load_saved [sample_token]\<rparr>"
  let ?w1 = "token_world\<lparr>w_tick := 1\<rparr>"
  let ?load = "FileStore_Load quiet ([''cfg''] @ [''tokens.yaml''])"
  let ?save = "FileStore_Save quiet ([''cfg''] @ [''tokens.yaml''])"
  have un: "sample_unmarshal (the (sample_marshal [sample_token])) = Some [sample_token]"
      "the (sample_marshal [sample_token]) \<noteq> []"
    by code_simp+
  have start: "LoadFrom sample_unmarshal ?load token_world = (Inr ?s0, ?w1)"
    using un by (simp add: LoadFrom_def FileStore_Load_def os_ReadFile_def sys_def quiet_def token_world_def)
  obtain r s w where run: "tok_Revoke sample_marshal ?save ''ci'' ?s0 ?w1 = (r, s, w)" by (metis prod.exhaust)
  have step: "(token_step sample_marshal sample_unmarshal ?load ?save)\<^sup>*\<^sup>* (?s0, ?w1) (s, w)"
    using token_step.revoke [OF run] by blast
  have "case LoadFrom sample_unmarshal ?load (snd (snd (tok_Revoke sample_marshal ?save ''ci'' ?s0 ?w1))) of
      (Inl e, w') \<Rightarrow> False | (Inr s', w') \<Rightarrow> True"
    by code_simp
  then obtain s' w' where again: "LoadFrom sample_unmarshal ?load w = (Inr s', w')"
    using run by (auto split: prod.splits sum.splits)
  have "ts_recs (fst (snd (tok_Revoke sample_marshal ?save ''ci'' ?s0 ?w1))) = []" by code_simp
  moreover have "tokens_ok (ts_recs ?s0)" using sample_tokens_ok(2) by simp
  ultimately show ?thesis
    using token_restart [OF sample_yaml_ok start _ step again] run again by auto
qed

text \<open>
  A token in steady use does not rewrite the document on every request: within
  \<^verbatim>\<open>touchInterval\<close> of the last saved use nothing is written, and yet the time of last use in
  memory is the present.
\<close>

lemma Verify_throttled:
  assumes "tok_Verify marshal save bearer now s w = (Some r, s', w')"
    and "ts_lastSaved s (R_ID r) = Some t" "now - t < touchInterval"
  shows "w' = w \<and> R_LastUsedAt r = Some now \<and> r \<in> set (ts_recs s')"
proof -
  obtain i where i: "accepts (ts_recs s) bearer now = Some i"
    using tok_Verify_cases [OF assms(1)] by (cases "accepts (ts_recs s) bearer now") auto
  then have "i < length (ts_recs s)" by (rule accepts_lt)
  then show ?thesis
    using tok_Verify_cases [OF assms(1)] i assms(2,3) by (auto simp: set_update_memI)
qed

end
