(* ===== verification/Go_Duration.thy ===== *)
theory Go_Duration
  imports Go_Prelude
begin

text \<open>
  \<^verbatim>\<open>time.ParseDuration\<close> of Go's standard library, which the daemon applies to the expiry header
  and to the lifetime of a token, and the rounding of double-precision numbers it and the size
  labels of the index use.  Unsigned 64-bit arithmetic is on integers with the overflow
  tests of the library and the wrap-around of its one unchecked addition written out.
\<close>

section \<open>Double-precision numbers\<close>

function bits :: "int \<Rightarrow> int" where
  "bits n = (if n \<le> 0 then 0 else 1 + bits (n div 2))"
  by pat_completeness auto
termination
  by (relation "measure nat") auto

declare bits.simps [simp del]

text \<open>Division rounded to the nearest integer, ties to even.\<close>

definition div_even :: "int \<Rightarrow> int \<Rightarrow> int" where
  "div_even p q =
     (let d = p div q; r = p mod q
      in if 2 * r < q then d else if 2 * r > q then d + 1 else if even d then d else d + 1)"

text \<open>
  The double nearest to \<^verbatim>\<open>p / q\<close>, as a fraction: 53 significant bits, no underflow or overflow
  in the ranges used here.
\<close>

definition fl :: "int \<Rightarrow> int \<Rightarrow> int \<times> int" where
  "fl p q =
     (if p = 0 then (0, 1)
      else let e0 = bits p - bits q - 53;
               scale = (\<lambda>e. (p * 2 ^ nat (- e), q * 2 ^ nat e));
               (a, b) = scale e0;
               e = (if a \<ge> b * 2 ^ 53 then e0 + 1 else e0);
               (a, b) = scale e
           in (div_even a b * 2 ^ nat e, 2 ^ nat (- e)))"

section \<open>Parsing\<close>

definition is_dec :: "char \<Rightarrow> bool" where
  "is_dec c = (CHR ''0'' \<le> c \<and> c \<le> CHR ''9'')"

definition dec_val :: "char \<Rightarrow> int" where
  "dec_val c = of_char c - 48"

text \<open>\<^verbatim>\<open>leadingInt\<close>: the value and the rest, or an overflow.\<close>

fun leadingInt :: "int \<Rightarrow> string \<Rightarrow> (int \<times> string) option" where
  "leadingInt x [] = Some (x, [])"
| "leadingInt x (c # s) =
     (if \<not> is_dec c then Some (x, c # s)
      else if x > 2 ^ 63 div 10 then None
      else let y = x * 10 + dec_val c in if y > 2 ^ 63 then None else leadingInt y s)"

text \<open>\<^verbatim>\<open>leadingFraction\<close>: digits beyond the precision are consumed and ignored.\<close>

fun leadingFraction :: "int \<Rightarrow> int \<Rightarrow> bool \<Rightarrow> string \<Rightarrow> int \<times> int \<times> string" where
  "leadingFraction x scale overflow [] = (x, scale, [])"
| "leadingFraction x scale overflow (c # s) =
     (if \<not> is_dec c then (x, scale, c # s)
      else if overflow then leadingFraction x scale overflow s
      else if x > (2 ^ 63 - 1) div 10 then leadingFraction x scale True s
      else let y = x * 10 + dec_val c
           in if y > 2 ^ 63 then leadingFraction x scale True s
              else leadingFraction y (scale * 10) overflow s)"

definition unitMap :: "string \<Rightarrow> int option" where
  "unitMap u = map_of
     [(''ns'', 1), (''us'', 10 ^ 3), ([CHR 0xC2, CHR 0xB5, CHR ''s''], 10 ^ 3), ([CHR 0xCE, CHR 0xBC, CHR ''s''], 10 ^ 3),
      (''ms'', 10 ^ 6), (''s'', 10 ^ 9), (''m'', 60 * 10 ^ 9), (''h'', 3600 * 10 ^ 9)] u"

text \<open>One group: number, optional fraction, unit.  The value in nanoseconds and the rest.\<close>

definition parse_group :: "string \<Rightarrow> (int \<times> string) option" where
  "parse_group s =
     (case s of
        [] \<Rightarrow> None
      | c # cs \<Rightarrow>
          if \<not> (c = CHR ''.'' \<or> is_dec c) then None
          else case leadingInt 0 s of
            None \<Rightarrow> None
          | Some (v, s1) \<Rightarrow>
              (let pre = (length s \<noteq> length s1);
                   (f, scale, s2, post) =
                     (case s1 of
                        [] \<Rightarrow> (0, 1, s1, False)
                      | d # ds \<Rightarrow>
                          if d = CHR ''.''
                          then (let (f, scale, s2) = leadingFraction 0 1 False ds in (f, scale, s2, length ds \<noteq> length s2))
                          else (0, 1, s1, False))
               in if \<not> pre \<and> \<not> post then None
                  else let u = takeWhile (\<lambda>c. \<not> (c = CHR ''.'' \<or> is_dec c)) s2; s3 = drop (length u) s2
                       in if u = [] then None
                          else case unitMap u of
                            None \<Rightarrow> None
                          | Some unit \<Rightarrow>
                              if v > 2 ^ 63 div unit then None
                              else let v1 = v * unit;
                                       v2 = (if f > 0
                                             then (let (fa, fb) = fl f 1; (ua, ub) = fl unit scale; (a, b) = fl (fa * ua) (fb * ub)
                                                   in v1 + a div b)
                                             else v1)
                                   in if f > 0 \<and> v2 > 2 ^ 63 then None else Some (v2, s3)))"

lemma leadingInt_rest: "leadingInt x s = Some (v, s') \<Longrightarrow> length s' \<le> length s"
  by (induction x s rule: leadingInt.induct) (auto simp: Let_def split: if_splits)

lemma leadingFraction_rest: "leadingFraction x sc ov s = (f, sc', s') \<Longrightarrow> length s' \<le> length s"
  by (induction x sc ov s rule: leadingFraction.induct) (auto simp: Let_def split: if_splits)

lemma parse_group_shorter:
  assumes "parse_group s = Some (v, s')"
  shows "length s' < length s"
proof -
  obtain c cs where s: "s = c # cs" using assms by (cases s) (auto simp: parse_group_def)
  obtain v0 s1 where l: "leadingInt 0 s = Some (v0, s1)"
    using assms by (auto simp: parse_group_def s split: if_splits option.splits)
  define q where "q = (case s1 of [] \<Rightarrow> (0, 1, s1, False) | d # ds \<Rightarrow>
      if d = CHR ''.'' then (let (f, scale, s2) = leadingFraction 0 1 False ds in (f, scale, s2, length ds \<noteq> length s2))
      else (0 :: int, 1 :: int, s1, False))"
  obtain f sc s2 post where q: "q = (f, sc, s2, post)" by (metis prod.exhaust)
  have "length s2 \<le> length s1"
    using q leadingFraction_rest by (fastforce simp: q_def split: list.splits if_splits prod.splits)
  then have s2: "length s2 \<le> length s" using leadingInt_rest [OF l] by simp
  let ?u = "takeWhile (\<lambda>c. \<not> (c = CHR ''.'' \<or> is_dec c)) s2"
  have "?u \<noteq> [] \<and> s' = drop (length ?u) s2"
    using assms l unfolding parse_group_def s list.case
    by (auto simp: Let_def q_def [symmetric] q simp flip: s split: if_splits option.splits prod.splits)
  then have "length s' < length s2 \<or> length s2 < length ?u" by (cases s2) auto
  then show ?thesis using s2 length_takeWhile_le [of _ s2] by (metis leD order_less_le_trans)
qed

text \<open>The loop; the sum is a 64-bit unsigned number.\<close>

function parse_groups :: "int \<Rightarrow> string \<Rightarrow> int option" where
  "parse_groups d s =
     (if s = [] then Some d
      else case parse_group s of
        None \<Rightarrow> None
      | Some (v, s1) \<Rightarrow> (let d1 = (d + v) mod 2 ^ 64 in if d1 > 2 ^ 63 then None else parse_groups d1 s1))"
  by pat_completeness auto
termination
  by (relation "measure (\<lambda>(d, s). length s)") (auto dest: parse_group_shorter)

declare parse_groups.simps [simp del]

definition ParseDuration :: "string \<Rightarrow> duration option" where
  "ParseDuration orig =
     (let (neg, s) =
        (case orig of
           [] \<Rightarrow> (False, [])
         | c # cs \<Rightarrow> if c = CHR ''-'' \<or> c = CHR ''+'' then (c = CHR ''-'', cs) else (False, orig))
      in if s = ''0'' then Some 0
         else if s = [] then None
         else case parse_groups 0 s of
           None \<Rightarrow> None
         | Some d \<Rightarrow> if neg then Some (- d) else if d > 2 ^ 63 - 1 then None else Some d)"

text \<open>A parsed duration is a 64-bit signed number.\<close>

lemma parse_groups_bound: "parse_groups d s = Some r \<Longrightarrow> 0 \<le> d \<and> d \<le> 2 ^ 63 \<Longrightarrow> 0 \<le> r \<and> r \<le> 2 ^ 63"
proof (induction d s rule: parse_groups.induct)
  case (1 d s)
  show ?case
  proof (cases "s = []")
    case True
    then have "r = d" using "1.prems"(1) by (subst (asm) parse_groups.simps) simp
    then show ?thesis using "1.prems"(2) by simp
  next
    case False
    then obtain v s1 where g: "parse_group s = Some (v, s1)" and le: "(d + v) mod 2 ^ 64 \<le> 2 ^ 63"
        and rest: "parse_groups ((d + v) mod 2 ^ 64) s1 = Some r"
      using "1.prems"(1) by (subst (asm) parse_groups.simps) (auto simp: Let_def split: option.splits if_splits)
    then show ?thesis using "1.IH" [OF False g refl refl] by simp
  qed
qed

lemma ParseDuration_range:
  assumes "ParseDuration s = Some d"
  shows "- (2 ^ 63) \<le> d \<and> d < 2 ^ 63"
proof -
  obtain neg s1 where ns: "(case s of [] \<Rightarrow> (False, []) | c # cs \<Rightarrow> if c = CHR ''-'' \<or> c = CHR ''+'' then (c = CHR ''-'', cs) else (False, s)) = (neg, s1)"
    by (rule that [OF surjective_pairing])
  note run = assms [unfolded ParseDuration_def ns Let_def prod.case]
  show ?thesis
  proof (cases "s1 = ''0'' \<or> s1 = []")
    case True
    then show ?thesis using run by auto
  next
    case False
    then obtain n where n: "parse_groups 0 s1 = Some n" using run by (auto split: option.splits)
    have "0 \<le> n \<and> n \<le> 2 ^ 63" using parse_groups_bound [OF n] by simp
    moreover have "d = - n \<or> d = n \<and> n \<le> 2 ^ 63 - 1"
      using run False n by (cases neg) (simp_all split: if_splits)
    ultimately show ?thesis by auto
  qed
qed

end
