(* ===== verification/Config.thy ===== *)
theory Config
  imports Token_Store Local_Store Go_Duration
begin

text \<open>
  \<^verbatim>\<open>internal/config/config.go\<close>: the configuration file, its defaults, the overrides from the
  environment and the checks of the storage settings.  The YAML library is a pair of parameters,
  the random source another; files live in the file system of the local backend.
\<close>

section \<open>Data\<close>

definition appName :: string where "appName = ''crate''"
definition configFileName :: string where "configFileName = ''config.yaml''"
definition tokensFileName :: string where "tokensFileName = ''tokens.yaml''"
definition defaultPort :: int where "defaultPort = 7777"
definition tokenBytes :: nat where "tokenBytes = 32"

definition defaultMaxUploadBytes :: int where
  "defaultMaxUploadBytes = 100 * 2 ^ 20"

definition EnvListenAddr :: string where "EnvListenAddr = ''CRATE_LISTEN_ADDR''"
definition EnvBaseURL :: string where "EnvBaseURL = ''CRATE_BASE_URL''"
definition EnvAPIURL :: string where "EnvAPIURL = ''CRATE_API_URL''"
definition EnvPublicURL :: string where "EnvPublicURL = ''CRATE_PUBLIC_URL''"
definition EnvToken :: string where "EnvToken = ''CRATE_TOKEN''"
definition EnvIndexTemplate :: string where "EnvIndexTemplate = ''CRATE_INDEX_TEMPLATE''"
definition EnvStorageBackend :: string where "EnvStorageBackend = ''CRATE_STORAGE_BACKEND''"
definition EnvS3Endpoint :: string where "EnvS3Endpoint = ''CRATE_S3_ENDPOINT''"
definition EnvS3Bucket :: string where "EnvS3Bucket = ''CRATE_S3_BUCKET''"
definition EnvS3Region :: string where "EnvS3Region = ''CRATE_S3_REGION''"
definition EnvS3AccessKey :: string where "EnvS3AccessKey = ''CRATE_S3_ACCESS_KEY''"
definition EnvS3SecretKey :: string where "EnvS3SecretKey = ''CRATE_S3_SECRET_KEY''"
definition EnvS3Prefix :: string where "EnvS3Prefix = ''CRATE_S3_PREFIX''"
definition EnvS3CacheBytes :: string where "EnvS3CacheBytes = ''CRATE_S3_CACHE_BYTES''"
definition EnvS3MetaTTL :: string where "EnvS3MetaTTL = ''CRATE_S3_META_TTL''"

definition BackendLocal :: string where "BackendLocal = ''local''"
definition BackendS3 :: string where "BackendS3 = ''s3''"

record s3_settings =
  S3_Endpoint :: string
  S3_Bucket :: string
  S3_Region :: string
  S3_AccessKey :: string
  S3_SecretKey :: string
  S3_Prefix :: string
  S3_CacheBytes :: int
  S3_MetaTTL :: string

record config =
  C_BaseURL :: string
  C_APIURL :: string
  C_PublicURL :: string
  C_ListenAddr :: string
  C_Port :: int
  C_Token :: string
  C_MaxUploadBytes :: int
  C_IndexTemplate :: string
  C_StorageBackend :: string
  C_S3 :: s3_settings

text \<open>The zero value of the struct.\<close>

definition zero_s3 :: s3_settings where
  "zero_s3 = \<lparr>S3_Endpoint = [], S3_Bucket = [], S3_Region = [], S3_AccessKey = [], S3_SecretKey = [],
     S3_Prefix = [], S3_CacheBytes = 0, S3_MetaTTL = []\<rparr>"

definition zero_config :: config where
  "zero_config = \<lparr>C_BaseURL = [], C_APIURL = [], C_PublicURL = [], C_ListenAddr = [], C_Port = 0, C_Token = [],
     C_MaxUploadBytes = 0, C_IndexTemplate = [], C_StorageBackend = [], C_S3 = zero_s3\<rparr>"

datatype config_err =
    CErrMkdir fpath store_err
  | CErrRand
  | CErrRead store_err
  | CErrParse
  | CErrMarshal
  | CErrMkdirConfig store_err
  | CErrWrite store_err
  | CErrMissing "string list"
  | CErrMetaTTL string
  | CErrBackend string

definition EffectiveAPIURL :: "config \<Rightarrow> string" where
  "EffectiveAPIURL c = (if C_APIURL c \<noteq> [] then C_APIURL c else C_BaseURL c)"

definition EffectivePublicURL :: "config \<Rightarrow> string" where
  "EffectivePublicURL c = (if C_PublicURL c \<noteq> [] then C_PublicURL c else C_BaseURL c)"

definition MetaTTLDuration :: "s3_settings \<Rightarrow> config_err + duration" where
  "MetaTTLDuration c =
     (if S3_MetaTTL c = [] then Inr 0
      else case ParseDuration (S3_MetaTTL c) of None \<Rightarrow> Inl (CErrMetaTTL (S3_MetaTTL c)) | Some d \<Rightarrow> Inr d)"

section \<open>Paths\<close>

record paths =
  P_ConfigFile :: fpath
  P_TokensFile :: fpath
  P_SitesDir :: fpath
  P_LogDir :: fpath

text \<open>The base directories come from the XDG library.\<close>

record xdg =
  X_ConfigHome :: fpath
  X_DataHome :: fpath
  X_StateHome :: fpath

fun mkdirs :: "env \<Rightarrow> fpath list \<Rightarrow> world \<Rightarrow> (config_err + unit) \<times> world" where
  "mkdirs e [] w = (Inr (), w)"
| "mkdirs e (d # ds) w =
     (case os_MkdirAll e d w of
        (Inl err, w1) \<Rightarrow> (Inl (CErrMkdir d err), w1)
      | (Inr u, w1) \<Rightarrow> mkdirs e ds w1)"

definition resolvePaths :: "env \<Rightarrow> xdg \<Rightarrow> bool \<Rightarrow> world \<Rightarrow> (config_err + paths) \<times> world" where
  "resolvePaths e x create w =
     (let configDir = fjoin (X_ConfigHome x) appName;
          dataDir = fjoin (X_DataHome x) appName;
          stateDir = fjoin (X_StateHome x) appName;
          sitesDir = fjoin dataDir ''sites'';
          logDir = fjoin stateDir ''log'';
          p = \<lparr>P_ConfigFile = fjoin configDir configFileName, P_TokensFile = fjoin configDir tokensFileName,
               P_SitesDir = sitesDir, P_LogDir = logDir\<rparr>
      in if create
         then (case mkdirs e [configDir, sitesDir, logDir] w of
                 (Inl err, w1) \<Rightarrow> (Inl err, w1)
               | (Inr u, w1) \<Rightarrow> (Inr p, w1))
         else (Inr p, w))"

definition ResolvePaths :: "env \<Rightarrow> xdg \<Rightarrow> world \<Rightarrow> (config_err + paths) \<times> world" where
  "ResolvePaths e x = resolvePaths e x True"

definition ResolvePathsReadOnly :: "env \<Rightarrow> xdg \<Rightarrow> world \<Rightarrow> (config_err + paths) \<times> world" where
  "ResolvePathsReadOnly e x = resolvePaths e x False"

section \<open>Defaults and the environment\<close>

definition applyDefaults :: "config \<Rightarrow> config" where
  "applyDefaults cfg =
     (let cfg = (if C_Port cfg = 0 then cfg\<lparr>C_Port := defaultPort\<rparr> else cfg);
          cfg = (if C_ListenAddr cfg = [] then cfg\<lparr>C_ListenAddr := ''127.0.0.1:'' @ dec_int (C_Port cfg)\<rparr> else cfg);
          cfg = (if C_BaseURL cfg = [] then cfg\<lparr>C_BaseURL := ''http://localhost:'' @ dec_int (C_Port cfg)\<rparr> else cfg);
          cfg = (if C_MaxUploadBytes cfg \<le> 0 then cfg\<lparr>C_MaxUploadBytes := defaultMaxUploadBytes\<rparr> else cfg);
          cfg = (if C_StorageBackend cfg = [] then cfg\<lparr>C_StorageBackend := BackendLocal\<rparr> else cfg)
      in cfg)"

text \<open>\<^verbatim>\<open>strconv.ParseInt(v, 10, 64)\<close>: a sign, digits, and a value in range.\<close>

definition ParseInt64 :: "string \<Rightarrow> int option" where
  "ParseInt64 v =
     (let (neg, ds) =
        (case v of [] \<Rightarrow> (False, []) | c # cs \<Rightarrow>
           if c = CHR ''-'' then (True, cs) else if c = CHR ''+'' then (False, cs) else (False, v));
          n = foldl (\<lambda>x c. x * 10 + dec_val c) 0 ds
      in if ds = [] \<or> \<not> list_all is_dec ds then None
         else if neg then (if n > 2 ^ 63 then None else Some (- n))
         else if n \<ge> 2 ^ 63 then None else Some n)"

text \<open>A string field that is overridden by a variable that is set and not empty.\<close>

definition env_or :: "(string \<Rightarrow> string) \<Rightarrow> string \<Rightarrow> string \<Rightarrow> string" where
  "env_or getenv var old = (let v = getenv var in if v \<noteq> [] then v else old)"

definition applyEnv :: "(string \<Rightarrow> string) \<Rightarrow> config \<Rightarrow> config" where
  "applyEnv getenv cfg =
     (let s3 = C_S3 cfg
      in cfg\<lparr>C_ListenAddr := env_or getenv EnvListenAddr (C_ListenAddr cfg),
             C_BaseURL := env_or getenv EnvBaseURL (C_BaseURL cfg),
             C_APIURL := env_or getenv EnvAPIURL (C_APIURL cfg),
             C_PublicURL := env_or getenv EnvPublicURL (C_PublicURL cfg),
             C_Token := env_or getenv EnvToken (C_Token cfg),
             C_IndexTemplate := env_or getenv EnvIndexTemplate (C_IndexTemplate cfg),
             C_StorageBackend := env_or getenv EnvStorageBackend (C_StorageBackend cfg),
             C_S3 := s3\<lparr>S3_Endpoint := env_or getenv EnvS3Endpoint (S3_Endpoint s3),
                        S3_Bucket := env_or getenv EnvS3Bucket (S3_Bucket s3),
                        S3_Region := env_or getenv EnvS3Region (S3_Region s3),
                        S3_AccessKey := env_or getenv EnvS3AccessKey (S3_AccessKey s3),
                        S3_SecretKey := env_or getenv EnvS3SecretKey (S3_SecretKey s3),
                        S3_Prefix := env_or getenv EnvS3Prefix (S3_Prefix s3),
                        S3_CacheBytes :=
                          (let v = getenv EnvS3CacheBytes
                           in if v \<noteq> [] then (case ParseInt64 v of Some n \<Rightarrow> n | None \<Rightarrow> S3_CacheBytes s3)
                              else S3_CacheBytes s3),
                        S3_MetaTTL := env_or getenv EnvS3MetaTTL (S3_MetaTTL s3)\<rparr>\<rparr>)"

definition generateToken :: "rand_fn \<Rightarrow> config_err + string" where
  "generateToken rnd =
     (case rnd 0 tokenBytes of None \<Rightarrow> Inl CErrRand | Some b \<Rightarrow> Inr (EncodeToString b))"

definition defaultConfig :: "rand_fn \<Rightarrow> config_err + config" where
  "defaultConfig rnd =
     (case generateToken rnd of
        Inl err \<Rightarrow> Inl err
      | Inr tok \<Rightarrow> Inr (applyDefaults (zero_config\<lparr>C_Port := defaultPort, C_Token := tok\<rparr>)))"

definition ValidateStorage :: "config \<Rightarrow> config_err option" where
  "ValidateStorage c =
     (if C_StorageBackend c = BackendLocal then None
      else if C_StorageBackend c = BackendS3 then
        (let missing = (if S3_Endpoint (C_S3 c) = [] then [EnvS3Endpoint @ '' (s3.endpoint)''] else []) @
                       (if S3_Bucket (C_S3 c) = [] then [EnvS3Bucket @ '' (s3.bucket)''] else [])
         in if length missing > 0 then Some (CErrMissing missing)
            else case MetaTTLDuration (C_S3 c) of Inl err \<Rightarrow> Some err | Inr d \<Rightarrow> None)
      else Some (CErrBackend (C_StorageBackend c)))"

section \<open>Loading and saving\<close>

type_synonym yaml_out = "config \<Rightarrow> bytes option"
type_synonym yaml_in = "bytes \<Rightarrow> config option"

definition Save :: "env \<Rightarrow> yaml_out \<Rightarrow> paths \<Rightarrow> config \<Rightarrow> world \<Rightarrow> (config_err + unit) \<times> world" where
  "Save e marshal p cfg w =
     (case marshal cfg of
        None \<Rightarrow> (Inl CErrMarshal, w)
      | Some out \<Rightarrow>
          (case os_MkdirAll e (fdir (P_ConfigFile p)) w of
             (Inl err, w1) \<Rightarrow> (Inl (CErrMkdirConfig err), w1)
           | (Inr u, w1) \<Rightarrow>
               (case os_WriteFile e (P_ConfigFile p) out w1 of
                  (Inl err, w2) \<Rightarrow> (Inl (CErrWrite err), w2)
                | (Inr u, w2) \<Rightarrow> (Inr (), w2))))"

definition LoadOrInit ::
  "env \<Rightarrow> yaml_out \<Rightarrow> yaml_in \<Rightarrow> rand_fn \<Rightarrow> (string \<Rightarrow> string) \<Rightarrow> paths \<Rightarrow> world \<Rightarrow> (config_err + config) \<times> world" where
  "LoadOrInit e marshal unmarshal rnd getenv p w =
     (case os_ReadFile e (P_ConfigFile p) w of
        (Inl err, w1) \<Rightarrow>
          if err = ErrNotExist then
            (case defaultConfig rnd of
               Inl gerr \<Rightarrow> (Inl gerr, w1)
             | Inr cfg \<Rightarrow>
                 (case Save e marshal p cfg w1 of
                    (Inl werr, w2) \<Rightarrow> (Inl werr, w2)
                  | (Inr u, w2) \<Rightarrow> (Inr (applyEnv getenv cfg), w2)))
          else (Inl (CErrRead err), w1)
      | (Inr data, w1) \<Rightarrow>
          (case unmarshal data of
             None \<Rightarrow> (Inl CErrParse, w1)
           | Some cfg \<Rightarrow> (Inr (applyEnv getenv (applyDefaults cfg)), w1)))"

definition LoadReadOnly ::
  "env \<Rightarrow> yaml_in \<Rightarrow> (string \<Rightarrow> string) \<Rightarrow> paths \<Rightarrow> world \<Rightarrow> (config_err + config) \<times> world" where
  "LoadReadOnly e unmarshal getenv p w =
     (case os_ReadFile e (P_ConfigFile p) w of
        (Inl err, w1) \<Rightarrow>
          if err = ErrNotExist then (Inr ((applyEnv getenv (applyDefaults zero_config))\<lparr>C_Token := []\<rparr>), w1)
          else (Inl (CErrRead err), w1)
      | (Inr data, w1) \<Rightarrow>
          (case unmarshal data of
             None \<Rightarrow> (Inl CErrParse, w1)
           | Some cfg \<Rightarrow> (Inr ((applyEnv getenv (applyDefaults cfg))\<lparr>C_Token := []\<rparr>), w1)))"

section \<open>Properties\<close>

definition filled :: "config \<Rightarrow> bool" where
  "filled c \<longleftrightarrow> C_Port c \<noteq> 0 \<and> C_ListenAddr c \<noteq> [] \<and> C_BaseURL c \<noteq> [] \<and> 0 < C_MaxUploadBytes c \<and> C_StorageBackend c \<noteq> []"

lemma applyDefaults_id: "filled c \<Longrightarrow> applyDefaults c = c"
  by (simp add: applyDefaults_def filled_def)

lemma applyDefaults_filled: "filled (applyDefaults c) \<and> C_Token (applyDefaults c) = C_Token c"
proof -
  have upload: "0 < defaultMaxUploadBytes" by (simp add: defaultMaxUploadBytes_def)
  show ?thesis
    unfolding applyDefaults_def filled_def
    by (cases "C_Port c = 0"; cases "C_ListenAddr c = []"; cases "C_BaseURL c = []"; cases "C_MaxUploadBytes c \<le> 0";
        cases "C_StorageBackend c = []")
      (simp_all add: upload defaultPort_def BackendLocal_def)
qed

lemma applyDefaults_idem: "applyDefaults (applyDefaults c) = applyDefaults c"
  using applyDefaults_filled applyDefaults_id by blast

lemma defaultConfig_defaults: "defaultConfig rnd = Inr c \<Longrightarrow> applyDefaults c = c"
  by (auto simp: defaultConfig_def applyDefaults_idem split: sum.splits)

text \<open>
  Loading the configuration of the public web role writes nothing and returns one without a token,
  whatever the file and the environment say.
\<close>

lemma LoadReadOnly_quiet:
  assumes "LoadReadOnly e unmarshal getenv p w = (r, w')"
  shows "w_fs w' = w_fs w \<and> (\<forall>c. r = Inr c \<longrightarrow> C_Token c = [])"
proof -
  obtain rd w1 where rd: "os_ReadFile e (P_ConfigFile p) w = (rd, w1)" by (cases "os_ReadFile e (P_ConfigFile p) w")
  have "w' = w1 \<and> (\<forall>c. r = Inr c \<longrightarrow> C_Token c = [])"
    using assms rd by (cases rd) (auto simp: LoadReadOnly_def split: if_splits option.splits)
  then show ?thesis using reads_fs(4) [OF rd] by simp
qed

text \<open>A quiet machine for the witnesses.\<close>

definition quiet :: env where
  "quiet = \<lparr>env_now = (\<lambda>k. int k), env_fault = (\<lambda>k. False), env_partial = (\<lambda>k n. None), env_suffix = (\<lambda>k. [])\<rparr>"

definition sample_paths :: paths where
  "sample_paths = \<lparr>P_ConfigFile = [''config.yaml''], P_TokensFile = [''tokens.yaml''], P_SitesDir = [''sites''], P_LogDir = [''log'']\<rparr>"

text \<open>What a file holds is what reading it gives, unless the read fails.\<close>

lemma ReadFile_file_at:
  assumes "file_at (w_fs w) p = Some d" "os_ReadFile e p w = (r, w')"
  shows "r = Inr d \<or> r = Inl EIO"
proof -
  obtain m where "resolve (w_fs w) p = Inr (File d m)"
    using assms(1) by (auto simp: file_at_def resolve_lookup split: option.splits node.splits)
  then show ?thesis using assms(2) by (auto simp: os_ReadFile_def sys_def split: if_splits)
qed

text \<open>
  C32: The first start creates the configuration and every later start reads the same one back: as
  long as nobody changes the file, a restart returns exactly the configuration, and so the same
  root token, or fails to read it.  It never generates another token.
\<close>

theorem config_restart:
  assumes yaml: "\<forall>c out. marshal c = Some out \<longrightarrow> unmarshal out = Some c"
    and first: "LoadOrInit e marshal unmarshal rnd getenv p w = (Inr c, w1)" "fst (os_ReadFile e (P_ConfigFile p) w) = Inl ErrNotExist"
    and kept: "file_at (w_fs w2) (P_ConfigFile p) = file_at (w_fs w1) (P_ConfigFile p)"
    and again: "LoadOrInit e' marshal unmarshal rnd' getenv p w2 = (r, w3)"
  shows "(r = Inr c \<or> r = Inl (CErrRead EIO)) \<and> w_fs w3 = w_fs w2"
proof -
  obtain w0 where rd: "os_ReadFile e (P_ConfigFile p) w = (Inl ErrNotExist, w0)"
    using first(2) by (cases "os_ReadFile e (P_ConfigFile p) w") auto
  obtain cfg where cfg: "defaultConfig rnd = Inr cfg" using first(1) rd by (auto simp: LoadOrInit_def split: sum.splits)
  have c: "c = applyEnv getenv cfg" and save: "\<exists>u. Save e marshal p cfg w0 = (Inr u, w1)"
    using first(1) rd cfg by (auto simp: LoadOrInit_def split: sum.splits prod.splits)
  obtain out where out: "marshal cfg = Some out" using save by (auto simp: Save_def split: option.splits)
  obtain r1 wm where mk: "os_MkdirAll e (fdir (P_ConfigFile p)) w0 = (r1, wm)" by (cases "os_MkdirAll e (fdir (P_ConfigFile p)) w0")
  have "\<exists>u. os_WriteFile e (P_ConfigFile p) out wm = (Inr u, w1)"
    using save out mk by (cases r1) (auto simp: Save_def split: prod.splits sum.splits)
  then have "file_at (w_fs w1) (P_ConfigFile p) = Some out" using os_WriteFile_ok by blast
  then have here: "file_at (w_fs w2) (P_ConfigFile p) = Some out" using kept by simp
  obtain r2 w4 where rd2: "os_ReadFile e' (P_ConfigFile p) w2 = (r2, w4)" by (cases "os_ReadFile e' (P_ConfigFile p) w2")
  have "applyDefaults cfg = cfg" using defaultConfig_defaults [OF cfg] .
  moreover have "unmarshal out = Some cfg" using yaml out by blast
  moreover have "r2 = Inr out \<or> r2 = Inl EIO" by (rule ReadFile_file_at [OF here rd2])
  ultimately have "(r = Inr c \<or> r = Inl (CErrRead EIO)) \<and> w3 = w4"
    using again rd2 c EIO_ne by (auto simp: LoadOrInit_def)
  then show ?thesis using reads_fs(4) [OF rd2] by simp
qed

definition fresh_config :: config where
  "fresh_config = applyDefaults (zero_config\<lparr>C_Port := defaultPort, C_Token := EncodeToString (replicate 32 (CHR ''x''))\<rparr>)"

definition one_doc_out :: yaml_out where
  "one_doc_out c = (if c = fresh_config then Some ''doc'' else None)"

definition one_doc_in :: yaml_in where
  "one_doc_in d = (if d = ''doc'' then Some fresh_config else None)"

definition first_start :: "(config_err + config) \<times> world" where
  "first_start = LoadOrInit quiet one_doc_out one_doc_in (\<lambda>k n. Some (replicate n (CHR ''x''))) (\<lambda>v. []) sample_paths \<lparr>w_fs = Folder 0 [], w_tick = 0\<rparr>"

lemma first_start_ok: "isl (fst first_start) = False"
proof -
  let ?w = "\<lparr>w_fs = Folder 0 [], w_tick = 0\<rparr>"
  have d: "defaultConfig (\<lambda>k n. Some (replicate n (CHR ''x''))) = Inr fresh_config"
    by (simp add: defaultConfig_def generateToken_def fresh_config_def tokenBytes_def)
  have "isl (fst (Save quiet (\<lambda>c. Some ''doc'') sample_paths zero_config (snd (os_ReadFile quiet (P_ConfigFile sample_paths) ?w)))) = False"
    by code_simp
  moreover have "Save quiet one_doc_out sample_paths fresh_config v = Save quiet (\<lambda>c. Some ''doc'') sample_paths zero_config v" for v
    by (simp add: Save_def one_doc_out_def)
  moreover have "fst (os_ReadFile quiet (P_ConfigFile sample_paths) ?w) = Inl ErrNotExist" by code_simp
  ultimately show ?thesis
    unfolding first_start_def LoadOrInit_def d
    by (cases "os_ReadFile quiet (P_ConfigFile sample_paths) ?w") (auto split: sum.splits prod.splits)
qed

theorem config_restart_witness:
  "\<exists>c. fst first_start = Inr c \<and>
     (let r = fst (LoadOrInit quiet one_doc_out one_doc_in (\<lambda>k n. None) (\<lambda>v. []) sample_paths (snd first_start))
      in r = Inr c \<or> r = Inl (CErrRead EIO))"
proof -
  have yaml: "\<forall>c out. one_doc_out c = Some out \<longrightarrow> one_doc_in out = Some c" by (auto simp: one_doc_out_def one_doc_in_def)
  obtain c where c: "fst first_start = Inr c" using first_start_ok by (cases "fst first_start") auto
  then have run: "LoadOrInit quiet one_doc_out one_doc_in (\<lambda>k n. Some (replicate n (CHR ''x''))) (\<lambda>v. []) sample_paths \<lparr>w_fs = Folder 0 [], w_tick = 0\<rparr>
      = (Inr c, snd first_start)"
    unfolding first_start_def [symmetric] by (intro prod_eqI) simp_all
  have none: "fst (os_ReadFile quiet (P_ConfigFile sample_paths) \<lparr>w_fs = Folder 0 [], w_tick = 0\<rparr>) = Inl ErrNotExist"
    by code_simp
  obtain r w3 where again: "LoadOrInit quiet one_doc_out one_doc_in (\<lambda>k n. None) (\<lambda>v. []) sample_paths (snd first_start) = (r, w3)"
    by (rule that [OF surjective_pairing])
  have "r = Inr c \<or> r = Inl (CErrRead EIO)" using config_restart [OF yaml run none refl again] by blast
  then show ?thesis unfolding again Let_def using c by auto
qed

end
