(* ===== verification/Index_View.thy ===== *)
theory Index_View
  imports Wire Go_Time Go_Duration
begin

text \<open>
  The pages \<^verbatim>\<open>internal/server\<close> renders: the grouping of sites on the index, the rows with
  their size, age and expiry labels, and the expiry test.  The view model is what the template
  is executed with.  Clock reads are arguments; times are shown in UTC.
\<close>

section \<open>The view model\<close>

record site_row =
  Row_Name :: string
  Row_Label :: string
  Row_Href :: string
  Row_Builtin :: bool
  Row_FileCount :: int
  Row_SizeHuman :: string
  Row_UpdatedRel :: string
  Row_UpdatedAbs :: string
  Row_ExpiryLabel :: string

record site_group =
  Group_Name :: string
  Group_Href :: string
  Group_Grouped :: bool
  Group_Rows :: "site_row list"

record index_view =
  View_Title :: string
  View_Group :: bool
  View_Empty :: bool
  View_Groups :: "site_group list"

section \<open>Expiry\<close>

definition expired :: "site \<Rightarrow> time \<Rightarrow> bool" where
  "expired s now = (case Site_ExpiresAt s of None \<Rightarrow> False | Some t \<Rightarrow> \<not> now < t)"

fun unexpired_loop :: "time \<Rightarrow> site list \<Rightarrow> site list \<Rightarrow> site list" where
  "unexpired_loop now out [] = out"
| "unexpired_loop now out (s # sites) =
     unexpired_loop now (if \<not> expired s now then out @ [s] else out) sites"

definition unexpiredSites :: "site list \<Rightarrow> time \<Rightarrow> site list" where
  "unexpiredSites sites now = unexpired_loop now [] sites"

lemma unexpiredSites_filter: "unexpiredSites sites now = filter (\<lambda>s. \<not> expired s now) sites"
proof -
  have "unexpired_loop now out sites = out @ filter (\<lambda>s. \<not> expired s now) sites" for out
    by (induction sites arbitrary: out) auto
  then show ?thesis by (simp add: unexpiredSites_def)
qed

section \<open>Labels\<close>

text \<open>The loop of \<^verbatim>\<open>humanSize\<close>: the divisor and the index of its unit.\<close>

function size_loop :: "int \<Rightarrow> int \<Rightarrow> nat \<Rightarrow> int \<times> nat" where
  "size_loop m d e = (if m \<ge> 1024 then size_loop (m div 1024) (d * 1024) (Suc e) else (d, e))"
  by pat_completeness auto
termination
  by (relation "measure (\<lambda>(m, d, e). nat m)") auto

declare size_loop.simps [simp del]

text \<open>The verb \<^verbatim>\<open>%.1f\<close> for the fraction \<^verbatim>\<open>a / b\<close>, which it rounds to the nearest tenth, ties to even.\<close>

definition fmt_tenth :: "int \<times> int \<Rightarrow> string" where
  "fmt_tenth = (\<lambda>(a, b). let t = div_even (a * 10) b in dec_int (t div 10) @ ''.'' @ [digit (nat (t mod 10))])"

text \<open>\<^const>\<open>None\<close> is the run-time panic of an index out of range.\<close>

definition humanSize :: "int \<Rightarrow> string option" where
  "humanSize n =
     (if n < 1024 then Some (dec_int n @ '' B'')
      else let (d, e) = size_loop (n div 1024) 1024 0; (na, nb) = fl n 1; (da, db) = fl d 1; q = fl (na * db) (nb * da)
           in if e < 6 then Some (fmt_tenth q @ '' '' @ [''KMGTPE'' ! e] @ ''B'') else None)"

definition Minute :: duration where "Minute = 60 * second"
definition Hour :: duration where "Hour = 60 * Minute"

text \<open>\<^verbatim>\<open>Duration.Minutes\<close> and \<^verbatim>\<open>Duration.Hours\<close> of a duration that is not negative, as doubles.\<close>

definition in_units :: "duration \<Rightarrow> duration \<Rightarrow> int \<times> int" where
  "in_units unit d = (let (a, b) = fl (d mod unit) unit in fl ((d div unit) * b + a) b)"

definition trunc_float :: "int \<times> int \<Rightarrow> int" where
  "trunc_float = (\<lambda>(a, b). a div b)"

definition Format_Date :: "time \<Rightarrow> string" where
  "Format_Date t = (let (y, m, d) = civil (t div second div 86400) in format_year y @ ''-'' @ pad 2 m @ ''-'' @ pad 2 d)"

definition Format_RFC3339 :: "time \<Rightarrow> string" where
  "Format_RFC3339 t =
     (let s = t div second; sod = s mod 86400; (y, m, d) = civil (s div 86400)
      in format_year y @ ''-'' @ pad 2 m @ ''-'' @ pad 2 d @ ''T'' @ pad 2 (sod div 3600) @ '':'' @
         pad 2 (sod div 60 mod 60) @ '':'' @ pad 2 (sod mod 60) @ ''Z'')"

definition days_label :: "duration \<Rightarrow> int" where
  "days_label d = trunc_float (let (a, b) = in_units Hour d in fl a (24 * b))"

text \<open>\<^verbatim>\<open>now.Sub(t)\<close> saturates at the bounds of a duration.\<close>

definition saturate :: "int \<Rightarrow> duration" where
  "saturate d = max (- (2 ^ 63)) (min (2 ^ 63 - 1) d)"

definition relTime :: "time \<Rightarrow> time \<Rightarrow> string" where
  "relTime t now =
     (let d = saturate (now - t)
      in if d < 0 then Format_Date t
         else if d < Minute then ''just now''
         else if d < Hour then dec_int (trunc_float (in_units Minute d)) @ ''m ago''
         else if d < 24 * Hour then dec_int (trunc_float (in_units Hour d)) @ ''h ago''
         else if d < 7 * 24 * Hour then dec_int (days_label d) @ ''d ago''
         else Format_Date t)"

definition humanDuration :: "duration \<Rightarrow> string" where
  "humanDuration d =
     (if d \<ge> 24 * Hour then dec_int (days_label d) @ ''d''
      else if d \<ge> Hour then dec_int (trunc_float (in_units Hour d)) @ ''h''
      else if d \<ge> Minute then dec_int (trunc_float (in_units Minute d)) @ ''m''
      else ''<1m'')"

section \<open>Rows and groups\<close>

text \<open>The zero time of Go, 1 January of the year 1.\<close>

definition IsZero :: "time \<Rightarrow> bool" where
  "IsZero t = (t = - epoch_days * 86400 * second)"

text \<open>The two clock reads made for a row are an argument.\<close>

definition diskRow :: "time \<times> time \<Rightarrow> site \<Rightarrow> string \<Rightarrow> site_row option" where
  "diskRow clk s label =
     (case humanSize (Site_SizeBytes s) of
        None \<Rightarrow> None
      | Some sz \<Rightarrow>
          (let row = \<lparr>Row_Name = Site_Name s, Row_Label = label, Row_Href = ''/'' @ Site_Name s @ ''/'', Row_Builtin = False,
                      Row_FileCount = Site_FileCount s, Row_SizeHuman = sz, Row_UpdatedRel = [], Row_UpdatedAbs = [],
                      Row_ExpiryLabel = []\<rparr>;
               row = (if \<not> IsZero (Site_UpdatedAt s)
                      then row\<lparr>Row_UpdatedRel := relTime (Site_UpdatedAt s) (fst clk), Row_UpdatedAbs := Format_RFC3339 (Site_UpdatedAt s)\<rparr>
                      else row);
               row = (case Site_ExpiresAt s of
                        None \<Rightarrow> row
                      | Some t \<Rightarrow>
                          (let d = saturate (t - snd clk)
                           in if d > 0 then row\<lparr>Row_ExpiryLabel := ''expires in '' @ humanDuration d\<rparr>
                              else row\<lparr>Row_ExpiryLabel := ''expired''\<rparr>))
           in Some row))"

text \<open>\<^verbatim>\<open>strings.Index(name, ".")\<close> and the slice before it.\<close>

definition group_prefix :: "string \<Rightarrow> string" where
  "group_prefix name = (case Cut name (CHR ''.'') of None \<Rightarrow> name | Some (a, b) \<Rightarrow> a)"

text \<open>The first loop: the order of the prefixes and the sites under each.\<close>

fun group_loop :: "string list \<Rightarrow> (string \<times> site list) list \<Rightarrow> site list \<Rightarrow> string list \<times> (string \<times> site list) list" where
  "group_loop order m [] = (order, m)"
| "group_loop order m (s # sites) =
     (let prefix = group_prefix (Site_Name s);
          order = (if map_of m prefix = None then order @ [prefix] else order);
          old = (case map_of m prefix of None \<Rightarrow> [] | Some xs \<Rightarrow> xs)
      in group_loop order ((prefix, old @ [s]) # filter (\<lambda>p. fst p \<noteq> prefix) m) sites)"

definition row_label :: "bool \<Rightarrow> string \<Rightarrow> site \<Rightarrow> string" where
  "row_label grouped prefix s =
     (if grouped
      then (let label = TrimPrefix (Site_Name s) (prefix @ ''.'') in if label = [] then Site_Name s else label)
      else Site_Name s)"

fun opt_map :: "('a \<Rightarrow> 'b option) \<Rightarrow> 'a list \<Rightarrow> 'b list option" where
  "opt_map f [] = Some []"
| "opt_map f (x # xs) =
     (case f x of None \<Rightarrow> None | Some y \<Rightarrow> (case opt_map f xs of None \<Rightarrow> None | Some ys \<Rightarrow> Some (y # ys)))"

definition is_grouped :: "site list \<Rightarrow> bool" where
  "is_grouped members = (length members > 1 \<or> CHR ''.'' \<in> set (Site_Name (hd members)))"

definition build_group :: "(site \<Rightarrow> time \<times> time) \<Rightarrow> (string \<times> site list) list \<Rightarrow> string \<Rightarrow> site_group option" where
  "build_group clk m prefix =
     (let members = (case map_of m prefix of None \<Rightarrow> [] | Some xs \<Rightarrow> xs);
          grouped = is_grouped members
      in case opt_map (\<lambda>s. diskRow (clk s) s (row_label grouped prefix s)) members of
           None \<Rightarrow> None
         | Some rows \<Rightarrow>
             Some \<lparr>Group_Name = prefix, Group_Href = ''/'' @ prefix @ ''/'', Group_Grouped = grouped, Group_Rows = rows\<rparr>)"

definition groupDiskSites :: "(site \<Rightarrow> time \<times> time) \<Rightarrow> site list \<Rightarrow> site_group list option" where
  "groupDiskSites clk sites =
     (let (order, m) = group_loop [] [] sites in opt_map (build_group clk m) order)"

section \<open>Properties\<close>

text \<open>The size loop ends with the unit in which the size has one to four digits.\<close>

lemma size_loop_unit:
  assumes "size_loop m d e = (d', e')" "0 < m" "0 < d"
  shows "\<exists>k. e' = e + k \<and> d' = d * 1024 ^ k \<and> 1024 ^ k \<le> m \<and> m < 1024 ^ Suc k"
  using assms
proof (induction m d e rule: size_loop.induct)
  case (1 m d e)
  show ?case
  proof (cases "m \<ge> 1024")
    case True
    then have run: "size_loop (m div 1024) (d * 1024) (Suc e) = (d', e')" using "1.prems"(1) by (subst (asm) size_loop.simps) simp
    have "0 < m div 1024" using True by (simp add: pos_imp_zdiv_pos_iff)
    then obtain k where k: "e' = Suc e + k" "d' = d * 1024 * 1024 ^ k" "1024 ^ k \<le> m div 1024" "m div 1024 < 1024 ^ Suc k"
      using "1.IH" [OF True run] "1.prems"(3) by auto
    have "1024 ^ Suc k \<le> m" using k(3) unfolding power_Suc by linarith
    moreover have "m < 1024 ^ Suc (Suc k)" using k(4) unfolding power_Suc by linarith
    ultimately show ?thesis using k(1,2) by (intro exI [of _ "Suc k"]) simp
  next
    case False
    then have "d' = d" "e' = e" using "1.prems"(1) by (subst (asm) size_loop.simps; simp)+
    then show ?thesis using False "1.prems"(2) by (intro exI [of _ 0]) simp
  qed
qed

lemma size_loop_index:
  assumes l: "size_loop (n div 1024) 1024 0 = (d, e)" and n: "1024 \<le> n" "n < 2 ^ 63"
  shows "e < 6 \<and> 1024 ^ Suc e \<le> n \<and> n < 1024 ^ Suc (Suc e)"
proof -
  have "0 < n div 1024" using n(1) by (simp add: pos_imp_zdiv_pos_iff)
  then obtain k where k: "e = k" "1024 ^ k \<le> n div 1024" "n div 1024 < 1024 ^ Suc k"
    using size_loop_unit [OF l] by auto
  have lo: "1024 ^ Suc k \<le> n" using k(2) unfolding power_Suc by linarith
  have hi: "n < 1024 ^ Suc (Suc k)" using k(3) unfolding power_Suc by linarith
  have "(1024 :: int) ^ Suc k < 1024 ^ 7" using lo n(2) by simp
  then have "k < 6" by (subst (asm) power_strict_increasing_iff) simp_all
  then show ?thesis using lo hi k(1) by simp
qed



lemma humanSize_some:
  assumes "n < 2 ^ 63"
  shows "humanSize n \<noteq> None"
proof (cases "n < 1024")
  case True
  then show ?thesis by (simp add: humanSize_def)
next
  case False
  obtain d e where l: "size_loop (n div 1024) 1024 0 = (d, e)" by (rule that [OF surjective_pairing])
  have "e < 6" using size_loop_index [OF l] False assms by auto
  then show ?thesis using l False by (auto simp: humanSize_def Let_def split: prod.splits)
qed

text \<open>The prefixes in the order of their first occurrence.\<close>

definition firsts :: "'a list \<Rightarrow> 'a list" where
  "firsts xs = rev (remdups (rev xs))"

lemma firsts_snoc: "firsts (xs @ [x]) = (if x \<in> set xs then firsts xs else firsts xs @ [x])"
  by (simp add: firsts_def)

lemma group_loop_spec:
  assumes "order = firsts (map (\<lambda>s. group_prefix (Site_Name s)) seen)"
    "\<And>p. map_of m p = (if p \<in> set (map (\<lambda>s. group_prefix (Site_Name s)) seen) then Some (filter (\<lambda>s. group_prefix (Site_Name s) = p) seen) else None)"
    "group_loop order m sites = (order', m')"
  shows "order' = firsts (map (\<lambda>s. group_prefix (Site_Name s)) (seen @ sites)) \<and>
    (\<forall>p \<in> set order'. map_of m' p = Some (filter (\<lambda>s. group_prefix (Site_Name s) = p) (seen @ sites)))"
  using assms
proof (induction sites arbitrary: order m seen)
  case Nil
  then show ?case by (auto simp: firsts_def)
next
  case (Cons s sites)
  let ?p = "group_prefix (Site_Name s)"
  have keep: "map_of (filter (\<lambda>q. fst q \<noteq> ?p) m) p = (if p = ?p then None else map_of m p)" for p
    by (induction m) auto
  define order1 where "order1 = (if map_of m ?p = None then order @ [?p] else order)"
  define m1 where "m1 = (?p, (case map_of m ?p of None \<Rightarrow> [] | Some xs \<Rightarrow> xs) @ [s]) # filter (\<lambda>q. fst q \<noteq> ?p) m"
  have run: "group_loop order1 m1 sites = (order', m')" using Cons.prems(3) by (simp add: order1_def m1_def Let_def)
  have "order1 = firsts (map (\<lambda>s. group_prefix (Site_Name s)) (seen @ [s]))"
    using Cons.prems(1,2) by (simp add: order1_def firsts_snoc)
  moreover have "map_of m1 p = (if p \<in> set (map (\<lambda>s. group_prefix (Site_Name s)) (seen @ [s]))
      then Some (filter (\<lambda>s. group_prefix (Site_Name s) = p) (seen @ [s])) else None)" for p
  proof -
    have "filter (\<lambda>x. group_prefix (Site_Name x) = ?p) seen = []" if "?p \<notin> (\<lambda>s. group_prefix (Site_Name s)) ` set seen"
      using that unfolding filter_empty_conv by (metis image_eqI)
    then show ?thesis using Cons.prems(2) keep by (auto simp: m1_def)
  qed
  ultimately show ?case using Cons.IH [of order1 "seen @ [s]" m1] run by simp
qed

lemma opt_map_total:
  assumes "\<And>x. x \<in> set xs \<Longrightarrow> f x \<noteq> None"
  shows "opt_map f xs = Some (map (\<lambda>x. the (f x)) xs)"
  using assms by (induction xs) fastforce+

lemma diskRow_some:
  assumes "Site_SizeBytes s < 2 ^ 63"
  shows "\<exists>r. diskRow clk s label = Some r \<and> Row_Name r = Site_Name s \<and> Row_Href r = ''/'' @ Site_Name s @ ''/'' \<and>
    Row_Label r = label \<and> Row_FileCount r = Site_FileCount s \<and> \<not> Row_Builtin r"
proof -
  obtain sz where "humanSize (Site_SizeBytes s) = Some sz" using humanSize_some [OF assms] by blast
  then show ?thesis by (auto simp: diskRow_def Let_def split: option.splits)
qed

text \<open>
  C35: The index shows every site once.  The groups are the prefixes in the order in which they
  first occur in the listing, and each holds exactly the sites of its prefix, in the order of
  the listing, each linked to its own path; the page never fails for sites of 64-bit size.
\<close>

theorem groupDiskSites_partition:
  assumes "\<forall>s \<in> set sites. Site_SizeBytes s < 2 ^ 63"
  shows "\<exists>groups. groupDiskSites clk sites = Some groups \<and>
    map (\<lambda>g. (Group_Name g, map (\<lambda>r. (Row_Name r, Row_Href r)) (Group_Rows g))) groups =
    map (\<lambda>p. (p, map (\<lambda>s. (Site_Name s, ''/'' @ Site_Name s @ ''/'')) (filter (\<lambda>s. group_prefix (Site_Name s) = p) sites)))
      (firsts (map (\<lambda>s. group_prefix (Site_Name s)) sites))"
proof -
  obtain order m where l: "group_loop [] [] sites = (order, m)" by (rule that [OF surjective_pairing])
  have order: "order = firsts (map (\<lambda>s. group_prefix (Site_Name s)) sites)"
    and m: "\<And>p. p \<in> set order \<Longrightarrow> map_of m p = Some (filter (\<lambda>s. group_prefix (Site_Name s) = p) sites)"
    using group_loop_spec [of "[]" "[]" "[]" sites order m] l by (auto simp: firsts_def)
  have row: "diskRow (clk s) s l \<noteq> None" "Row_Name (the (diskRow (clk s) s l)) = Site_Name s"
    "Row_Href (the (diskRow (clk s) s l)) = ''/'' @ Site_Name s @ ''/''" if "s \<in> set sites" for s l
    using diskRow_some [of s "clk s" l] assms that by auto
  have group: "\<exists>g. build_group clk m p = Some g \<and> Group_Name g = p \<and> map (\<lambda>r. (Row_Name r, Row_Href r)) (Group_Rows g) =
      map (\<lambda>s. (Site_Name s, ''/'' @ Site_Name s @ ''/'')) (filter (\<lambda>s. group_prefix (Site_Name s) = p) sites)"
    if p: "p \<in> set order" for p
  proof -
    let ?ms = "filter (\<lambda>s. group_prefix (Site_Name s) = p) sites"
    have "opt_map (\<lambda>s. diskRow (clk s) s (row_label (is_grouped ?ms) p s)) ?ms =
        Some (map (\<lambda>s. the (diskRow (clk s) s (row_label (is_grouped ?ms) p s))) ?ms)"
      by (rule opt_map_total) (use row(1) in auto)
    then show ?thesis using row(2,3) m [OF p] by (auto simp: build_group_def Let_def)
  qed
  have "opt_map (build_group clk m) order = Some (map (\<lambda>p. the (build_group clk m p)) order)"
    by (rule opt_map_total) (use group in fastforce)
  then show ?thesis
    using group unfolding groupDiskSites_def l order by (fastforce simp: Let_def)
qed

definition sample_sites :: "site list" where
  "sample_sites = map (\<lambda>n. \<lparr>Site_Name = n, Site_UpdatedAt = 0, Site_SizeBytes = 2048, Site_FileCount = 1, Site_ExpiresAt = None\<rparr>)
     [''a.x'', ''b'', ''a.y'']"

theorem groupDiskSites_partition_witness:
  "\<exists>groups. groupDiskSites (\<lambda>s. (0, 0)) sample_sites = Some groups \<and> map Group_Name groups = [''a'', ''b'']"
proof -
  have "firsts (map (\<lambda>s. group_prefix (Site_Name s)) sample_sites) = [''a'', ''b'']" by code_simp
  then show ?thesis
    using groupDiskSites_partition [of sample_sites "\<lambda>s. (0, 0)"] by (auto simp: sample_sites_def)
qed

end
