(* ===== verification/Server.thy ===== *)
theory Server
  imports Config Index_View
begin

text \<open>
  \<^verbatim>\<open>internal/server\<close>: the HTTP daemon.  A handler is a function of the request, the audit
  record of the request and the state of the process; it returns the response and the new audit
  record and state.  The storage backend is a record of the operations of the interface
  \<^verbatim>\<open>Backend\<close> on an abstract world; the local and the object-store backend are instances of
  it.  Handlers that mutate hold a mutex, so the model runs them one after the other.  Measured
  durations and byte counts of the metrics are left out.
\<close>

section \<open>The backend interface\<close>

text \<open>An open file of a site is a file with its data or a directory with its entries.\<close>

datatype fs_entry = FileEntry bytes | DirEntry "string list"

datatype fs_fail = NotExistFail | OtherFail

type_synonym 'w fsys = "string \<Rightarrow> 'w \<Rightarrow> (fs_fail + fs_entry) \<times> 'w"

record 'w backend =
  be_List :: "'w \<Rightarrow> (store_err + site list) \<times> 'w"
  be_Names :: "'w \<Rightarrow> (store_err + string list) \<times> 'w"
  be_Exists :: "string \<Rightarrow> 'w \<Rightarrow> (store_err + bool) \<times> 'w"
  be_Stat :: "string \<Rightarrow> 'w \<Rightarrow> (store_err + site) \<times> 'w"
  be_Open :: "string \<Rightarrow> 'w \<Rightarrow> (store_err + 'w fsys) \<times> 'w"
  be_Replace :: "string \<Rightarrow> tar_stream \<Rightarrow> duration option \<Rightarrow> 'w \<Rightarrow> (store_err + site) \<times> 'w"
  be_Delete :: "string \<Rightarrow> 'w \<Rightarrow> (store_err + unit) \<times> 'w"
  be_DeleteExpired :: "time \<Rightarrow> 'w \<Rightarrow> (string list \<times> store_err option) \<times> 'w"

section \<open>Built-in sites\<close>

text \<open>A site embedded in the binary is a name and a directory tree.\<close>

record builtin_site =
  bi_Name :: string
  bi_FS :: node

definition fs_of_node :: "node \<Rightarrow> string \<Rightarrow> fs_fail + fs_entry" where
  "fs_of_node n name =
     (if \<not> ValidPath name then Inl OtherFail
      else case lookup n (if name = ''.'' then [] else Split name slash) of
        None \<Rightarrow> Inl NotExistFail
      | Some (File b m) \<Rightarrow> Inr (FileEntry b)
      | Some (Folder m es) \<Rightarrow> Inr (DirEntry (sort (map fst es))))"

definition countEmbedded :: "node \<Rightarrow> int \<times> int" where
  "countEmbedded n = (let fs = walk_files n in (int (length fs), (\<Sum>(p, b, m) \<leftarrow> fs. int (length b))))"

section \<open>Requests, responses, events\<close>

record request =
  rq_Method :: string
  rq_EscapedPath :: string
  rq_Path :: string
  rq_Auth :: string
  rq_Expires :: string
  rq_Body :: bytes
  rq_BodyFails :: bool
    \<comment> \<open>reading the body fails after the bytes in rq_Body\<close>

datatype err_msg =
    Msg string
  | StoreMsg store_err
  | TokenMsg token_err
  | ExpiryMsg string
  | LimitMsg int
  | JsonMsg

datatype payload =
    NoBody
  | JsonBody "err_msg body"
  | HtmlBody string
  | PlainBody string
  | FileBody bytes
  | ListingBody "string list"
  | Aborted
    \<comment> \<open>the handler panicked and the connection was dropped\<close>

record response =
  rs_Status :: nat
  rs_Location :: "string option"
  rs_Body :: payload

definition writeJSON :: "nat \<Rightarrow> err_msg body \<Rightarrow> response" where
  "writeJSON status b = \<lparr>rs_Status = status, rs_Location = None, rs_Body = JsonBody b\<rparr>"

definition writeError :: "nat \<Rightarrow> err_msg \<Rightarrow> response" where
  "writeError status msg = writeJSON status (ErrorResponse msg)"

definition noContent :: response where
  "noContent = \<lparr>rs_Status = 204, rs_Location = None, rs_Body = NoBody\<rparr>"

definition NotFound :: response where
  "NotFound = \<lparr>rs_Status = 404, rs_Location = None, rs_Body = PlainBody ''404 page not found''\<rparr>"

definition Redirect :: "string \<Rightarrow> nat \<Rightarrow> response" where
  "Redirect loc status = \<lparr>rs_Status = status, rs_Location = Some loc, rs_Body = NoBody\<rparr>"

definition panicked :: response where
  "panicked = \<lparr>rs_Status = 0, rs_Location = None, rs_Body = Aborted\<rparr>"

datatype level = LevelInfo | LevelWarn | LevelError

record audit =
  au_requestID :: string
  au_authKind :: string
  au_tokenID :: string
  au_tokenName :: string
  au_rejection :: string

datatype event =
    MetricHTTP string string nat
  | MetricMutation string string
  | MetricAuthRejection string
  | MetricStorage string string
  | MetricExpiry nat bool
  | MetricSiteCount nat
  | LogBroker level audit string string nat
  | LogEvent level string

definition markRejection :: "string \<Rightarrow> audit \<Rightarrow> audit" where
  "markRejection reason a = (if au_rejection a = [] then a\<lparr>au_rejection := reason\<rparr> else a)"

definition mutationOutcome :: "nat \<Rightarrow> string" where
  "mutationOutcome status =
     (if status \<ge> 200 \<and> status < 300 then ''success''
      else if status \<ge> 400 \<and> status < 500 then ''rejected''
      else ''error'')"

definition storageOutcome :: "bool \<Rightarrow> string" where
  "storageOutcome failed = (if failed then ''error'' else ''success'')"

section \<open>The server\<close>

text \<open>What the server calls outside of itself: clock, randomness, codecs, staging of uploads.\<close>

record 'w senv =
  se_now :: "'w \<Rightarrow> time \<times> 'w"
  se_rand :: "'w \<Rightarrow> rand_fn"
  se_marshal :: marshal_fn
  se_save :: "'w save_fn"
  se_decode :: "bytes \<Rightarrow> bool \<Rightarrow> create_token_request option"
    \<comment> \<open>the first JSON value of a reader that ends, or fails, after the bytes\<close>
  se_tar :: "bytes \<Rightarrow> tar_stream"
  se_CreateTemp :: "'w \<Rightarrow> bool \<times> 'w"
  se_CopyWrite :: "'w \<Rightarrow> bool \<times> 'w"
  se_Seek :: "'w \<Rightarrow> bool \<times> 'w"

record 'w server =
  sr_store :: "'w backend"
  sr_mutable :: "'w backend option"
  sr_cfg :: config
  sr_builtins :: "builtin_site list"
  sr_indexTmpl :: "index_view \<Rightarrow> string option"
  sr_Version :: string
  sr_env :: "'w senv"

record 'w sstate =
  sv_world :: 'w
  sv_tokens :: "token_store option"
  sv_events :: "event list"

definition emit :: "event \<Rightarrow> 'w sstate \<Rightarrow> 'w sstate" where
  "emit ev st = st\<lparr>sv_events := sv_events st @ [ev]\<rparr>"

text \<open>A call of the backend, the clock or another part of the world.\<close>

definition on_world :: "('w \<Rightarrow> 'a \<times> 'w) \<Rightarrow> 'w sstate \<Rightarrow> 'a \<times> 'w sstate" where
  "on_world f st = (let (r, w) = f (sv_world st) in (r, st\<lparr>sv_world := w\<rparr>))"

definition New_srv ::
  "config \<Rightarrow> 'w backend \<Rightarrow> builtin_site list \<Rightarrow> (index_view \<Rightarrow> string option) \<Rightarrow> string \<Rightarrow> 'w senv \<Rightarrow> 'w server" where
  "New_srv cfg store builtins tmpl version e =
     \<lparr>sr_store = store, sr_mutable = Some store, sr_cfg = cfg, sr_builtins = builtins, sr_indexTmpl = tmpl,
      sr_Version = version, sr_env = e\<rparr>"

definition NewReadOnly ::
  "config \<Rightarrow> 'w backend \<Rightarrow> builtin_site list \<Rightarrow> (index_view \<Rightarrow> string option) \<Rightarrow> string \<Rightarrow> 'w senv \<Rightarrow> 'w server" where
  "NewReadOnly cfg store builtins tmpl version e =
     \<lparr>sr_store = store, sr_mutable = None, sr_cfg = cfg, sr_builtins = builtins, sr_indexTmpl = tmpl,
      sr_Version = version, sr_env = e\<rparr>"

text \<open>The template library parses the file; the result renders views.\<close>

definition UseIndexTemplateFile ::
  "env \<Rightarrow> (bytes \<Rightarrow> (index_view \<Rightarrow> string option) option) \<Rightarrow> fpath \<Rightarrow> 'w server \<Rightarrow> world \<Rightarrow> (store_err + 'w server) \<times> world" where
  "UseIndexTemplateFile e parse p srv w =
     (case os_ReadFile e p w of
        (Inl err, w1) \<Rightarrow> (Inl (ErrWrap ''read index template'' err), w1)
      | (Inr src, w1) \<Rightarrow>
          (case parse src of
             None \<Rightarrow> (Inl (ErrWrap ''parse index template'' (ErrDecode ''template'')), w1)
           | Some t \<Rightarrow> (Inr (srv\<lparr>sr_indexTmpl := t\<rparr>), w1)))"

section \<open>Authentication\<close>

definition bearer :: "request \<Rightarrow> string" where
  "bearer r =
     (let h = rq_Auth r
      in if \<not> HasPrefix h ''Bearer '' then [] else TrimPrefix h ''Bearer '')"

definition isRoot :: "'w server \<Rightarrow> string \<Rightarrow> bool" where
  "isRoot srv got = (ConstantTimeCompare got (C_Token (sr_cfg srv)) = 1)"

type_synonym 'w handler = "request \<Rightarrow> audit \<Rightarrow> 'w sstate \<Rightarrow> response \<times> audit \<times> 'w sstate"

text \<open>The check of a minted token, which may be absent.\<close>

definition verify :: "'w server \<Rightarrow> string \<Rightarrow> 'w sstate \<Rightarrow> token_rec option \<times> 'w sstate" where
  "verify srv got st =
     (case sv_tokens st of
        None \<Rightarrow> (None, st)
      | Some ts \<Rightarrow>
          (let e = sr_env srv;
               (now, w1) = se_now e (sv_world st);
               (r, ts1, w2) = tok_Verify (se_marshal e) (se_save e) got now ts w1
           in (r, st\<lparr>sv_tokens := Some ts1, sv_world := w2\<rparr>)))"

definition requireAuth :: "'w server \<Rightarrow> 'w handler \<Rightarrow> 'w handler" where
  "requireAuth srv nxt = (\<lambda>r a st.
     (let got = bearer r
      in if got = [] then
           (writeError 401 (Msg ''missing bearer token''), a\<lparr>au_rejection := ''missing_bearer''\<rparr>, st)
         else if isRoot srv got then nxt r (a\<lparr>au_authKind := ''root''\<rparr>) st
         else case verify srv got st of
           (Some rec, st1) \<Rightarrow>
             nxt r (a\<lparr>au_authKind := ''token'', au_tokenID := R_ID rec, au_tokenName := R_Name rec\<rparr>) st1
         | (None, st1) \<Rightarrow>
             (writeError 401 (Msg ''invalid token''), a\<lparr>au_rejection := ''invalid_token''\<rparr>, st1)))"

definition requireRoot :: "'w server \<Rightarrow> 'w handler \<Rightarrow> 'w handler" where
  "requireRoot srv nxt = (\<lambda>r a st.
     (let got = bearer r
      in if got = [] then
           (writeError 401 (Msg ''missing bearer token''), a\<lparr>au_rejection := ''missing_bearer''\<rparr>, st)
         else if isRoot srv got then nxt r (a\<lparr>au_authKind := ''root''\<rparr>) st
         else case verify srv got st of
           (Some rec, st1) \<Rightarrow>
             (writeError 403 (Msg ''token management requires the root token''),
              a\<lparr>au_authKind := ''token'', au_tokenID := R_ID rec, au_tokenName := R_Name rec, au_rejection := ''root_required''\<rparr>, st1)
         | (None, st1) \<Rightarrow>
             (writeError 401 (Msg ''invalid token''), a\<lparr>au_rejection := ''invalid_token''\<rparr>, st1)))"

section \<open>The broker's handlers\<close>

text \<open>\<^verbatim>\<open>s.store.List()\<close> with its metric.\<close>

definition list_sites :: "'w server \<Rightarrow> 'w sstate \<Rightarrow> (store_err + site list) \<times> 'w sstate" where
  "list_sites srv st =
     (let (r, st1) = on_world (be_List (sr_store srv)) st
      in (r, emit (MetricStorage ''list'' (storageOutcome (isl r))) st1))"

definition refreshMetricSiteCount :: "'w server \<Rightarrow> 'w sstate \<Rightarrow> 'w sstate" where
  "refreshMetricSiteCount srv st =
     (case list_sites srv st of
        (Inl err, st1) \<Rightarrow> st1
      | (Inr sites, st1) \<Rightarrow> emit (MetricSiteCount (length sites)) st1)"

definition handleStatus :: "'w server \<Rightarrow> 'w handler" where
  "handleStatus srv = (\<lambda>r a st.
     (case list_sites srv st of
        (Inl err, st1) \<Rightarrow>
          (writeError 500 (StoreMsg err), a, emit (LogEvent LevelError ''status storage query failed'') st1)
      | (Inr sites, st1) \<Rightarrow>
          (writeJSON 200 (StatusResponse (sr_Version srv) (int (length sites)) (EffectivePublicURL (sr_cfg srv))), a,
           emit (MetricSiteCount (length sites)) st1)))"

definition handleHealth :: "'w server \<Rightarrow> response" where
  "handleHealth srv = writeJSON 200 (HealthResponse (sr_Version srv))"

definition handleListSites :: "'w server \<Rightarrow> 'w handler" where
  "handleListSites srv = (\<lambda>r a st.
     (case list_sites srv st of
        (Inl err, st1) \<Rightarrow> (writeError 500 (StoreMsg err), a, emit (LogEvent LevelError ''site list failed'') st1)
      | (Inr sites, st1) \<Rightarrow>
          (writeJSON 200 (ListSitesResponse sites), a, emit (MetricSiteCount (length sites)) st1)))"

definition defaultExpiry :: string where
  "defaultExpiry = ''24h0m0s''"
    \<comment> \<open>the constant 24 * time.Hour as Duration.String prints it\<close>

definition parseExpiry :: "string \<Rightarrow> err_msg + duration option" where
  "parseExpiry value =
     (if value = ''never'' then Inr None
      else let value = (if value = [] then defaultExpiry else value)
           in case ParseDuration value of
                None \<Rightarrow> Inl (ExpiryMsg value)
              | Some d \<Rightarrow> if d \<le> 0 then Inl (ExpiryMsg value) else Inr (Some d))"

text \<open>
  Copying the upload to the staging file.  A failing write of the file is an error of the copy;
  the reader of the body reports when the limit is exceeded, or that the body broke off.
\<close>

datatype copy_result = CopyDone | CopyTooBig | CopyFailed

definition copy_upload :: "'w server \<Rightarrow> request \<Rightarrow> 'w sstate \<Rightarrow> copy_result \<times> 'w sstate" where
  "copy_upload srv r st =
     (case on_world (se_CopyWrite (sr_env srv)) st of
        (written, st1) \<Rightarrow>
          (if \<not> written then CopyFailed
           else if int (length (rq_Body r)) > C_MaxUploadBytes (sr_cfg srv) then CopyTooBig
           else if rq_BodyFails r then CopyFailed
           else CopyDone, st1))"

text \<open>What follows the call of \<^verbatim>\<open>ReplaceFromTarWithExpiry\<close>.\<close>

definition put_reply :: "'w server \<Rightarrow> string \<Rightarrow> store_err + site \<Rightarrow> audit \<Rightarrow> 'w sstate \<Rightarrow> response \<times> audit \<times> 'w sstate" where
  "put_reply srv name res a st =
     (case res of
        Inl err \<Rightarrow>
          if is_ErrSiteTooLarge err then
            (writeError 413 (LimitMsg (C_MaxUploadBytes (sr_cfg srv))), markRejection ''upload_too_large'' a, st)
          else if is_ErrUnsafePath err then
            (writeError 400 (StoreMsg err), markRejection ''unsafe_archive_path'' a, st)
          else (writeError 500 (StoreMsg err), a, emit (LogEvent LevelError ''site store failed'') st)
      | Inr site \<Rightarrow>
          (writeJSON 200 (PutSiteResponse site (TrimRight (EffectivePublicURL (sr_cfg srv)) slash @ ''/'' @ name @ ''/'')), a,
           refreshMetricSiteCount srv (emit (LogEvent LevelInfo ''site stored'') st)))"

definition handlePutSite :: "'w server \<Rightarrow> string \<Rightarrow> 'w handler" where
  "handlePutSite srv name = (\<lambda>r a st.
     (case ValidateName name of
        Some err \<Rightarrow> (writeError 400 (StoreMsg err), markRejection ''invalid_site_name'' a, st)
      | None \<Rightarrow>
          (case parseExpiry (rq_Expires r) of
             Inl msg \<Rightarrow> (writeError 400 msg, markRejection ''invalid_expiry'' a, st)
           | Inr dur \<Rightarrow>
               (case on_world (se_CreateTemp (sr_env srv)) st of
                  (ok, st1) \<Rightarrow>
                    if \<not> ok then
                      (writeError 500 (Msg ''stage upload failed''), a, emit (LogEvent LevelError ''site upload staging failed'') st1)
                    else case copy_upload srv r st1 of
                      (CopyTooBig, st2) \<Rightarrow>
                        (writeError 413 (LimitMsg (C_MaxUploadBytes (sr_cfg srv))), markRejection ''upload_too_large'' a, st2)
                    | (CopyFailed, st2) \<Rightarrow>
                        (writeError 400 (Msg ''read upload failed''), markRejection ''upload_read_failed'' a,
                         emit (LogEvent LevelWarn ''site upload read failed'') st2)
                    | (CopyDone, st2) \<Rightarrow>
                        (case on_world (se_Seek (sr_env srv)) st2 of
                           (ok, st3) \<Rightarrow>
                             if \<not> ok then
                               (writeError 500 (Msg ''stage upload failed''), a, emit (LogEvent LevelError ''site upload rewind failed'') st3)
                             else case sr_mutable srv of
                               None \<Rightarrow> (panicked, a, st3)
                             | Some be \<Rightarrow>
                                 (case on_world (be_Replace be name (se_tar (sr_env srv) (rq_Body r)) dur) st3 of
                                    (res, st4) \<Rightarrow>
                                      put_reply srv name res a (emit (MetricStorage ''replace'' (storageOutcome (isl res))) st4)))))))"

definition handleDeleteSite :: "'w server \<Rightarrow> string \<Rightarrow> 'w handler" where
  "handleDeleteSite srv name = (\<lambda>r a st.
     (case ValidateName name of
        Some err \<Rightarrow> (writeError 400 (StoreMsg err), markRejection ''invalid_site_name'' a, st)
      | None \<Rightarrow>
          (case sr_mutable srv of
             None \<Rightarrow> (panicked, a, st)
           | Some be \<Rightarrow>
               (case on_world (be_Delete be name) st of
                  (res, st1) \<Rightarrow>
                    (let st2 = emit (MetricStorage ''delete'' (storageOutcome (isl res))) st1
                     in case res of
                          Inl err \<Rightarrow>
                            if is_ErrNotFound err then (writeError 404 (StoreMsg err), markRejection ''site_not_found'' a, st2)
                            else (writeError 500 (StoreMsg err), a, emit (LogEvent LevelError ''site delete failed'') st2)
                        | Inr u \<Rightarrow>
                            (noContent, a, refreshMetricSiteCount srv (emit (LogEvent LevelInfo ''site deleted'') st2)))))))"

text \<open>\<^verbatim>\<open>Server.DeleteExpired\<close>, which the daemon calls every minute.\<close>

definition srv_DeleteExpired :: "'w server \<Rightarrow> time \<Rightarrow> 'w sstate \<Rightarrow> (string list \<times> store_err option) option \<times> 'w sstate" where
  "srv_DeleteExpired srv now st =
     (case sr_mutable srv of
        None \<Rightarrow> (None, st)
      | Some be \<Rightarrow>
          (case on_world (be_DeleteExpired be now) st of
             ((deleted, err), st1) \<Rightarrow>
               (let st2 = emit (MetricExpiry (length deleted) (err \<noteq> None))
                            (emit (MetricStorage ''delete_expired'' (storageOutcome (err \<noteq> None))) st1)
                in (Some (deleted, err), if err = None then refreshMetricSiteCount srv st2 else st2))))"

section \<open>Token management\<close>

definition tokenInfo :: "token_rec \<Rightarrow> token_info" where
  "tokenInfo r = \<lparr>TI_ID = R_ID r, TI_Name = R_Name r, TI_CreatedAt = R_CreatedAt r, TI_ExpiresAt = R_ExpiresAt r,
     TI_LastUsedAt = R_LastUsedAt r\<rparr>"

definition parseTokenExpiry :: "string \<Rightarrow> err_msg + duration option" where
  "parseTokenExpiry value =
     (if value = [] \<or> value = ''never'' then Inr None
      else case ParseDuration value of
        None \<Rightarrow> Inl (ExpiryMsg value)
      | Some d \<Rightarrow> if d \<le> 0 then Inl (ExpiryMsg value) else Inr (Some d))"

definition no_tokens :: "audit \<Rightarrow> 'w sstate \<Rightarrow> response \<times> audit \<times> 'w sstate" where
  "no_tokens a st = (writeError 500 (Msg ''token store unavailable''), a, emit (LogEvent LevelError ''token store unavailable'') st)"

fun is_ErrDuplicateName :: "token_err \<Rightarrow> bool" where
  "is_ErrDuplicateName (TErrDuplicateName n) = True"
| "is_ErrDuplicateName _ = False"

fun is_TErrNotFound :: "token_err \<Rightarrow> bool" where
  "is_TErrNotFound (TErrNotFound n) = True"
| "is_TErrNotFound _ = False"

definition handleCreateToken :: "'w server \<Rightarrow> 'w handler" where
  "handleCreateToken srv = (\<lambda>r a st.
     (case sv_tokens st of
        None \<Rightarrow> no_tokens a st
      | Some ts \<Rightarrow>
          (let e = sr_env srv
           in case (if int (length (rq_Body r)) \<le> 2 ^ 20 then se_decode e (rq_Body r) (rq_BodyFails r)
                    else se_decode e (take (2 ^ 20) (rq_Body r)) False) of
                None \<Rightarrow> (writeError 400 JsonMsg, markRejection ''invalid_json'' a, st)
              | Some req \<Rightarrow>
                  (case parseTokenExpiry (Req_Expires req) of
                     Inl msg \<Rightarrow> (writeError 400 msg, markRejection ''invalid_token_expiry'' a, st)
                   | Inr ttl \<Rightarrow>
                       (let (now, w1) = se_now e (sv_world st);
                            (res, ts1, w2) = tok_Create (se_marshal e) (se_save e) (se_rand e w1) (Req_Name req) ttl now ts w1;
                            st1 = st\<lparr>sv_tokens := Some ts1, sv_world := w2\<rparr>
                        in case res of
                             Inl err \<Rightarrow>
                               if is_ErrDuplicateName err
                               then (writeError 409 (TokenMsg err), markRejection ''duplicate_token_name'' a, st1)
                               else (writeError 400 (TokenMsg err), markRejection ''invalid_token_request'' a, st1)
                           | Inr (plaintext, rec) \<Rightarrow>
                               (writeJSON 201 (CreateTokenResponse plaintext (tokenInfo rec)), a,
                                emit (LogEvent LevelInfo ''token created'') st1))))))"

definition handleListTokens :: "'w server \<Rightarrow> 'w handler" where
  "handleListTokens srv = (\<lambda>r a st.
     (case sv_tokens st of
        None \<Rightarrow> no_tokens a st
      | Some ts \<Rightarrow> (writeJSON 200 (ListTokensResponse (map tokenInfo (tok_List ts))), a, st)))"

definition handleRevokeToken :: "'w server \<Rightarrow> string \<Rightarrow> 'w handler" where
  "handleRevokeToken srv idOrName = (\<lambda>r a st.
     (case sv_tokens st of
        None \<Rightarrow> no_tokens a st
      | Some ts \<Rightarrow>
          (let e = sr_env srv;
               (res, ts1, w1) = tok_Revoke (se_marshal e) (se_save e) idOrName ts (sv_world st);
               st1 = st\<lparr>sv_tokens := Some ts1, sv_world := w1\<rparr>
           in case res of
                Inl err \<Rightarrow>
                  if is_TErrNotFound err then (writeError 404 (TokenMsg err), markRejection ''token_not_found'' a, st1)
                  else (writeError 500 (TokenMsg err), a, emit (LogEvent LevelError ''token revoke failed'') st1)
              | Inr u \<Rightarrow> (noContent, a, emit (LogEvent LevelInfo ''token revoked'') st1))))"

section \<open>The request log\<close>

text \<open>\<^verbatim>\<open>%016x\<close> of a time in nanoseconds.\<close>

fun hex_digits :: "nat \<Rightarrow> string" where
  "hex_digits n = (if n < 16 then [digit n] else hex_digits (n div 16) @ [digit (n mod 16)])"

declare hex_digits.simps [simp del]

definition hex016 :: "int \<Rightarrow> string" where
  "hex016 i =
     (let s = (if i < 0 then ''-'' else []); ds = hex_digits (nat \<bar>i\<bar>)
      in s @ replicate (16 - length s - length ds) (CHR ''0'') @ ds)"

definition newRequestID :: "'w server \<Rightarrow> 'w sstate \<Rightarrow> string \<times> 'w sstate" where
  "newRequestID srv st =
     (case se_rand (sr_env srv) (sv_world st) 0 8 of
        Some raw \<Rightarrow> (EncodeToString raw, st)
      | None \<Rightarrow> (let (now, st1) = on_world (se_now (sr_env srv)) st in (hex016 now, st1)))"

definition auth_rejections :: "string list" where
  "auth_rejections = [''missing_bearer'', ''invalid_token'', ''root_required'']"

definition log_level :: "nat \<Rightarrow> level" where
  "log_level status = (if status \<ge> 500 then LevelError else if status \<ge> 400 then LevelWarn else LevelInfo)"

definition broker_events :: "string \<Rightarrow> string \<Rightarrow> nat \<Rightarrow> audit \<Rightarrow> event list" where
  "broker_events meth route status a =
     [MetricHTTP meth route status] @
     (if au_rejection a \<in> set auth_rejections then [MetricAuthRejection (au_rejection a)] else []) @
     (if meth = ''PUT'' \<and> route = ''/api/sites/{name}'' then [MetricMutation ''push'' (mutationOutcome status)] else []) @
     (if meth = ''DELETE'' \<and> route = ''/api/sites/{name}'' then [MetricMutation ''delete'' (mutationOutcome status)] else []) @
     [LogBroker (log_level status) a meth route status]"

definition logBrokerRequest :: "'w server \<Rightarrow> string \<Rightarrow> 'w handler \<Rightarrow> request \<Rightarrow> 'w sstate \<Rightarrow> response \<times> 'w sstate" where
  "logBrokerRequest srv route nxt r st =
     (let (rid, st1) = newRequestID srv st;
          (resp, a, st2) = nxt r \<lparr>au_requestID = rid, au_authKind = ''anonymous'', au_tokenID = [], au_tokenName = [],
                                  au_rejection = []\<rparr> st1
      in if rs_Body resp = Aborted then (resp, st2)
         else (resp, st2\<lparr>sv_events := sv_events st2 @ broker_events (rq_Method r) route (rs_Status resp) a\<rparr>))"

section \<open>Serving files\<close>

text \<open>
  \<^verbatim>\<open>http.ServeFileFS\<close> of the standard library: it refuses a URL path with a dot-dot element,
  sends \<^verbatim>\<open>.../index.html\<close> to its directory, and serves a file, the index of a directory or a
  listing.  Conditional and range requests are not told apart.
\<close>

definition containsDotDot :: "string \<Rightarrow> bool" where
  "containsDotDot v = (\<exists>ent \<in> set (Split (ReplaceAll v (CHR 0x5C) slash) slash). ent = ''..'')"

definition toHTTPError :: "fs_fail \<Rightarrow> response" where
  "toHTTPError err =
     (case err of
        NotExistFail \<Rightarrow> NotFound
      | OtherFail \<Rightarrow> \<lparr>rs_Status = 500, rs_Location = None, rs_Body = PlainBody ''500 Internal Server Error''\<rparr>)"

definition okBody :: "payload \<Rightarrow> response" where
  "okBody b = \<lparr>rs_Status = 200, rs_Location = None, rs_Body = b\<rparr>"

definition serveEntry :: "fs_entry \<Rightarrow> response" where
  "serveEntry ent = (case ent of FileEntry b \<Rightarrow> okBody (FileBody b) | DirEntry names \<Rightarrow> okBody (ListingBody names))"

definition ServeFileFS :: "request \<Rightarrow> 'w fsys \<Rightarrow> string \<Rightarrow> 'w \<Rightarrow> response \<times> 'w" where
  "ServeFileFS r fsys name w =
     (if containsDotDot (rq_Path r) then
        (\<lparr>rs_Status = 400, rs_Location = None, rs_Body = PlainBody ''invalid URL path''\<rparr>, w)
      else if HasSuffix (rq_Path r) ''/index.html'' then (Redirect ''./'' 301, w)
      else case fsys name w of
        (Inl err, w1) \<Rightarrow> (toHTTPError err, w1)
      | (Inr (FileEntry b), w1) \<Rightarrow> (okBody (FileBody b), w1)
      | (Inr (DirEntry names), w1) \<Rightarrow>
          if rq_Path r = [] \<or> last (rq_Path r) \<noteq> slash then (Redirect (Base (rq_Path r) @ ''/'') 301, w1)
          else (case fsys (TrimSuffix name ''/'' @ ''/index.html'') w1 of
                  (Inl err, w2) \<Rightarrow> (okBody (ListingBody names), w2)
                | (Inr ent, w2) \<Rightarrow> (serveEntry ent, w2)))"

text \<open>The path inside the site that \<^verbatim>\<open>serveSite\<close> asks for.\<close>

definition site_path :: "string \<Rightarrow> string" where
  "site_path rest =
     (let rest = (if rest = [] \<or> HasSuffix rest ''/'' then path_Join rest ''index.html'' else rest)
      in TrimPrefix (Clean (slash # rest)) ''/'')"

definition serveSite :: "request \<Rightarrow> string \<Rightarrow> 'w fsys \<Rightarrow> string list \<Rightarrow> 'w sstate \<Rightarrow> response \<times> 'w sstate" where
  "serveSite r name fsys parts st =
     (case parts of
        p # rest # ps \<Rightarrow> on_world (ServeFileFS r fsys (site_path rest)) st
      | _ \<Rightarrow> (Redirect (''/'' @ name @ ''/'') 302, st))"

definition findBuiltin :: "'w server \<Rightarrow> string \<Rightarrow> builtin_site option" where
  "findBuiltin srv name = find (\<lambda>b. bi_Name b = name) (sr_builtins srv)"

definition hasGroupChildren :: "'w server \<Rightarrow> string \<Rightarrow> 'w sstate \<Rightarrow> bool \<times> 'w sstate" where
  "hasGroupChildren srv prefix st =
     (case on_world (be_Names (sr_store srv)) st of
        (Inl err, st1) \<Rightarrow> (False, st1)
      | (Inr names, st1) \<Rightarrow> (list_ex (\<lambda>n. HasPrefix n (prefix @ ''.'')) names, st1))"

section \<open>The index\<close>

definition executeIndex :: "'w server \<Rightarrow> index_view \<Rightarrow> 'w sstate \<Rightarrow> response \<times> 'w sstate" where
  "executeIndex srv view st =
     (case sr_indexTmpl srv view of
        None \<Rightarrow> (writeError 500 (Msg ''index render failed''), emit (LogEvent LevelError ''render index failed'') st)
      | Some page \<Rightarrow> (okBody (HtmlBody page), st))"

definition builtin_group :: "builtin_site \<Rightarrow> site_group option" where
  "builtin_group b =
     (let (files, sz) = countEmbedded (bi_FS b)
      in case humanSize sz of
           None \<Rightarrow> None
         | Some label \<Rightarrow>
             Some \<lparr>Group_Name = [], Group_Href = [], Group_Grouped = False,
                   Group_Rows = [\<lparr>Row_Name = bi_Name b, Row_Label = bi_Name b, Row_Href = ''/'' @ bi_Name b @ ''/'',
                                  Row_Builtin = True, Row_FileCount = files, Row_SizeHuman = label, Row_UpdatedRel = [],
                                  Row_UpdatedAbs = [], Row_ExpiryLabel = []\<rparr>]\<rparr>)"

text \<open>The clock reads of the rows are taken as one instant, read after the listing.\<close>

definition renderIndex :: "'w server \<Rightarrow> 'w sstate \<Rightarrow> response \<times> 'w sstate" where
  "renderIndex srv st =
     (case on_world (be_List (sr_store srv)) st of
        (Inl err, st1) \<Rightarrow> (writeError 500 (StoreMsg err), st1)
      | (Inr all, st1) \<Rightarrow>
          (let (now, st2) = on_world (se_now (sr_env srv)) st1;
               sites = unexpiredSites all now;
               (row_now, st3) = on_world (se_now (sr_env srv)) st2;
               shown = filter (\<lambda>b. bi_Name b \<notin> set (map Site_Name sites)) (sr_builtins srv)
           in case groupDiskSites (\<lambda>s. (row_now, row_now)) sites of
                None \<Rightarrow> (panicked, st3)
              | Some disk \<Rightarrow>
                  (case opt_map builtin_group shown of
                     None \<Rightarrow> (panicked, st3)
                   | Some extra \<Rightarrow>
                       executeIndex srv \<lparr>View_Title = ''crate'', View_Group = False, View_Empty = (length (disk @ extra) = 0),
                                         View_Groups = disk @ extra\<rparr> st3)))"

definition renderGroupIndex :: "'w server \<Rightarrow> string \<Rightarrow> 'w sstate \<Rightarrow> response \<times> 'w sstate" where
  "renderGroupIndex srv prefix st =
     (case on_world (be_List (sr_store srv)) st of
        (Inl err, st1) \<Rightarrow> (writeError 500 (StoreMsg err), st1)
      | (Inr all, st1) \<Rightarrow>
          (let (now, st2) = on_world (se_now (sr_env srv)) st1;
               sites = filter (\<lambda>s. HasPrefix (Site_Name s) (prefix @ ''.'')) (unexpiredSites all now);
               (row_now, st3) = on_world (se_now (sr_env srv)) st2
           in case opt_map (\<lambda>s. diskRow (row_now, row_now) s (TrimPrefix (Site_Name s) (prefix @ ''.''))) sites of
                None \<Rightarrow> (panicked, st3)
              | Some rows \<Rightarrow>
                  if rows = [] then (NotFound, st3)
                  else executeIndex srv \<lparr>View_Title = prefix, View_Group = True, View_Empty = False,
                         View_Groups = [\<lparr>Group_Name = [], Group_Href = [], Group_Grouped = False, Group_Rows = rows\<rparr>]\<rparr> st3))"

section \<open>The public handler\<close>

definition public_builtin :: "'w server \<Rightarrow> request \<Rightarrow> string \<Rightarrow> string list \<Rightarrow> 'w sstate \<Rightarrow> response \<times> 'w sstate" where
  "public_builtin srv r name parts st =
     (case findBuiltin srv name of
        Some b \<Rightarrow> serveSite r (bi_Name b) (\<lambda>p w. (fs_of_node (bi_FS b) p, w)) parts st
      | None \<Rightarrow>
          (case hasGroupChildren srv name st of
             (children, st1) \<Rightarrow>
               if children \<and> length parts = 1 then (Redirect (''/'' @ name @ ''/'') 302, st1)
               else if children \<and> parts ! 1 = [] then renderGroupIndex srv name st1
               else (NotFound, st1)))"

definition public_stored :: "'w server \<Rightarrow> request \<Rightarrow> string \<Rightarrow> string list \<Rightarrow> 'w sstate \<Rightarrow> response \<times> 'w sstate" where
  "public_stored srv r name parts st =
     (case on_world (be_Open (sr_store srv) name) st of
        (Inl err, st1) \<Rightarrow>
          if is_ErrNotFound err then (NotFound, st1)
          else (writeError 500 (Msg ''open site failed''), emit (LogEvent LevelError ''open site failed'') st1)
      | (Inr fsys, st1) \<Rightarrow> serveSite r name fsys parts st1)"

definition handlePublic :: "'w server \<Rightarrow> request \<Rightarrow> 'w sstate \<Rightarrow> response \<times> 'w sstate" where
  "handlePublic srv r st =
     (if HasPrefix (rq_Path r) ''/api/'' \<or> rq_Path r = ''/api'' then (NotFound, st)
      else if rq_Path r = ''/'' then renderIndex srv st
      else let parts = SplitN2 (TrimPrefix (rq_Path r) ''/'') slash; name = hd parts
           in case ValidateName name of
                Some err \<Rightarrow> (NotFound, st)
              | None \<Rightarrow>
                  (case on_world (be_Stat (sr_store srv) name) st of
                     (Inl err, st1) \<Rightarrow> public_builtin srv r name parts st1
                   | (Inr site, st1) \<Rightarrow>
                       (let (now, st2) = on_world (se_now (sr_env srv)) st1
                        in if expired site now then (NotFound, st2) else public_stored srv r name parts st2)))"

section \<open>Routing\<close>

text \<open>
  The patterns of \<^verbatim>\<open>http.ServeMux\<close>: a method (empty for any), path segments and the handler.
  In the tables below more specific patterns come first, so the first match is the one the
  multiplexer picks.  A \<^verbatim>\<open>HEAD\<close> request also matches a \<^verbatim>\<open>GET\<close> pattern.
\<close>

datatype seg = Lit string | Wild | Multi

datatype route = RHealth | RStatus | RListSites | RPutSite | RDeleteSite | RCreateToken | RListTokens | RRevokeToken
  | RPublic | RNotFound

type_synonym pattern = "string \<times> seg list \<times> route"

fun match_segs :: "seg list \<Rightarrow> string list \<Rightarrow> string list option" where
  "match_segs [] [] = Some []"
| "match_segs (Multi # ps) ss = Some []"
| "match_segs (Lit l # ps) (s # ss) = (if l = s then match_segs ps ss else None)"
| "match_segs (Wild # ps) (s # ss) = (if s = [] then None else map_option (\<lambda>m. s # m) (match_segs ps ss))"
| "match_segs _ _ = None"

definition brokerRoutes :: "pattern list" where
  "brokerRoutes =
     [(''GET'', [Lit ''api'', Lit ''status''], RStatus),
      (''GET'', [Lit ''api'', Lit ''sites''], RListSites),
      (''PUT'', [Lit ''api'', Lit ''sites'', Wild], RPutSite),
      (''DELETE'', [Lit ''api'', Lit ''sites'', Wild], RDeleteSite),
      (''POST'', [Lit ''api'', Lit ''tokens''], RCreateToken),
      (''GET'', [Lit ''api'', Lit ''tokens''], RListTokens),
      (''DELETE'', [Lit ''api'', Lit ''tokens'', Wild], RRevokeToken)]"

definition publicRoutes :: "pattern list" where
  "publicRoutes = [(''GET'', [Multi], RPublic)]"

definition healthRoute :: "pattern list" where
  "healthRoute = [(''GET'', [Lit ''healthz''], RHealth)]"

definition Handler :: "pattern list" where
  "Handler = healthRoute @ brokerRoutes @ publicRoutes"

definition BrokerHandler :: "pattern list" where
  "BrokerHandler = healthRoute @ brokerRoutes"

definition PublicHandler :: "pattern list" where
  "PublicHandler = healthRoute @ publicRoutes @ [([], [Multi], RNotFound)]"

fun first_match :: "pattern list \<Rightarrow> string \<Rightarrow> string list \<Rightarrow> (route \<times> string list) option" where
  "first_match [] m ss = None"
| "first_match ((pm, segs, rt) # ps) m ss =
     (if pm = m then (case match_segs segs ss of Some vals \<Rightarrow> Some (rt, vals) | None \<Rightarrow> first_match ps m ss)
      else first_match ps m ss)"

definition mux_match :: "pattern list \<Rightarrow> string \<Rightarrow> string list \<Rightarrow> (route \<times> string list) option" where
  "mux_match ps m ss =
     (case (if m = [] then None else first_match ps m ss) of
        Some x \<Rightarrow> Some x
      | None \<Rightarrow>
          (case (if m = ''HEAD'' then first_match ps ''GET'' ss else None) of
             Some x \<Rightarrow> Some x
           | None \<Rightarrow> first_match ps [] ss))"

text \<open>Percent-decoding of a path segment; a malformed one stays as it is.\<close>

definition hex_val :: "char \<Rightarrow> nat option" where
  "hex_val c =
     (if CHR ''0'' \<le> c \<and> c \<le> CHR ''9'' then Some (of_char c - 48)
      else if CHR ''a'' \<le> c \<and> c \<le> CHR ''f'' then Some (of_char c - 87)
      else if CHR ''A'' \<le> c \<and> c \<le> CHR ''F'' then Some (of_char c - 55)
      else None)"

fun unescape :: "string \<Rightarrow> string option" where
  "unescape [] = Some []"
| "unescape (c # s) =
     (if c = CHR ''%'' then
        (case s of
           a # b # r \<Rightarrow>
             (case (hex_val a, hex_val b) of
                (Some x, Some y) \<Rightarrow> map_option (\<lambda>t. char_of (16 * x + y) # t) (unescape r)
              | _ \<Rightarrow> None)
         | _ \<Rightarrow> None)
      else map_option (\<lambda>t. c # t) (unescape s))"

definition pathUnescape :: "string \<Rightarrow> string" where
  "pathUnescape s = (case unescape s of None \<Rightarrow> s | Some t \<Rightarrow> t)"

definition cleanPath :: "string \<Rightarrow> string" where
  "cleanPath p =
     (if p = [] then ''/''
      else let p = (if hd p \<noteq> slash then slash # p else p); np = Clean p
           in if last p = slash \<and> np \<noteq> ''/'' then np @ ''/'' else np)"

definition dispatch :: "'w server \<Rightarrow> route \<Rightarrow> string \<Rightarrow> request \<Rightarrow> 'w sstate \<Rightarrow> response \<times> 'w sstate" where
  "dispatch srv rt val r st =
     (case rt of
        RHealth \<Rightarrow> (handleHealth srv, st)
      | RStatus \<Rightarrow> logBrokerRequest srv ''/api/status'' (handleStatus srv) r st
      | RListSites \<Rightarrow> logBrokerRequest srv ''/api/sites'' (requireAuth srv (handleListSites srv)) r st
      | RPutSite \<Rightarrow> logBrokerRequest srv ''/api/sites/{name}'' (requireAuth srv (handlePutSite srv val)) r st
      | RDeleteSite \<Rightarrow> logBrokerRequest srv ''/api/sites/{name}'' (requireAuth srv (handleDeleteSite srv val)) r st
      | RCreateToken \<Rightarrow> logBrokerRequest srv ''/api/tokens'' (requireRoot srv (handleCreateToken srv)) r st
      | RListTokens \<Rightarrow> logBrokerRequest srv ''/api/tokens'' (requireRoot srv (handleListTokens srv)) r st
      | RRevokeToken \<Rightarrow> logBrokerRequest srv ''/api/tokens/{id}'' (requireRoot srv (handleRevokeToken srv val)) r st
      | RPublic \<Rightarrow> handlePublic srv r st
      | RNotFound \<Rightarrow> (NotFound, st))"

text \<open>
  \<^verbatim>\<open>ServeMux.ServeHTTP\<close>: an unclean path is redirected to its clean form, then the matching
  handler runs; a path that matches only under other methods is 405.
\<close>

definition serve :: "pattern list \<Rightarrow> 'w server \<Rightarrow> request \<Rightarrow> 'w sstate \<Rightarrow> response \<times> 'w sstate" where
  "serve ps srv r st =
     (let p = cleanPath (rq_EscapedPath r)
      in if p \<noteq> rq_EscapedPath r then (Redirect p 307, st)
         else let ss = map pathUnescape (Split (tl p) slash)
              in case mux_match ps (rq_Method r) ss of
                   Some (rt, vals) \<Rightarrow> dispatch srv rt (if vals = [] then [] else hd vals) r st
                 | None \<Rightarrow>
                     if list_ex (\<lambda>(m, segs, rt). match_segs segs ss \<noteq> None) ps
                     then (\<lparr>rs_Status = 405, rs_Location = None, rs_Body = PlainBody ''Method Not Allowed''\<rparr>, st)
                     else (NotFound, st))"

end
