(* ===== verification/S3_Store.thy ===== *)
theory S3_Store
  imports Mem_FS Lru_Cache
begin

text \<open>
  \<^verbatim>\<open>internal/s3store/s3store.go\<close> and \<^verbatim>\<open>document.go\<close>: the backend that keeps each site as
  an archive object under a versioned key and a metadata object that names the live version.
  The object-store client is third-party code and so a parameter: a record of the calls the
  source makes, on an abstract bucket state.  What the source relies on is the predicate
  \<^verbatim>\<open>client_ok\<close> at the end, which the theorems name as a hypothesis.
\<close>

section \<open>Objects and the client\<close>

record site_meta =
  M_Name :: string
  M_Version :: string
  M_FileCount :: int
  M_SizeBytes :: int
  M_UpdatedAt :: time
  M_ExpiresAt :: "time option"

definition toWire :: "site_meta \<Rightarrow> site" where
  "toWire m = \<lparr>Site_Name = M_Name m, Site_UpdatedAt = M_UpdatedAt m, Site_SizeBytes = M_SizeBytes m,
     Site_FileCount = M_FileCount m, Site_ExpiresAt = M_ExpiresAt m\<rparr>"

text \<open>
  An object's body is what was encoded into it: an archive, a JSON metadata document, or other
  bytes.  Decoding a body as something it is not fails.
\<close>

datatype s3_body = TarBody tar_stream | MetaBody site_meta | DocBody bytes

fun as_tar :: "s3_body \<Rightarrow> tar_stream" where
  "as_tar (TarBody ts) = ts"
| "as_tar _ = TarErr"

text \<open>The conditional headers of a write.\<close>

datatype put_cond = NoCond | MatchETag string | MatchETagExcept string

text \<open>
  \<^verbatim>\<open>GetObject\<close> is lazy: the request may fail when the object is opened, read or asked for its
  version.  A listing delivers keys until it ends or fails.  The clock and the random source
  are listed here too.
\<close>

record 'b s3_client =
  cl_GetObject :: "string \<Rightarrow> 'b \<Rightarrow> (store_err + unit) \<times> 'b"
  cl_Read :: "string \<Rightarrow> 'b \<Rightarrow> (store_err + s3_body) \<times> 'b"
  cl_StatETag :: "string \<Rightarrow> 'b \<Rightarrow> (store_err + string) \<times> 'b"
  cl_PutObject :: "string \<Rightarrow> s3_body \<Rightarrow> put_cond \<Rightarrow> 'b \<Rightarrow> (store_err + string) \<times> 'b"
  cl_RemoveObject :: "string \<Rightarrow> 'b \<Rightarrow> (store_err + unit) \<times> 'b"
  cl_ListObjects :: "string \<Rightarrow> 'b \<Rightarrow> (string list \<times> store_err option) \<times> 'b"
  cl_ToErrorResponse :: "store_err \<Rightarrow> nat \<times> string"
  cl_Now :: "'b \<Rightarrow> time \<times> 'b"
  cl_Rand :: "nat \<Rightarrow> 'b \<Rightarrow> bytes option \<times> 'b"

fun is_ErrNotExist :: "store_err \<Rightarrow> bool" where
  "is_ErrNotExist ErrNotExist = True"
| "is_ErrNotExist (ErrWrap m e) = is_ErrNotExist e"
| "is_ErrNotExist _ = False"

definition isNotFound :: "'b s3_client \<Rightarrow> store_err \<Rightarrow> bool" where
  "isNotFound cl err =
     (if is_ErrNotExist err \<or> is_ErrNotFound err then True
      else let (status, code) = cl_ToErrorResponse cl err
           in if status = 404 then True
              else code = ''NoSuchKey'' \<or> code = ''NoSuchBucket'' \<or> code = ''NotFound'')"

definition isPreconditionFailed :: "'b s3_client \<Rightarrow> store_err \<Rightarrow> bool" where
  "isPreconditionFailed cl err =
     (let (status, code) = cl_ToErrorResponse cl err
      in status = 412 \<or> status = 409 \<or> code = ''PreconditionFailed'')"

section \<open>Documents\<close>

record document =
  d_key :: string
  d_etag :: string
  d_seen :: bool

definition observe :: "string \<Rightarrow> bool \<Rightarrow> document \<Rightarrow> document" where
  "observe etag seen d = d\<lparr>d_etag := etag, d_seen := seen\<rparr>"

text \<open>The bytes of a document; an archive or metadata body is not one this code reads.\<close>

fun doc_bytes :: "s3_body \<Rightarrow> bytes" where
  "doc_bytes (DocBody b) = b"
| "doc_bytes _ = []"

definition Document_Load :: "'b s3_client \<Rightarrow> document \<times> 'b \<Rightarrow> (store_err + bytes) \<times> document \<times> 'b" where
  "Document_Load cl = (\<lambda>(d, b).
     (case cl_GetObject cl (d_key d) b of
        (Inl err, b1) \<Rightarrow>
          if isNotFound cl err then (Inr [], observe [] True d, b1) else (Inl err, d, b1)
      | (Inr u, b1) \<Rightarrow>
          (case cl_Read cl (d_key d) b1 of
             (Inl err, b2) \<Rightarrow>
               if isNotFound cl err then (Inr [], observe [] True d, b2)
               else (Inl (ErrWrap ''s3: read'' err), d, b2)
           | (Inr body, b2) \<Rightarrow>
               (case cl_StatETag cl (d_key d) b2 of
                  (Inl err, b3) \<Rightarrow>
                    if isNotFound cl err then (Inr [], observe [] True d, b3) else (Inl err, d, b3)
                | (Inr etag, b3) \<Rightarrow> (Inr (doc_bytes body), observe etag True d, b3)))))"

definition save_cond :: "document \<Rightarrow> put_cond" where
  "save_cond d =
     (if d_seen d \<and> d_etag d \<noteq> [] then MatchETag (d_etag d)
      else if d_seen d \<and> d_etag d = [] then MatchETagExcept ''*''
      else NoCond)"

definition Document_Save :: "'b s3_client \<Rightarrow> bytes \<Rightarrow> document \<times> 'b \<Rightarrow> (store_err + unit) \<times> document \<times> 'b" where
  "Document_Save cl data = (\<lambda>(d, b).
     (case cl_PutObject cl (d_key d) (DocBody data) (save_cond d) b of
        (Inl err, b1) \<Rightarrow>
          if isPreconditionFailed cl err
          then (Inl (ErrConflict (d_key d)), observe [] False d, b1)
          else (Inl (ErrWrap ''s3: write'' err), d, b1)
      | (Inr etag, b1) \<Rightarrow> (Inr (), observe etag True d, b1)))"

section \<open>The store\<close>

record s3_config =
  cfg_Endpoint :: string
  cfg_Bucket :: string
  cfg_Region :: string
  cfg_AccessKey :: string
  cfg_SecretKey :: string
  cfg_Prefix :: string
  cfg_UseSSL :: bool
  cfg_MaxSiteBytes :: int
  cfg_CacheBytes :: int
  cfg_MetaTTL :: duration

record s3_store =
  ss_prefix :: string
  ss_maxSiteBytes :: int
  ss_metaTTL :: duration
  ss_content :: "memfs cache"
  ss_meta :: "(string \<times> site_meta) list"
  ss_metaAt :: time
  ss_metaValid :: bool

definition defaultMetaTTL :: duration where
  "defaultMetaTTL = 10 * 1000000000"

definition defaultCacheBytes :: int where
  "defaultCacheBytes = 256 * 2 ^ 20"

text \<open>Setting a key of a map; the order of the list has no meaning.\<close>

definition map_set :: "string \<Rightarrow> 'a \<Rightarrow> (string \<times> 'a) list \<Rightarrow> (string \<times> 'a) list" where
  "map_set k v m = (k, v) # filter (\<lambda>p. fst p \<noteq> k) m"

definition map_delete :: "string \<Rightarrow> (string \<times> 'a) list \<Rightarrow> (string \<times> 'a) list" where
  "map_delete k m = filter (\<lambda>p. fst p \<noteq> k) m"

text \<open>
  The start of \<^verbatim>\<open>New\<close>: the endpoint without its scheme, and whether to use TLS.
\<close>

definition s3_endpoint :: "s3_config \<Rightarrow> string \<times> bool" where
  "s3_endpoint cfg =
     (let (endpoint, useSSL) =
        (if HasPrefix (cfg_Endpoint cfg) ''https://'' then (TrimPrefix (cfg_Endpoint cfg) ''https://'', True)
         else if HasPrefix (cfg_Endpoint cfg) ''http://'' then (TrimPrefix (cfg_Endpoint cfg) ''http://'', False)
         else (cfg_Endpoint cfg, cfg_UseSSL cfg))
      in (TrimSuffix endpoint ''/'', useSSL))"

definition s3_prefix :: "s3_config \<Rightarrow> string" where
  "s3_prefix cfg =
     (if cfg_Prefix cfg \<noteq> [] \<and> \<not> HasSuffix (cfg_Prefix cfg) ''/'' then cfg_Prefix cfg @ ''/'' else cfg_Prefix cfg)"

text \<open>Credentials and the client itself come from the library: \<^verbatim>\<open>connect\<close> is its answer.\<close>

definition s3_New ::
  "(s3_config \<Rightarrow> string \<Rightarrow> bool \<Rightarrow> store_err + 'b s3_client) \<Rightarrow> s3_config \<Rightarrow> 'b \<Rightarrow>
     (store_err + 'b s3_client \<times> s3_store) \<times> 'b" where
  "s3_New connect cfg b =
     (let (endpoint, useSSL) = s3_endpoint cfg
      in if endpoint = [] then (Inl (ErrOS ''s3: endpoint is required''), b)
         else if cfg_Bucket cfg = [] then (Inl (ErrOS ''s3: bucket is required''), b)
         else case connect cfg endpoint useSSL of
           Inl err \<Rightarrow> (Inl err, b)
         | Inr cl \<Rightarrow>
             (case cl_ListObjects cl (s3_prefix cfg @ ''meta/'') b of
                ((keys, Some err), b1) \<Rightarrow> (Inl (ErrWrap ''s3: reach bucket'' err), b1)
              | ((keys, None), b1) \<Rightarrow>
                  (Inr (cl, \<lparr>ss_prefix = s3_prefix cfg, ss_maxSiteBytes = cfg_MaxSiteBytes cfg,
                        ss_metaTTL = (if cfg_MetaTTL cfg \<le> 0 then defaultMetaTTL else cfg_MetaTTL cfg),
                        ss_content = newCache (if cfg_CacheBytes cfg = 0 then defaultCacheBytes else cfg_CacheBytes cfg),
                        ss_meta = [], ss_metaAt = 0, ss_metaValid = False\<rparr>), b1)))"

definition metaPrefix :: "s3_store \<Rightarrow> string" where
  "metaPrefix s = ss_prefix s @ ''meta/''"

definition metaKey :: "s3_store \<Rightarrow> string \<Rightarrow> string" where
  "metaKey s name = ss_prefix s @ ''meta/'' @ name @ ''.json''"

definition sitePrefix :: "s3_store \<Rightarrow> string \<Rightarrow> string" where
  "sitePrefix s name = ss_prefix s @ ''sites/'' @ name @ ''/''"

definition versionKey :: "s3_store \<Rightarrow> string \<Rightarrow> string \<Rightarrow> string" where
  "versionKey s name version = sitePrefix s name @ version @ ''.tar''"

definition Document :: "s3_store \<Rightarrow> string \<Rightarrow> document" where
  "Document s name = \<lparr>d_key = ss_prefix s @ ''state/'' @ name, d_etag = [], d_seen = False\<rparr>"

section \<open>Reads\<close>

definition getMeta :: "'b s3_client \<Rightarrow> string \<Rightarrow> 'b \<Rightarrow> (store_err + site_meta) \<times> 'b" where
  "getMeta cl key b =
     (case cl_GetObject cl key b of
        (Inl err, b1) \<Rightarrow> (Inl err, b1)
      | (Inr u, b1) \<Rightarrow>
          (case cl_Read cl key b1 of
             (Inl err, b2) \<Rightarrow>
               if isNotFound cl err then (Inl err, b2) else (Inl (ErrWrap ''s3: decode'' err), b2)
           | (Inr (MetaBody m), b2) \<Rightarrow> (Inr m, b2)
           | (Inr _, b2) \<Rightarrow> (Inl (ErrWrap ''s3: decode'' (ErrDecode key)), b2)))"

text \<open>The concurrent fetches of \<^verbatim>\<open>refresh\<close>; their results are collected by position.\<close>

fun fetch_all :: "'b s3_client \<Rightarrow> string list \<Rightarrow> 'b \<Rightarrow> (store_err + site_meta) list \<times> 'b" where
  "fetch_all cl [] b = ([], b)"
| "fetch_all cl (k # ks) b =
     (let (r, b1) = getMeta cl k b; (rs, b2) = fetch_all cl ks b1 in (r # rs, b2))"

fun collect :: "'b s3_client \<Rightarrow> (store_err + site_meta) list \<Rightarrow> (string \<times> site_meta) list \<Rightarrow>
    store_err + (string \<times> site_meta) list" where
  "collect cl [] nxt = Inr nxt"
| "collect cl (r # rs) nxt =
     (case r of
        Inl err \<Rightarrow> if isNotFound cl err then collect cl rs nxt else Inl err
      | Inr m \<Rightarrow>
          if ValidateName (M_Name m) \<noteq> None then collect cl rs nxt
          else collect cl rs (map_set (M_Name m) m nxt))"

definition refresh :: "'b s3_client \<Rightarrow> s3_store \<Rightarrow> 'b \<Rightarrow>
    (store_err + (string \<times> site_meta) list) \<times> s3_store \<times> 'b" where
  "refresh cl s b =
     (case cl_ListObjects cl (metaPrefix s) b of
        ((keys, Some err), b1) \<Rightarrow> (Inl (ErrWrap ''s3: list metadata'' err), s, b1)
      | ((keys, None), b1) \<Rightarrow>
          (let (results, b2) = fetch_all cl (filter (\<lambda>k. HasSuffix k ''.json'') keys) b1
           in case collect cl results [] of
                Inl err \<Rightarrow> (Inl err, s, b2)
              | Inr nxt \<Rightarrow>
                  (let (now, b3) = cl_Now cl b2
                   in (Inr nxt, s\<lparr>ss_meta := nxt, ss_metaAt := now, ss_metaValid := True\<rparr>, b3))))"

definition snapshot :: "'b s3_client \<Rightarrow> s3_store \<Rightarrow> 'b \<Rightarrow>
    (store_err + (string \<times> site_meta) list) \<times> s3_store \<times> 'b" where
  "snapshot cl s b =
     (let (fresh, b1) =
        (if ss_metaValid s then (let (now, b1) = cl_Now cl b in (now - ss_metaAt s < ss_metaTTL s, b1)) else (False, b))
      in if fresh then (Inr (ss_meta s), s, b1) else refresh cl s b1)"

definition s3_lookup :: "'b s3_client \<Rightarrow> string \<Rightarrow> s3_store \<Rightarrow> 'b \<Rightarrow>
    (store_err + site_meta option) \<times> s3_store \<times> 'b" where
  "s3_lookup cl name s b =
     (case snapshot cl s b of
        (Inl err, s1, b1) \<Rightarrow> (Inl err, s1, b1)
      | (Inr snap, s1, b1) \<Rightarrow> (Inr (map_of snap name), s1, b1))"

definition s3_List :: "'b s3_client \<Rightarrow> s3_store \<Rightarrow> 'b \<Rightarrow> (store_err + site list) \<times> s3_store \<times> 'b" where
  "s3_List cl s b =
     (case snapshot cl s b of
        (Inl err, s1, b1) \<Rightarrow> (Inl err, s1, b1)
      | (Inr snap, s1, b1) \<Rightarrow> (Inr (sort_key Site_Name (map (\<lambda>(k, m). toWire m) snap)), s1, b1))"

definition s3_Names :: "'b s3_client \<Rightarrow> s3_store \<Rightarrow> 'b \<Rightarrow> (store_err + string list) \<times> s3_store \<times> 'b" where
  "s3_Names cl s b =
     (case snapshot cl s b of
        (Inl err, s1, b1) \<Rightarrow> (Inl err, s1, b1)
      | (Inr snap, s1, b1) \<Rightarrow> (Inr (sort (map fst snap)), s1, b1))"

definition s3_Exists :: "'b s3_client \<Rightarrow> string \<Rightarrow> s3_store \<Rightarrow> 'b \<Rightarrow> (store_err + bool) \<times> s3_store \<times> 'b" where
  "s3_Exists cl name s b =
     (case ValidateName name of
        Some err \<Rightarrow> (Inl err, s, b)
      | None \<Rightarrow>
          (case s3_lookup cl name s b of
             (Inl err, s1, b1) \<Rightarrow> (Inl err, s1, b1)
           | (Inr m, s1, b1) \<Rightarrow> (Inr (m \<noteq> None), s1, b1)))"

definition s3_Stat :: "'b s3_client \<Rightarrow> string \<Rightarrow> s3_store \<Rightarrow> 'b \<Rightarrow> (store_err + site) \<times> s3_store \<times> 'b" where
  "s3_Stat cl name s b =
     (case ValidateName name of
        Some err \<Rightarrow> (Inl err, s, b)
      | None \<Rightarrow>
          (case s3_lookup cl name s b of
             (Inl err, s1, b1) \<Rightarrow> (Inl err, s1, b1)
           | (Inr None, s1, b1) \<Rightarrow> (Inl ErrNotFound, s1, b1)
           | (Inr (Some m), s1, b1) \<Rightarrow> (Inr (toWire m), s1, b1)))"

definition s3_Open :: "'b s3_client \<Rightarrow> string \<Rightarrow> s3_store \<Rightarrow> 'b \<Rightarrow> (store_err + memfs) \<times> s3_store \<times> 'b" where
  "s3_Open cl name s b =
     (case ValidateName name of
        Some err \<Rightarrow> (Inl err, s, b)
      | None \<Rightarrow>
          (case s3_lookup cl name s b of
             (Inl err, s1, b1) \<Rightarrow> (Inl err, s1, b1)
           | (Inr None, s1, b1) \<Rightarrow> (Inl ErrNotFound, s1, b1)
           | (Inr (Some m), s1, b1) \<Rightarrow>
               (let (hit, c) = cache_get (ss_content s1) name (M_Version m); s2 = s1\<lparr>ss_content := c\<rparr>
                in case hit of
                     Some fsys \<Rightarrow> (Inr fsys, s2, b1)
                   | None \<Rightarrow>
                       (case cl_GetObject cl (versionKey s name (M_Version m)) b1 of
                          (Inl err, b2) \<Rightarrow> (Inl (if isNotFound cl err then ErrNotFound else err), s2, b2)
                        | (Inr u, b2) \<Rightarrow>
                            (let (now, b3) = cl_Now cl b2
                             in case cl_Read cl (versionKey s name (M_Version m)) b3 of
                                  (Inl err, b4) \<Rightarrow>
                                    (Inl (if isNotFound cl (ErrWrap ''tar read'' err) then ErrNotFound
                                          else ErrWrap ''s3: unpack'' (ErrWrap ''tar read'' err)), s2, b4)
                                | (Inr body, b4) \<Rightarrow>
                                    (case unpackTar now (as_tar body) (ss_maxSiteBytes s) of
                                       Inl err \<Rightarrow>
                                         (Inl (if isNotFound cl err then ErrNotFound
                                               else ErrWrap ''s3: unpack'' err), s2, b4)
                                     | Inr (fsys, st) \<Rightarrow>
                                         (Inr fsys, s2\<lparr>ss_content := cache_put c name (M_Version m) fsys (st_sizeBytes st)\<rparr>, b4)))))))"

section \<open>Writes\<close>

definition newVersion :: "'b s3_client \<Rightarrow> 'b \<Rightarrow> (store_err + string) \<times> 'b" where
  "newVersion cl b =
     (case cl_Rand cl 8 b of
        (None, b1) \<Rightarrow> (Inl (ErrWrap ''s3: version'' ErrRand), b1)
      | (Some raw, b1) \<Rightarrow>
          (let (now, b2) = cl_Now cl b1 in (Inr (dec_int now @ ''-'' @ EncodeToString raw), b2)))"

definition putMeta :: "'b s3_client \<Rightarrow> s3_store \<Rightarrow> site_meta \<Rightarrow> 'b \<Rightarrow> (store_err + string) \<times> 'b" where
  "putMeta cl s m b = cl_PutObject cl (metaKey s (M_Name m)) (MetaBody m) NoCond b"

definition applyLocal :: "string \<Rightarrow> site_meta \<Rightarrow> s3_store \<Rightarrow> s3_store" where
  "applyLocal name m s = s\<lparr>ss_meta := map_set name m (ss_meta s)\<rparr>"

definition forgetLocal :: "string \<Rightarrow> s3_store \<Rightarrow> s3_store" where
  "forgetLocal name s = s\<lparr>ss_meta := map_delete name (ss_meta s)\<rparr>"

text \<open>Commit the metadata, or remove the content again; then collect the superseded version.\<close>

definition s3_commit ::
  "'b s3_client \<Rightarrow> string \<Rightarrow> site_meta \<Rightarrow> memfs \<Rightarrow> s3_store \<Rightarrow> 'b \<Rightarrow> (store_err + site) \<times> s3_store \<times> 'b" where
  "s3_commit cl name m fsys s b =
     (let (prev, s1, b1) = s3_lookup cl name s b
      in case putMeta cl s1 m b1 of
           (Inl err, b2) \<Rightarrow>
             (Inl (ErrWrap ''s3: commit metadata'' err), s1,
              snd (cl_RemoveObject cl (versionKey s1 name (M_Version m)) b2))
         | (Inr etag, b2) \<Rightarrow>
             (let s2 = applyLocal name m s1;
                  s3 = s2\<lparr>ss_content := cache_put (ss_content s2) name (M_Version m) fsys (M_SizeBytes m)\<rparr>
              in (Inr (toWire m), s3,
                  (case prev of
                     Inr (Some pm) \<Rightarrow>
                       if M_Version pm \<noteq> M_Version m
                       then snd (cl_RemoveObject cl (versionKey s3 name (M_Version pm)) b2) else b2
                   | _ \<Rightarrow> b2))))"

text \<open>\<^verbatim>\<open>r\<close> is the upload: reading it fails, or it is an archive.\<close>

definition s3_ReplaceFromTarWithExpiry ::
  "'b s3_client \<Rightarrow> string \<Rightarrow> store_err + tar_stream \<Rightarrow> duration option \<Rightarrow> s3_store \<Rightarrow> 'b \<Rightarrow>
     (store_err + site) \<times> s3_store \<times> 'b" where
  "s3_ReplaceFromTarWithExpiry cl name r expiry s b =
     (case ValidateName name of
        Some err \<Rightarrow> (Inl err, s, b)
      | None \<Rightarrow>
          (case r of
             Inl err \<Rightarrow> (Inl (ErrWrap ''s3: read upload'' err), s, b)
           | Inr raw \<Rightarrow>
               (let (now0, b0) = cl_Now cl b
                in case unpackTar now0 raw (ss_maxSiteBytes s) of
                     Inl err \<Rightarrow> (Inl err, s, b0)
                   | Inr (fsys, st) \<Rightarrow>
                       (case newVersion cl b0 of
                          (Inl err, b1) \<Rightarrow> (Inl err, s, b1)
                        | (Inr version, b1) \<Rightarrow>
                            (case cl_PutObject cl (versionKey s name version) (TarBody raw) NoCond b1 of
                               (Inl err, b2) \<Rightarrow> (Inl (ErrWrap ''s3: put content'' err), s, b2)
                             | (Inr etag, b2) \<Rightarrow>
                                 (let (expiresAt, b3) =
                                        (case expiry of
                                           None \<Rightarrow> (None, b2)
                                         | Some d \<Rightarrow> (let (now, b3) = cl_Now cl b2 in (Some (now + d), b3)));
                                      (now2, b4) = cl_Now cl b3;
                                      m = \<lparr>M_Name = name, M_Version = version, M_FileCount = int (st_fileCount st),
                                           M_SizeBytes = st_sizeBytes st, M_UpdatedAt = now2, M_ExpiresAt = expiresAt\<rparr>
                                  in s3_commit cl name m fsys s b4))))))"

definition s3_ReplaceFromTar ::
  "'b s3_client \<Rightarrow> string \<Rightarrow> store_err + tar_stream \<Rightarrow> s3_store \<Rightarrow> 'b \<Rightarrow> (store_err + site) \<times> s3_store \<times> 'b" where
  "s3_ReplaceFromTar cl name r s b = s3_ReplaceFromTarWithExpiry cl name r None s b"

text \<open>The sweep over every version of a deleted site; single failures are ignored.\<close>

fun remove_all :: "'b s3_client \<Rightarrow> string list \<Rightarrow> 'b \<Rightarrow> 'b" where
  "remove_all cl [] b = b"
| "remove_all cl (k # ks) b = remove_all cl ks (snd (cl_RemoveObject cl k b))"

definition s3_Delete :: "'b s3_client \<Rightarrow> string \<Rightarrow> s3_store \<Rightarrow> 'b \<Rightarrow> (store_err + unit) \<times> s3_store \<times> 'b" where
  "s3_Delete cl name s b =
     (case ValidateName name of
        Some err \<Rightarrow> (Inl err, s, b)
      | None \<Rightarrow>
          (case s3_lookup cl name s b of
             (Inl err, s1, b1) \<Rightarrow> (Inl err, s1, b1)
           | (Inr None, s1, b1) \<Rightarrow> (Inl ErrNotFound, s1, b1)
           | (Inr (Some m), s1, b1) \<Rightarrow>
               (case cl_RemoveObject cl (metaKey s1 name) b1 of
                  (Inl err, b2) \<Rightarrow> (Inl (ErrWrap ''s3: remove metadata'' err), s1, b2)
                | (Inr u, b2) \<Rightarrow>
                    (let s2 = forgetLocal name s1; s3 = s2\<lparr>ss_content := dropAll (ss_content s2) name\<rparr>
                     in case cl_ListObjects cl (sitePrefix s3 name) b2 of
                          ((keys, e), b3) \<Rightarrow>
                            (case e of Some err \<Rightarrow> Inl (ErrWrap ''s3: list content'' err) | None \<Rightarrow> Inr (),
                             s3, remove_all cl keys b3)))))"

definition meta_due :: "time \<Rightarrow> site_meta \<Rightarrow> bool" where
  "meta_due now m = (case M_ExpiresAt m of None \<Rightarrow> False | Some t \<Rightarrow> \<not> now < t)"

fun s3_expire_loop :: "'b s3_client \<Rightarrow> time \<Rightarrow> (string \<times> site_meta) list \<Rightarrow> string list \<Rightarrow> string list \<Rightarrow>
    s3_store \<Rightarrow> 'b \<Rightarrow> (string list \<times> store_err option) \<times> s3_store \<times> 'b" where
  "s3_expire_loop cl now snap [] deleted s b = ((deleted, None), s, b)"
| "s3_expire_loop cl now snap (name # names) deleted s b =
     (if (case map_of snap name of None \<Rightarrow> True | Some m \<Rightarrow> \<not> meta_due now m)
      then s3_expire_loop cl now snap names deleted s b
      else case s3_Delete cl name s b of
        (Inl err, s1, b1) \<Rightarrow>
          if is_ErrNotFound err then s3_expire_loop cl now snap names (deleted @ [name]) s1 b1
          else ((deleted, Some err), s1, b1)
      | (Inr u, s1, b1) \<Rightarrow> s3_expire_loop cl now snap names (deleted @ [name]) s1 b1)"

definition s3_DeleteExpired :: "'b s3_client \<Rightarrow> time \<Rightarrow> s3_store \<Rightarrow> 'b \<Rightarrow>
    (string list \<times> store_err option) \<times> s3_store \<times> 'b" where
  "s3_DeleteExpired cl now s b =
     (case refresh cl s b of
        (Inl err, s1, b1) \<Rightarrow> (([], Some err), s1, b1)
      | (Inr snap, s1, b1) \<Rightarrow> s3_expire_loop cl now snap (sort (map fst snap)) [] s1 b1)"

end
