(* ===== verification/S3_Props.thy ===== *)
theory S3_Props
  imports S3_Store Token_Props
begin

text \<open>
  What the object-store backend guarantees when the client keeps its documented promises: a push
  is a pointer flip, a deletion removes the site and no other, the cache serves what the bucket
  holds, and documents are written by compare-and-swap.
\<close>

section \<open>What the source relies on\<close>

text \<open>
  \<^verbatim>\<open>objects\<close> is the contents of the bucket.  Reads do not change it and report what is there; a
  write replaces one object and honours its condition; a write or removal that fails may still
  have been applied, but never by halves, and a rejected condition means it was not; a listing
  that ends without an error is complete.
\<close>

type_synonym bucket = "string \<rightharpoonup> s3_body \<times> string"

definition cond_holds :: "put_cond \<Rightarrow> (s3_body \<times> string) option \<Rightarrow> bool" where
  "cond_holds c cur =
     (case c of
        NoCond \<Rightarrow> True
      | MatchETag t \<Rightarrow> (case cur of None \<Rightarrow> False | Some (body, t') \<Rightarrow> t' = t)
      | MatchETagExcept t \<Rightarrow> cur = None)"

definition get_ok :: "'b s3_client \<Rightarrow> ('b \<Rightarrow> bucket) \<Rightarrow> bool" where
  "get_ok cl objects \<longleftrightarrow>
     (\<forall>k b r b'. cl_GetObject cl k b = (r, b') \<longrightarrow> objects b' = objects b \<and>
        (case r of Inl err \<Rightarrow> isNotFound cl err \<longrightarrow> objects b k = None | Inr u \<Rightarrow> True))"

definition read_ok :: "'b s3_client \<Rightarrow> ('b \<Rightarrow> bucket) \<Rightarrow> bool" where
  "read_ok cl objects \<longleftrightarrow>
     (\<forall>k b r b'. cl_Read cl k b = (r, b') \<longrightarrow> objects b' = objects b \<and>
        (case r of Inl err \<Rightarrow> isNotFound cl err \<longrightarrow> objects b k = None
                 | Inr body \<Rightarrow> \<exists>t. objects b k = Some (body, t)))"

definition etag_ok :: "'b s3_client \<Rightarrow> ('b \<Rightarrow> bucket) \<Rightarrow> bool" where
  "etag_ok cl objects \<longleftrightarrow>
     (\<forall>k b r b'. cl_StatETag cl k b = (r, b') \<longrightarrow> objects b' = objects b \<and>
        (case r of Inl err \<Rightarrow> isNotFound cl err \<longrightarrow> objects b k = None
                 | Inr t \<Rightarrow> \<exists>body. objects b k = Some (body, t)))"

definition list_ok :: "'b s3_client \<Rightarrow> ('b \<Rightarrow> bucket) \<Rightarrow> bool" where
  "list_ok cl objects \<longleftrightarrow>
     (\<forall>p b keys e b'. cl_ListObjects cl p b = ((keys, e), b') \<longrightarrow> objects b' = objects b \<and>
        (\<forall>k \<in> set keys. HasPrefix k p) \<and>
        (e = None \<longrightarrow> (\<forall>k. HasPrefix k p \<longrightarrow> objects b k \<noteq> None \<longrightarrow> k \<in> set keys)))"

definition clock_ok :: "'b s3_client \<Rightarrow> ('b \<Rightarrow> bucket) \<Rightarrow> bool" where
  "clock_ok cl objects \<longleftrightarrow>
     (\<forall>b. objects (snd (cl_Now cl b)) = objects b) \<and> (\<forall>n b. objects (snd (cl_Rand cl n b)) = objects b)"

definition put_ok :: "'b s3_client \<Rightarrow> ('b \<Rightarrow> bucket) \<Rightarrow> bool" where
  "put_ok cl objects \<longleftrightarrow>
     (\<forall>k body c b r b'. cl_PutObject cl k body c b = (r, b') \<longrightarrow>
        (case r of
           Inl err \<Rightarrow> (objects b' = objects b \<or> (\<exists>t. objects b' = (objects b)(k \<mapsto> (body, t)))) \<and>
             (isPreconditionFailed cl err \<longrightarrow> objects b' = objects b)
         | Inr t \<Rightarrow> t \<noteq> [] \<and> cond_holds c (objects b k) \<and> objects b' = (objects b)(k \<mapsto> (body, t))))"

definition remove_ok :: "'b s3_client \<Rightarrow> ('b \<Rightarrow> bucket) \<Rightarrow> bool" where
  "remove_ok cl objects \<longleftrightarrow>
     (\<forall>k b r b'. cl_RemoveObject cl k b = (r, b') \<longrightarrow>
        (case r of
           Inl err \<Rightarrow> objects b' = objects b \<or> objects b' = (objects b)(k := None)
         | Inr u \<Rightarrow> objects b' = (objects b)(k := None)))"

text \<open>Wrapping an error does not make it a not-found error.\<close>

definition wrap_ok :: "'b s3_client \<Rightarrow> bool" where
  "wrap_ok cl \<longleftrightarrow> (\<forall>m err. isNotFound cl (ErrWrap m err) \<longrightarrow> isNotFound cl err)"

definition client_ok :: "'b s3_client \<Rightarrow> ('b \<Rightarrow> bucket) \<Rightarrow> bool" where
  "client_ok cl objects \<longleftrightarrow>
     get_ok cl objects \<and> read_ok cl objects \<and> etag_ok cl objects \<and> list_ok cl objects \<and>
     clock_ok cl objects \<and> put_ok cl objects \<and> remove_ok cl objects \<and> wrap_ok cl"

text \<open>A stricter client: a failed write was not applied.\<close>

definition client_strict :: "'b s3_client \<Rightarrow> ('b \<Rightarrow> bucket) \<Rightarrow> bool" where
  "client_strict cl objects \<longleftrightarrow>
     (\<forall>k body c b err b'. cl_PutObject cl k body c b = (Inl err, b') \<longrightarrow> objects b' = objects b)"

lemma client_get: "client_ok cl objects \<Longrightarrow> cl_GetObject cl k b = (r, b') \<Longrightarrow> objects b' = objects b"
  unfolding client_ok_def get_ok_def by blast

lemma client_read: "client_ok cl objects \<Longrightarrow> cl_Read cl k b = (r, b') \<Longrightarrow> objects b' = objects b"
  unfolding client_ok_def read_ok_def by blast

lemma client_etag: "client_ok cl objects \<Longrightarrow> cl_StatETag cl k b = (r, b') \<Longrightarrow> objects b' = objects b"
  unfolding client_ok_def etag_ok_def by blast

lemma client_now: "client_ok cl objects \<Longrightarrow> cl_Now cl b = (r, b') \<Longrightarrow> objects b' = objects b"
  unfolding client_ok_def clock_ok_def by (metis snd_conv)

lemma client_rand: "client_ok cl objects \<Longrightarrow> cl_Rand cl n b = (r, b') \<Longrightarrow> objects b' = objects b"
  unfolding client_ok_def clock_ok_def by (metis snd_conv)

lemma client_list:
  assumes "client_ok cl objects" "cl_ListObjects cl p b = ((keys, e), b')"
  shows "objects b' = objects b \<and> (\<forall>k \<in> set keys. HasPrefix k p) \<and>
    (e = None \<longrightarrow> (\<forall>k. HasPrefix k p \<longrightarrow> objects b k \<noteq> None \<longrightarrow> k \<in> set keys))"
proof -
  have "list_ok cl objects" using assms(1) by (simp add: client_ok_def)
  then show ?thesis using assms(2) unfolding list_ok_def by (elim allE) (erule mp)
qed

lemma client_read_body:
  assumes "client_ok cl objects" "cl_Read cl k b = (Inr body, b')"
  shows "\<exists>t. objects b k = Some (body, t)"
proof -
  have "read_ok cl objects" using assms(1) by (simp add: client_ok_def)
  then have "case (Inr body :: store_err + s3_body) of Inl err \<Rightarrow> isNotFound cl err \<longrightarrow> objects b k = None
      | Inr body \<Rightarrow> \<exists>t. objects b k = Some (body, t)"
    using assms(2) unfolding read_ok_def by blast
  then show ?thesis by simp
qed

lemma client_put_case:
  assumes "client_ok cl objects" "cl_PutObject cl k body c b = (r, b')"
  shows "case r of
           Inl err \<Rightarrow> (objects b' = objects b \<or> (\<exists>t. objects b' = (objects b)(k \<mapsto> (body, t)))) \<and>
             (isPreconditionFailed cl err \<longrightarrow> objects b' = objects b)
         | Inr t \<Rightarrow> t \<noteq> [] \<and> cond_holds c (objects b k) \<and> objects b' = (objects b)(k \<mapsto> (body, t))"
proof -
  have "put_ok cl objects" using assms(1) by (simp add: client_ok_def)
  then show ?thesis using assms(2) unfolding put_ok_def by (elim allE) (erule mp)
qed

lemma client_remove_case:
  assumes "client_ok cl objects" "cl_RemoveObject cl k b = (r, b')"
  shows "case r of
           Inl err \<Rightarrow> objects b' = objects b \<or> objects b' = (objects b)(k := None)
         | Inr u \<Rightarrow> objects b' = (objects b)(k := None)"
proof -
  have "remove_ok cl objects" using assms(1) by (simp add: client_ok_def)
  then show ?thesis using assms(2) unfolding remove_ok_def by (elim allE) (erule mp)
qed

lemma client_put:
  assumes "client_ok cl objects" "cl_PutObject cl k body c b = (r, b')"
  shows "(\<exists>t. objects b' = (objects b)(k \<mapsto> (body, t))) \<or> (\<exists>err. r = Inl err \<and> objects b' = objects b)"
  using client_put_case [OF assms] by (cases r) auto

lemma client_put_ok:
  assumes "client_ok cl objects" "cl_PutObject cl k body c b = (Inr t, b')"
  shows "t \<noteq> [] \<and> cond_holds c (objects b k) \<and> objects b' = (objects b)(k \<mapsto> (body, t))"
  using client_put_case [OF assms] by simp

lemma client_remove:
  assumes "client_ok cl objects"
  shows "objects (snd (cl_RemoveObject cl k b)) = objects b \<or> objects (snd (cl_RemoveObject cl k b)) = (objects b)(k := None)"
  using client_remove_case [OF assms prod.collapse [symmetric], of k b]
  by (auto split: sum.splits)

lemmas client_reads = client_get client_read client_etag client_now client_rand

section \<open>Documents\<close>

definition doc_content :: "('b \<Rightarrow> bucket) \<Rightarrow> string \<Rightarrow> document \<times> 'b \<Rightarrow> bytes option" where
  "doc_content objects key w = map_option (\<lambda>(body, t). doc_bytes body) (objects (snd w) key)"

lemma Document_Save_key: "Document_Save cl data (d, b) = (r, d', b') \<Longrightarrow> d_key d' = d_key d"
  by (auto simp: Document_Save_def observe_def split: prod.splits sum.splits if_splits)

lemma Document_Save_ok:
  assumes "client_ok cl objects" "Document_Save cl data (d, b) = (Inr u, d', b')"
  shows "cond_holds (save_cond d) (objects b (d_key d)) \<and> d_seen d' \<and>
    objects b' = (objects b)(d_key d \<mapsto> (DocBody data, d_etag d'))"
proof -
  obtain t where "cl_PutObject cl (d_key d) (DocBody data) (save_cond d) b = (Inr t, b')" "d' = observe t True d"
    using assms(2) by (auto simp: Document_Save_def split: prod.splits sum.splits if_splits)
  then show ?thesis using client_put_ok [OF assms(1)] by (auto simp: observe_def)
qed

lemma Document_Save_err:
  assumes "client_ok cl objects" "Document_Save cl data (d, b) = (Inl err, d', b')"
  shows "objects b' = objects b \<or> (\<exists>t. objects b' = (objects b)(d_key d \<mapsto> (DocBody data, t)))"
proof -
  obtain r where "cl_PutObject cl (d_key d) (DocBody data) (save_cond d) b = (r, b')"
    using assms(2) by (auto simp: Document_Save_def split: prod.splits sum.splits if_splits)
  then show ?thesis using client_put [OF assms(1)] by blast
qed

lemma Document_Load_ok:
  assumes "client_ok cl objects" "Document_Load cl (d, b) = (Inr data, d', b')"
  shows "objects b' = objects b \<and> data = (case objects b (d_key d) of None \<Rightarrow> [] | Some (body, t) \<Rightarrow> doc_bytes body) \<and>
    d_key d' = d_key d \<and> d_seen d' \<and> d_etag d' = (case objects b (d_key d) of None \<Rightarrow> [] | Some (body, t) \<Rightarrow> t)"
proof -
  have laws: "get_ok cl objects" "read_ok cl objects" "etag_ok cl objects" using assms(1) by (simp_all add: client_ok_def)
  let ?k = "d_key d"
  obtain r1 b1 where g: "cl_GetObject cl ?k b = (r1, b1)" by (cases "cl_GetObject cl ?k b")
  obtain r2 b2 where rd: "cl_Read cl ?k b1 = (r2, b2)" by (cases "cl_Read cl ?k b1")
  obtain r3 b3 where et: "cl_StatETag cl ?k b2 = (r3, b3)" by (cases "cl_StatETag cl ?k b2")
  have o: "objects b1 = objects b" "objects b2 = objects b" "objects b3 = objects b"
    using client_get [OF assms(1) g] client_read [OF assms(1) rd] client_etag [OF assms(1) et] by simp_all
  have L1: "case r1 of Inl err \<Rightarrow> isNotFound cl err \<longrightarrow> objects b ?k = None | Inr u \<Rightarrow> True"
    using laws(1) g unfolding get_ok_def by blast
  have L2: "case r2 of Inl err \<Rightarrow> isNotFound cl err \<longrightarrow> objects b1 ?k = None | Inr body \<Rightarrow> \<exists>t. objects b1 ?k = Some (body, t)"
    using laws(2) rd unfolding read_ok_def by blast
  have L3: "case r3 of Inl err \<Rightarrow> isNotFound cl err \<longrightarrow> objects b2 ?k = None | Inr t \<Rightarrow> \<exists>body. objects b2 ?k = Some (body, t)"
    using laws(3) et unfolding etag_ok_def by blast
  show ?thesis
    using assms(2) L1 L2 L3 g rd et o
    by (auto simp: Document_Load_def observe_def split: sum.splits if_splits)
qed

lemma Document_Load_keeps:
  assumes "client_ok cl objects" "Document_Load cl (d, b) = (r, d', b')"
  shows "objects b' = objects b \<and> d_key d' = d_key d"
  using assms(2) client_reads [OF assms(1)]
  by (auto simp: Document_Load_def observe_def split: prod.splits sum.splits if_splits)

text \<open>
  A document is a persistence in the sense of the token store: a failed save leaves the old
  contents or the new ones.
\<close>

lemma Document_persistence:
  assumes "client_ok cl objects"
  shows "persistence (\<lambda>w. Document_Load cl (fst w\<lparr>d_key := key\<rparr>, snd w)) (\<lambda>data w. Document_Save cl data (fst w\<lparr>d_key := key\<rparr>, snd w))
    (doc_content objects key)"
proof
  fix w d w'
  assume "Document_Load cl (fst w\<lparr>d_key := key\<rparr>, snd w) = (Inr d, w')"
  then show "d = (case doc_content objects key w of None \<Rightarrow> [] | Some b \<Rightarrow> b)"
    using Document_Load_ok [OF assms, of "fst w\<lparr>d_key := key\<rparr>" "snd w" d "fst w'" "snd w'"]
    by (auto simp: doc_content_def split: option.splits)
next
  fix w r w'
  assume "Document_Load cl (fst w\<lparr>d_key := key\<rparr>, snd w) = (r, w')"
  then show "doc_content objects key w' = doc_content objects key w"
    using Document_Load_keeps [OF assms, of "fst w\<lparr>d_key := key\<rparr>" "snd w" r "fst w'" "snd w'"]
    by (auto simp: doc_content_def)
next
  fix d w u w'
  assume "Document_Save cl d (fst w\<lparr>d_key := key\<rparr>, snd w) = (Inr u, w')"
  then show "doc_content objects key w' = Some d"
    using Document_Save_ok [OF assms, of d "fst w\<lparr>d_key := key\<rparr>" "snd w" u "fst w'" "snd w'"]
    by (auto simp: doc_content_def)
next
  fix d w err w'
  assume "Document_Save cl d (fst w\<lparr>d_key := key\<rparr>, snd w) = (Inl err, w')"
  then show "doc_content objects key w' = doc_content objects key w \<or> doc_content objects key w' = Some d"
    using Document_Save_err [OF assms, of d "fst w\<lparr>d_key := key\<rparr>" "snd w" err "fst w'" "snd w'"]
    by (auto simp: doc_content_def)
qed

section \<open>Keys\<close>

definition live :: "bucket \<Rightarrow> s3_store \<Rightarrow> string \<Rightarrow> (site_meta \<times> tar_stream) option" where
  "live B s name =
     (case B (metaKey s name) of
        Some (MetaBody m, t) \<Rightarrow>
          (case B (versionKey s name (M_Version m)) of Some (TarBody ts, t') \<Rightarrow> Some (m, ts) | _ \<Rightarrow> None)
      | _ \<Rightarrow> None)"

lemma metaKey_inj: "metaKey s n = metaKey s n' \<longleftrightarrow> n = n'"
  by (simp add: metaKey_def)

lemma metaKey_versionKey: "metaKey s n \<noteq> versionKey s n' v"
  by (simp add: metaKey_def versionKey_def sitePrefix_def)

lemma valid_no_slash: "nameRE n \<Longrightarrow> slash \<notin> set n"
  using nameRE_ordinary by (simp add: ordinary_def)

lemma sitePrefix_key:
  assumes "HasPrefix (versionKey s n v) (sitePrefix s n')" "nameRE n" "nameRE n'"
  shows "n = n'"
proof -
  obtain r where "n @ slash # (v @ ''.tar'') = n' @ slash # r"
    using assms(1) by (auto simp: HasPrefix_iff versionKey_def sitePrefix_def)
  then have "Cut (n @ slash # (v @ ''.tar'')) slash = Cut (n' @ slash # r) slash" by simp
  then show ?thesis using valid_no_slash assms(2,3) by (simp add: Cut_append)
qed

lemma versionKey_inj:
  assumes "nameRE n" "nameRE n'"
  shows "versionKey s n v = versionKey s n' v' \<longleftrightarrow> n = n' \<and> v = v'"
proof
  assume eq: "versionKey s n v = versionKey s n' v'"
  have "HasPrefix (versionKey s n v) (sitePrefix s n')" unfolding eq by (simp add: versionKey_def)
  then have "n = n'" using sitePrefix_key assms by blast
  then show "n = n' \<and> v = v'" using eq by (simp add: versionKey_def)
qed simp

lemma metaKey_sitePrefix: "\<not> HasPrefix (metaKey s n) (sitePrefix s n')"
  by (auto simp: HasPrefix_iff metaKey_def sitePrefix_def)

text \<open>A site is not affected by what happens to other keys.\<close>

lemma live_cong:
  assumes "B' (metaKey s n) = B (metaKey s n)" "\<And>v. B' (versionKey s n v) = B (versionKey s n v)"
  shows "live B' s n = live B s n"
proof -
  have "(\<lambda>v. B' (versionKey s n v)) = (\<lambda>v. B (versionKey s n v))" using assms(2) by blast
  then show ?thesis unfolding live_def assms(1) by (simp add: fun_eq_iff split: option.splits prod.splits s3_body.splits)
qed

section \<open>Reading leaves the bucket alone\<close>

definition same_content :: "s3_store \<Rightarrow> s3_store \<Rightarrow> bool" where
  "same_content s s' \<longleftrightarrow> ss_prefix s' = ss_prefix s \<and> ss_maxSiteBytes s' = ss_maxSiteBytes s \<and> ss_content s' = ss_content s"

lemma keys_cong:
  "ss_prefix s' = ss_prefix s \<Longrightarrow> metaKey s' = metaKey s"
  "ss_prefix s' = ss_prefix s \<Longrightarrow> versionKey s' = versionKey s"
  "ss_prefix s' = ss_prefix s \<Longrightarrow> sitePrefix s' = sitePrefix s"
  "ss_prefix s' = ss_prefix s \<Longrightarrow> metaPrefix s' = metaPrefix s"
  by (simp_all add: metaKey_def versionKey_def sitePrefix_def metaPrefix_def fun_eq_iff)

lemma live_prefix:
  assumes "ss_prefix s' = ss_prefix s"
  shows "live B s' = live B s"
  unfolding live_def keys_cong(1) [OF assms] keys_cong(2) [OF assms] ..

lemma getMeta_keeps:
  assumes "client_ok cl objects" "getMeta cl k b = (r, b')"
  shows "objects b' = objects b"
  using assms(2) client_reads [OF assms(1)]
  by (auto simp: getMeta_def split: prod.splits sum.splits if_splits s3_body.splits)

lemma fetch_all_keeps:
  "client_ok cl objects \<Longrightarrow> objects (snd (fetch_all cl ks b)) = objects b"
proof (induction cl ks b rule: fetch_all.induct)
  case (2 cl k ks b)
  obtain r b1 where g: "getMeta cl k b = (r, b1)" by (cases "getMeta cl k b")
  show ?case
    using 2(1) [OF g [symmetric] refl 2(2)] getMeta_keeps [OF 2(2) g] g by (simp add: split_beta Let_def)
qed simp

lemma refresh_keeps:
  assumes "client_ok cl objects" "refresh cl s b = (r, s', b')"
  shows "objects b' = objects b \<and> same_content s s'"
proof -
  obtain keys e b1 where ls: "cl_ListObjects cl (metaPrefix s) b = ((keys, e), b1)" by (metis prod.exhaust)
  have b1: "objects b1 = objects b" using client_list [OF assms(1) ls] by simp
  obtain rs b2 where fa: "fetch_all cl (filter (\<lambda>k. HasSuffix k ''.json'') keys) b1 = (rs, b2)"
    by (metis prod.exhaust)
  have b2: "objects b2 = objects b" using fetch_all_keeps [OF assms(1), of _ b1] fa b1 by (metis snd_conv)
  show ?thesis
    using assms(2) ls fa b1 b2 client_now [OF assms(1)]
    by (auto simp: refresh_def same_content_def Let_def split: option.splits sum.splits prod.splits)
qed

lemma snapshot_keeps:
  assumes "client_ok cl objects" "snapshot cl s b = (r, s', b')"
  shows "objects b' = objects b \<and> same_content s s'"
proof (cases "ss_metaValid s")
  case True
  obtain now b1 where n: "cl_Now cl b = (now, b1)" by (cases "cl_Now cl b")
  have "objects b1 = objects b" using client_now [OF assms(1) n] .
  then show ?thesis
    using assms(2) True n refresh_keeps [OF assms(1), of s b1 r s' b']
    by (auto simp: snapshot_def same_content_def split: if_splits)
next
  case False
  then show ?thesis using assms(2) refresh_keeps [OF assms(1)] by (simp add: snapshot_def)
qed

lemma lookup_keeps:
  assumes "client_ok cl objects" "s3_lookup cl name s b = (r, s', b')"
  shows "objects b' = objects b \<and> same_content s s'"
proof -
  obtain r1 where "snapshot cl s b = (r1, s', b')"
    using assms(2) by (auto simp: s3_lookup_def split: prod.splits sum.splits)
  then show ?thesis by (rule snapshot_keeps [OF assms(1)])
qed

section \<open>Publishing\<close>

text \<open>No metadata of the site names the version.\<close>

definition not_named :: "bucket \<Rightarrow> s3_store \<Rightarrow> string \<Rightarrow> string \<Rightarrow> bool" where
  "not_named B s name v \<longleftrightarrow> (\<forall>m t. B (metaKey s name) = Some (MetaBody m, t) \<longrightarrow> M_Version m \<noteq> v)"

lemma live_other_version:
  assumes "not_named B s n v" "nameRE n"
  shows "live (B(versionKey s n v := x)) s n = live B s n"
proof -
  have "(B(versionKey s n v := x)) (versionKey s n v') = B (versionKey s n v')" if "v' \<noteq> v" for v'
    using versionKey_inj [OF assms(2,2)] that by simp
  then show ?thesis
    using assms(1) metaKey_versionKey [of s n n v]
    by (auto simp: live_def not_named_def split: option.splits s3_body.splits)
qed

lemma live_other_site:
  assumes "nameRE n" "nameRE n'" "n \<noteq> n'"
  shows "live (B(versionKey s n' v := x)) s n = live B s n" "live (B(metaKey s n' := x)) s n = live B s n"
proof -
  show "live (B(versionKey s n' v := x)) s n = live B s n"
    by (rule live_cong) (use assms versionKey_inj [OF assms(1,2)] metaKey_versionKey in simp_all)
  show "live (B(metaKey s n' := x)) s n = live B s n"
    by (rule live_cong) (use assms metaKey_inj metaKey_versionKey [of s n' n] in \<open>simp_all, metis\<close>)
qed

lemma live_put_meta:
  assumes "B (versionKey s n (M_Version m)) = Some (TarBody ts, t)"
  shows "live (B(metaKey s n \<mapsto> (MetaBody m, t'))) s n = Some (m, ts)"
  using assms metaKey_versionKey [of s n n "M_Version m", symmetric] by (simp add: live_def)

lemma map_of_map_set [simp]: "map_of (map_set k v m) = (map_of m)(k \<mapsto> v)"
proof
  have "map_of (filter (\<lambda>p. fst p \<noteq> k) m) x = (if x = k then None else map_of m x)" for x
    by (induction m) auto
  then show "map_of (map_set k v m) x = ((map_of m)(k \<mapsto> v)) x" for x by (auto simp: map_set_def)
qed

lemma map_of_map_delete [simp]: "map_of (map_delete k m) x = (if x = k then None else map_of m x)"
  by (induction m) (auto simp: map_delete_def)

lemma commit_s3:
  assumes ok: "client_ok cl objects" and run: "s3_commit cl name m fsys s b = (res, s', b')"
    and name: "nameRE name" "M_Name m = name"
    and content: "objects b (versionKey s name (M_Version m)) = Some (TarBody ts, t)"
    and new: "not_named (objects b) s name (M_Version m)"
  shows "(\<forall>n. nameRE n \<longrightarrow> n \<noteq> name \<longrightarrow> live (objects b') s n = live (objects b) s n) \<and>
    (case res of
       Inr site \<Rightarrow> site = toWire m \<and> live (objects b') s name = Some (m, ts) \<and> map_of (ss_meta s') name = Some m
     | Inl err \<Rightarrow> client_strict cl objects \<longrightarrow> live (objects b') s name = live (objects b) s name)"
proof -
  obtain prev s1 b1 where lk: "s3_lookup cl name s b = (prev, s1, b1)" by (metis prod.exhaust)
  have b1: "objects b1 = objects b" and pre: "ss_prefix s1 = ss_prefix s"
    using lookup_keeps [OF ok lk] by (simp_all add: same_content_def)
  let ?vk = "versionKey s name" and ?mk = "metaKey s name"
  obtain r b2 where put: "cl_PutObject cl ?mk (MetaBody m) NoCond b1 = (r, b2)"
    by (cases "cl_PutObject cl ?mk (MetaBody m) NoCond b1")
  have pm: "putMeta cl s1 m b1 = (r, b2)" using put name(2) keys_cong(1) [OF pre] by (simp add: putMeta_def)
  have other2: "live (objects b2) s n = live (objects b) s n" if "nameRE n" "n \<noteq> name" for n
    using client_put [OF ok put] b1 live_other_site(2) [OF that(1) name(1) that(2)] by auto
  have rm: "live (objects (snd (cl_RemoveObject cl (?vk v) c))) s n = live (objects c) s n"
    if "nameRE n" "n \<noteq> name" for n v c
    using client_remove [OF ok, of "?vk v" c] live_other_site(1) [OF that(1) name(1) that(2)] by auto
  show ?thesis
  proof (cases r)
    case (Inl err)
    then have res: "res = Inl (ErrWrap ''s3: commit metadata'' err)" "b' = snd (cl_RemoveObject cl (?vk (M_Version m)) b2)"
      using run lk pm keys_cong(2) [OF pre] by (simp_all add: s3_commit_def)
    have "live (objects b') s name = live (objects b) s name" if "client_strict cl objects"
    proof -
      have "objects b2 = objects b" using that put Inl b1 unfolding client_strict_def by metis
      then show ?thesis
        using client_remove [OF ok, of "?vk (M_Version m)" b2] live_other_version [OF new name(1)] res(2) by auto
    qed
    then show ?thesis using res rm other2 by simp
  next
    case (Inr e)
    have b2: "objects b2 = (objects b)(?mk \<mapsto> (MetaBody m, e))"
      using client_put_ok [OF ok put [unfolded Inr]] b1 by simp
    define c where "c = (case prev of Inr (Some pm) \<Rightarrow>
        if M_Version pm \<noteq> M_Version m then snd (cl_RemoveObject cl (?vk (M_Version pm)) b2) else b2 | _ \<Rightarrow> b2)"
    have run': "res = Inr (toWire m)" "map_of (ss_meta s') name = Some m" "b' = c"
      using run lk pm Inr keys_cong(2) [OF pre]
      by (auto simp: s3_commit_def applyLocal_def Let_def c_def versionKey_def sitePrefix_def pre split: sum.splits option.splits)
    have named: "not_named (objects b2) s name v" if "v \<noteq> M_Version m" for v
      using that by (auto simp: not_named_def b2)
    have "live (objects b2) s name = Some (m, ts)" unfolding b2 by (rule live_put_meta [where B = "objects b", OF content])
    moreover have "live (objects c) s name = live (objects b2) s name"
      using client_remove [OF ok, of _ b2] live_other_version [OF named name(1)]
      by (auto simp: c_def split: sum.splits option.splits) (metis+)
    moreover have "live (objects c) s n = live (objects b2) s n" if "nameRE n" "n \<noteq> name" for n
      using rm [OF that] by (auto simp: c_def split: sum.splits option.splits)
    ultimately show ?thesis using run' other2 by auto
  qed
qed

lemma newVersion_keeps:
  assumes "client_ok cl objects" "newVersion cl b = (r, b')"
  shows "objects b' = objects b"
proof -
  obtain x b1 where rd: "cl_Rand cl 8 b = (x, b1)" by (cases "cl_Rand cl 8 b")
  have "objects b1 = objects b" using client_rand [OF assms(1) rd] .
  then show ?thesis
    using assms(2) rd client_now [OF assms(1)] by (auto simp: newVersion_def split: option.splits prod.splits)
qed

text \<open>The version a push will draw is not the live one.\<close>

definition fresh_version :: "'b s3_client \<Rightarrow> ('b \<Rightarrow> bucket) \<Rightarrow> s3_store \<Rightarrow> string \<Rightarrow> 'b \<Rightarrow> bool" where
  "fresh_version cl objects s name b \<longleftrightarrow>
     (\<forall>v b1. newVersion cl (snd (cl_Now cl b)) = (Inr v, b1) \<longrightarrow>
        not_named (objects b) s name v)"

text \<open>What a push promises of the bucket.\<close>

definition push_outcome :: "'b s3_client \<Rightarrow> ('b \<Rightarrow> bucket) \<Rightarrow> s3_store \<Rightarrow> string \<Rightarrow> tar_stream \<Rightarrow> 'b \<Rightarrow>
    store_err + site \<Rightarrow> s3_store \<Rightarrow> 'b \<Rightarrow> bool" where
  "push_outcome cl objects s name raw b res s' b' \<longleftrightarrow>
     (\<forall>n. nameRE n \<longrightarrow> n \<noteq> name \<longrightarrow> live (objects b') s n = live (objects b) s n) \<and>
     (case res of
        Inr site \<Rightarrow> \<exists>m. site = toWire m \<and> M_Name m = name \<and> live (objects b') s name = Some (m, raw) \<and>
          map_of (ss_meta s') name = Some m
      | Inl err \<Rightarrow> client_strict cl objects \<longrightarrow> live (objects b') s name = live (objects b) s name)"

lemma push_unchanged:
  "objects b' = objects b \<Longrightarrow> push_outcome cl objects s name raw b (Inl err) s' b'"
  by (simp add: push_outcome_def)

lemma push_s3:
  assumes ok: "client_ok cl objects" and run: "s3_ReplaceFromTarWithExpiry cl name (Inr raw) dur s b = (res, s', b')"
    and fresh: "fresh_version cl objects s name b"
  shows "push_outcome cl objects s name raw b res s' b'"
proof (cases "nameRE name")
  case False
  then obtain e where "ValidateName name = Some e" by (cases "ValidateName name") auto
  then have "res = Inl e" "b' = b" using run unfolding s3_ReplaceFromTarWithExpiry_def by simp_all
  then show ?thesis using push_unchanged by metis
next
  case name: True
  obtain now0 b0 where n0: "cl_Now cl b = (now0, b0)" by (cases "cl_Now cl b")
  have b0: "objects b0 = objects b" using client_now [OF ok n0] .
  obtain rv b1 where nv: "newVersion cl b0 = (rv, b1)" by (cases "newVersion cl b0")
  have b1: "objects b1 = objects b" using newVersion_keeps [OF ok nv] b0 by simp
  note run = run [unfolded s3_ReplaceFromTarWithExpiry_def ValidateName_None [THEN iffD2, OF name] option.case sum.case n0 Let_def prod.case]
  show ?thesis
  proof (cases "\<exists>fsys st v. unpackTar now0 raw (ss_maxSiteBytes s) = Inr (fsys, st) \<and> rv = Inr v")
    case False
    then have "(b' = b0 \<or> b' = b1) \<and> (\<exists>err. res = Inl err)"
      using run nv by (cases "unpackTar now0 raw (ss_maxSiteBytes s)"; cases rv) auto
    then show ?thesis using push_unchanged b0 b1 by metis
  next
    case True
    then obtain fsys st v where un: "unpackTar now0 raw (ss_maxSiteBytes s) = Inr (fsys, st)" and v: "rv = Inr v" by blast
    have unused: "not_named (objects b) s name v" using fresh nv v n0 by (auto simp: fresh_version_def)
    let ?vk = "versionKey s name v"
    obtain r b2 where put: "cl_PutObject cl ?vk (TarBody raw) NoCond b1 = (r, b2)"
      by (cases "cl_PutObject cl ?vk (TarBody raw) NoCond b1")
    have keep: "live (objects b2) s n = live (objects b) s n" if "nameRE n" for n
      using client_put [OF ok put] b1 live_other_site(1) [OF that name, where s = s] live_other_version [OF unused name]
      by (cases "n = name") auto
    show ?thesis
    proof (cases r)
      case (Inl err)
      then have "b' = b2" "\<exists>err. res = Inl err" using run un nv v put by auto
      then show ?thesis using keep name by (auto simp: push_outcome_def)
    next
      case (Inr e)
      have b2: "objects b2 = (objects b)(?vk \<mapsto> (TarBody raw, e))"
        using client_put_ok [OF ok put [unfolded Inr]] b1 by simp
      obtain x b3 where ex: "(case dur of None \<Rightarrow> (None, b2) | Some d \<Rightarrow> case cl_Now cl b2 of (now, b3) \<Rightarrow> (Some (now + d), b3)) = (x, b3)"
        by (metis prod.exhaust)
      obtain now2 b4 where n2: "cl_Now cl b3 = (now2, b4)" by (cases "cl_Now cl b3")
      have b4: "objects b4 = objects b2"
        using ex client_now [OF ok] n2 by (auto split: option.splits prod.splits)
      define m where "m = \<lparr>M_Name = name, M_Version = v, M_FileCount = int (st_fileCount st),
          M_SizeBytes = st_sizeBytes st, M_UpdatedAt = now2, M_ExpiresAt = x\<rparr>"
      have cm: "s3_commit cl name m fsys s b4 = (res, s', b')"
        using run un nv v put Inr ex n2 by (simp add: m_def)
      have m: "M_Name m = name" "M_Version m = v" by (simp_all add: m_def)
      have "objects b4 (versionKey s name (M_Version m)) = Some (TarBody raw, e)" using b4 b2 m by simp
      moreover have "not_named (objects b4) s name (M_Version m)"
        using unused b4 b2 m metaKey_versionKey [of s name name v] by (simp add: not_named_def)
      ultimately show ?thesis
        using commit_s3 [OF ok cm name m(1)] keep name m(1) b4 by (auto simp: push_outcome_def split: sum.splits)
    qed
  qed
qed

section \<open>Deleting\<close>

lemma remove_all_keys:
  assumes "client_ok cl objects"
  shows "objects (remove_all cl ks b) k = objects b k \<or> objects (remove_all cl ks b) k = None \<and> k \<in> set ks"
proof (induction ks arbitrary: b)
  case (Cons k' ks)
  show ?case
    using Cons.IH [of "snd (cl_RemoveObject cl k' b)"] client_remove [OF assms, of k' b] by (cases "k = k'") auto
qed simp

text \<open>A deletion touches the metadata and the versions of its own site.\<close>

lemma delete_s3:
  assumes ok: "client_ok cl objects" and run: "s3_Delete cl name s b = (res, s', b')"
  shows "(\<forall>n. nameRE n \<longrightarrow> n \<noteq> name \<longrightarrow> live (objects b') s n = live (objects b) s n) \<and>
    ss_prefix s' = ss_prefix s \<and>
    (res = Inr () \<longrightarrow> objects b' (metaKey s name) = None \<and> map_of (ss_meta s') name = None)"
proof (cases "nameRE name")
  case False
  then show ?thesis using run by (auto simp: s3_Delete_def ValidateName_def)
next
  case name: True
  obtain r s1 b1 where lk: "s3_lookup cl name s b = (r, s1, b1)" by (metis prod.exhaust)
  have b1: "objects b1 = objects b" and pre: "ss_prefix s1 = ss_prefix s"
    using lookup_keeps [OF ok lk] by (simp_all add: same_content_def)
  note run = run [unfolded s3_Delete_def ValidateName_None [THEN iffD2, OF name] option.case lk prod.case]
  show ?thesis
  proof (cases "\<exists>m. r = Inr (Some m)")
    case False
    then have "b' = b1" "s' = s1" "res \<noteq> Inr ()" using run by (auto split: sum.splits option.splits)
    then show ?thesis using b1 pre by simp
  next
    case True
    obtain r2 b2 where rm: "cl_RemoveObject cl (metaKey s name) b1 = (r2, b2)" by (cases "cl_RemoveObject cl (metaKey s name) b1")
    have b2: "objects b2 = objects b \<or> objects b2 = (objects b)(metaKey s name := None)"
      using client_remove [OF ok, of "metaKey s name" b1] rm b1 by simp
    have other2: "live (objects b2) s n = live (objects b) s n" if "nameRE n" "n \<noteq> name" for n
      using b2 live_other_site(2) [OF that(1) name that(2)] by auto
    show ?thesis
    proof (cases r2)
      case (Inl err)
      then have "b' = b2" "s' = s1" "res \<noteq> Inr ()" using run True rm keys_cong(1) [OF pre] by auto
      then show ?thesis using other2 pre by simp
    next
      case (Inr u)
      obtain keys er b3 where ls: "cl_ListObjects cl (sitePrefix s name) b2 = ((keys, er), b3)" by (metis prod.exhaust)
      have keys: "objects b3 = objects b2" "\<forall>k \<in> set keys. HasPrefix k (sitePrefix s name)"
        using client_list [OF ok ls] by simp_all
      have gone: "objects b2 (metaKey s name) = None"
        using client_remove_case [OF ok rm] Inr by simp
      have s': "ss_prefix s' = ss_prefix s" "map_of (ss_meta s') name = None" "b' = remove_all cl keys b3"
        using run True rm Inr ls pre keys_cong(1) [OF pre] keys_cong(3) [of "forgetLocal name s1\<lparr>ss_content := dropAll (ss_content (forgetLocal name s1)) name\<rparr>" s]
        by (auto simp: forgetLocal_def Let_def)
      have mk: "objects b' (metaKey s n) = objects b2 (metaKey s n)" for n
        using remove_all_keys [OF ok, of keys b3 "metaKey s n"] keys metaKey_sitePrefix [of s n name] s'(3) by auto
      have vk: "objects b' (versionKey s n v) = objects b2 (versionKey s n v)" if "nameRE n" "n \<noteq> name" for n v
        using remove_all_keys [OF ok, of keys b3 "versionKey s n v"] keys sitePrefix_key [OF _ that(1) name] that(2) s'(3) by auto
      have "live (objects b') s n = live (objects b) s n" if "nameRE n" "n \<noteq> name" for n
        using live_cong [of "objects b'" s n "objects b2"] mk vk [OF that] other2 [OF that] by simp
      then show ?thesis using s' mk gone by simp
    qed
  qed
qed

lemma expire_s3:
  assumes ok: "client_ok cl objects" and run: "s3_expire_loop cl now snap names deleted s b = ((out, err), s', b')"
  shows "(\<forall>n. nameRE n \<longrightarrow> (\<forall>m. map_of snap n = Some m \<longrightarrow> \<not> meta_due now m) \<longrightarrow>
      live (objects b') s n = live (objects b) s n) \<and>
    set deleted \<subseteq> set out \<and>
    set out \<subseteq> set deleted \<union> {n \<in> set names. \<exists>m. map_of snap n = Some m \<and> meta_due now m} \<and>
    (err = None \<longrightarrow> (\<forall>n \<in> set names. \<forall>m. map_of snap n = Some m \<longrightarrow> meta_due now m \<longrightarrow> n \<in> set out))"
  using run
proof (induction names arbitrary: deleted s b)
  case (Cons name names)
  show ?case
  proof (cases "\<exists>m. map_of snap name = Some m \<and> meta_due now m")
    case False
    then have "s3_expire_loop cl now snap names deleted s b = ((out, err), s', b')"
      using Cons.prems by (auto split: option.splits)
    then show ?thesis using Cons.IH False by fastforce
  next
    case True
    obtain r s1 b1 where del: "s3_Delete cl name s b = (r, s1, b1)" by (metis prod.exhaust)
    note d = delete_s3 [OF ok del]
    have step: "live (objects b1) s n = live (objects b) s n"
      if "nameRE n" "\<forall>m. map_of snap n = Some m \<longrightarrow> \<not> meta_due now m" for n
      using d that True by metis
    have pre: "live B s1 = live B s" for B using d live_prefix by blast
    show ?thesis
    proof (cases "\<exists>e. r = Inl e \<and> \<not> is_ErrNotFound e")
      case stop: True
      then have "out = deleted" "err \<noteq> None" "b' = b1" using Cons.prems True del by auto
      then show ?thesis using step by auto
    next
      case False
      then have "s3_expire_loop cl now snap names (deleted @ [name]) s1 b1 = ((out, err), s', b')"
        using Cons.prems True del by (auto split: sum.splits if_splits)
      from Cons.IH [OF this] step True show ?thesis unfolding pre by auto
    qed
  qed
qed simp

section \<open>What a refresh sees\<close>

text \<open>Metadata objects stand under the key of the name they carry.\<close>

definition meta_wf :: "bucket \<Rightarrow> s3_store \<Rightarrow> bool" where
  "meta_wf B s \<longleftrightarrow>
     (\<forall>k m t. HasPrefix k (metaPrefix s) \<longrightarrow> B k = Some (MetaBody m, t) \<longrightarrow> k = metaKey s (M_Name m))"

lemma getMeta_body:
  assumes "client_ok cl objects" "getMeta cl k b = (Inr m, b')"
  shows "\<exists>t. objects b k = Some (MetaBody m, t)"
proof -
  obtain r1 b1 where g: "cl_GetObject cl k b = (r1, b1)" by (cases "cl_GetObject cl k b")
  obtain u where u: "r1 = Inr u" using assms(2) g by (cases r1) (auto simp: getMeta_def)
  obtain r2 b2 where rd: "cl_Read cl k b1 = (r2, b2)" by (cases "cl_Read cl k b1")
  note run = assms(2) [unfolded getMeta_def g u prod.case sum.case rd]
  obtain body where r2: "r2 = Inr body" using run by (cases r2) (auto split: if_splits)
  have body: "body = MetaBody m" using run unfolding r2 by (cases body) simp_all
  show ?thesis using client_read_body [OF assms(1) rd [unfolded r2 body]] client_get [OF assms(1) g] by simp
qed

lemma fetch_all_bodies:
  assumes "client_ok cl objects" "Inr m \<in> set (fst (fetch_all cl ks b))"
  shows "\<exists>k t. k \<in> set ks \<and> objects b k = Some (MetaBody m, t)"
  using assms(2)
proof (induction ks arbitrary: b)
  case (Cons k ks)
  obtain r b1 where g: "getMeta cl k b = (r, b1)" by (cases "getMeta cl k b")
  have b1: "objects b1 = objects b" using getMeta_keeps [OF assms(1) g] .
  have "r = Inr m \<or> Inr m \<in> set (fst (fetch_all cl ks b1))"
    using Cons.prems g by (auto simp: split_beta Let_def)
  then show ?case using getMeta_body [OF assms(1)] g Cons.IH [of b1] b1 by auto
qed simp

lemma collect_sound:
  assumes "collect cl rs nxt = Inr snap" "map_of snap n = Some m"
  shows "map_of nxt n = Some m \<or> Inr m \<in> set rs \<and> M_Name m = n \<and> nameRE n"
  using assms(1)
proof (induction rs arbitrary: nxt)
  case (Cons r rs)
  show ?case
  proof (cases r)
    case (Inl err)
    then show ?thesis using Cons by (auto split: if_splits)
  next
    case (Inr m')
    show ?thesis
    proof (cases "nameRE (M_Name m')")
      case True
      then have "collect cl rs (map_set (M_Name m') m' nxt) = Inr snap" using Cons.prems Inr by simp
      from Cons.IH [OF this] show ?thesis using Inr True by (auto split: if_splits)
    qed (use Cons Inr in auto)
  qed
qed (use assms(2) in auto)

lemma refresh_sound:
  assumes ok: "client_ok cl objects" and run: "refresh cl s b = (Inr snap, s', b')" and wf: "meta_wf (objects b) s"
    and m: "map_of snap n = Some m"
  shows "nameRE n \<and> (\<exists>t. objects b (metaKey s n) = Some (MetaBody m, t))"
proof -
  obtain keys b1 where ls: "cl_ListObjects cl (metaPrefix s) b = ((keys, None), b1)"
    using run by (auto simp: refresh_def split: prod.splits option.splits)
  have b1: "objects b1 = objects b" "\<forall>k \<in> set keys. HasPrefix k (metaPrefix s)" using client_list [OF ok ls] by simp_all
  obtain rs b2 where fa: "fetch_all cl (filter (\<lambda>k. HasSuffix k ''.json'') keys) b1 = (rs, b2)" by (metis prod.exhaust)
  have "collect cl rs [] = Inr snap" using run ls fa by (auto simp: refresh_def Let_def split: sum.splits prod.splits)
  then have "Inr m \<in> set rs" "M_Name m = n" "nameRE n" using collect_sound m by fastforce+
  moreover obtain k t where "k \<in> set keys" "objects b k = Some (MetaBody m, t)"
    using fetch_all_bodies [OF ok, of m "filter (\<lambda>k. HasSuffix k ''.json'') keys" b1] fa \<open>Inr m \<in> set rs\<close> b1(1) by auto
  ultimately show ?thesis using wf b1(2) by (auto simp: meta_wf_def)
qed

end
