(* ===== verification/S3_Invariant.thy ===== *)
theory S3_Invariant
  imports S3_Props
begin

text \<open>
  The invariant of the object-store backend.  Versions are immutable: \<^verbatim>\<open>H\<close> records the archive
  that was written under each site and version.  Every archive in the bucket is the recorded
  one, every cache entry is what the recorded archive unpacks to, and every metadata object
  stands under the key of its site.  All operations keep this, whatever requests fail.
\<close>

type_synonym history = "string \<times> string \<rightharpoonup> tar_stream"

definition unpacks :: "int \<Rightarrow> tar_stream \<Rightarrow> memfs \<Rightarrow> bool" where
  "unpacks limit ts f \<longleftrightarrow> (\<exists>now st. unpackTar now ts limit = Inr (f, st))"

definition good :: "int \<Rightarrow> history \<Rightarrow> string \<times> string \<Rightarrow> memfs \<Rightarrow> bool" where
  "good limit H k f \<longleftrightarrow> (\<exists>ts. H k = Some ts \<and> unpacks limit ts f)"

definition archived :: "bucket \<Rightarrow> history \<Rightarrow> s3_store \<Rightarrow> bool" where
  "archived B H s \<longleftrightarrow> (\<forall>n v ts t. nameRE n \<longrightarrow> B (versionKey s n v) = Some (TarBody ts, t) \<longrightarrow> H (n, v) = Some ts)"

definition named :: "bucket \<Rightarrow> history \<Rightarrow> s3_store \<Rightarrow> bool" where
  "named B H s \<longleftrightarrow> (\<forall>n m t. nameRE n \<longrightarrow> B (metaKey s n) = Some (MetaBody m, t) \<longrightarrow> H (n, M_Version m) \<noteq> None)"

definition snap_wf :: "(string \<times> site_meta) list \<Rightarrow> bool" where
  "snap_wf snap \<longleftrightarrow> (\<forall>n m. map_of snap n = Some m \<longrightarrow> M_Name m = n \<and> nameRE n)"

definition s3_inv :: "bucket \<Rightarrow> history \<Rightarrow> s3_store \<Rightarrow> bool" where
  "s3_inv B H s \<longleftrightarrow> meta_wf B s \<and> archived B H s \<and> named B H s \<and> snap_wf (ss_meta s) \<and> cache_inv (ss_content s) \<and>
     lru.coherent (ss_content s) (good (ss_maxSiteBytes s) H)"

section \<open>What a refresh sees, completely\<close>

lemma getMeta_complete:
  assumes ok: "client_ok cl objects" and run: "getMeta cl k b = (r, b')" and body: "objects b k = Some (MetaBody m, t)"
  shows "r = Inr m \<or> (\<exists>err. r = Inl err \<and> \<not> isNotFound cl err)"
proof -
  have laws: "get_ok cl objects" "read_ok cl objects" "wrap_ok cl" using ok by (simp_all add: client_ok_def)
  obtain r1 b1 where g: "cl_GetObject cl k b = (r1, b1)" by (cases "cl_GetObject cl k b")
  obtain r2 b2 where rd: "cl_Read cl k b1 = (r2, b2)" by (cases "cl_Read cl k b1")
  have b1: "objects b1 k = Some (MetaBody m, t)" using client_get [OF ok g] body by simp
  have L1: "case r1 of Inl err \<Rightarrow> isNotFound cl err \<longrightarrow> objects b k = None | Inr u \<Rightarrow> True"
    using laws(1) g unfolding get_ok_def by blast
  have L2: "case r2 of Inl err \<Rightarrow> isNotFound cl err \<longrightarrow> objects b1 k = None | Inr body \<Rightarrow> \<exists>t. objects b1 k = Some (body, t)"
    using laws(2) rd unfolding read_ok_def by blast
  show ?thesis
  proof (cases r1)
    case (Inl err)
    then show ?thesis using run g L1 body by (auto simp: getMeta_def)
  next
    case (Inr u)
    note run = run [unfolded getMeta_def g Inr prod.case sum.case rd]
    show ?thesis
    proof (cases r2)
      case (Inl err)
      then show ?thesis using run L2 b1 laws(3) unfolding wrap_ok_def by auto
    next
      case (Inr body')
      then show ?thesis using run L2 b1 by auto
    qed
  qed
qed

lemma fetch_all_complete:
  assumes ok: "client_ok cl objects" and "k \<in> set ks" "objects b k = Some (MetaBody m, t)"
  shows "Inr m \<in> set (fst (fetch_all cl ks b)) \<or> (\<exists>err. Inl err \<in> set (fst (fetch_all cl ks b)) \<and> \<not> isNotFound cl err)"
  using assms(2,3)
proof (induction ks arbitrary: b)
  case (Cons k' ks)
  obtain r b1 where g: "getMeta cl k' b = (r, b1)" by (cases "getMeta cl k' b")
  obtain rs b2 where fa: "fetch_all cl ks b1 = (rs, b2)" by (cases "fetch_all cl ks b1")
  have eq: "fst (fetch_all cl (k' # ks) b) = r # rs" using g fa by simp
  have b1: "objects b1 = objects b" using getMeta_keeps [OF ok g] .
  show ?case
  proof (cases "k = k'")
    case True
    then have "r = Inr m \<or> (\<exists>err. r = Inl err \<and> \<not> isNotFound cl err)"
      using getMeta_complete [OF ok g] Cons.prems(2) by simp
    then show ?thesis unfolding eq by auto
  next
    case False
    then have "k \<in> set ks" using Cons.prems(1) by simp
    then have "Inr m \<in> set rs \<or> (\<exists>err. Inl err \<in> set rs \<and> \<not> isNotFound cl err)"
      using Cons.IH [of b1] Cons.prems(2) b1 fa by simp
    then show ?thesis unfolding eq by auto
  qed
qed simp

lemma collect_errors:
  assumes "collect cl rs nxt = Inr snap" "Inl err \<in> set rs"
  shows "isNotFound cl err"
  using assms
proof (induction rs arbitrary: nxt)
  case (Cons r rs)
  then show ?case by (cases r) (auto split: if_splits)
qed simp

lemma collect_complete:
  assumes "collect cl rs nxt = Inr snap" "nameRE (M_Name m)"
    "\<And>m'. Inr m' \<in> set rs \<Longrightarrow> M_Name m' = M_Name m \<Longrightarrow> m' = m"
    "map_of nxt (M_Name m) = Some m \<or> Inr m \<in> set rs"
  shows "map_of snap (M_Name m) = Some m"
  using assms
proof (induction rs arbitrary: nxt)
  case (Cons r rs)
  show ?case
  proof (cases r)
    case (Inl err)
    then show ?thesis using Cons.prems Cons.IH [of nxt] by (auto split: if_splits)
  next
    case (Inr m')
    show ?thesis
    proof (cases "nameRE (M_Name m')")
      case True
      then have c: "collect cl rs (map_set (M_Name m') m' nxt) = Inr snap" using Cons.prems(1) Inr by simp
      have "M_Name m' = M_Name m \<longrightarrow> m' = m" using Cons.prems(3) Inr by simp
      then have "map_of (map_set (M_Name m') m' nxt) (M_Name m) = Some m \<or> Inr m \<in> set rs"
        using Cons.prems(4) Inr by auto
      with c show ?thesis using Cons.IH Cons.prems(2,3) by simp
    next
      case False
      then have "collect cl rs nxt = Inr snap" "m' \<noteq> m" using Cons.prems(1,2) Inr by auto
      then show ?thesis using Cons.IH [of nxt] Cons.prems Inr by auto
    qed
  qed
qed simp

lemma metaKey_listed: "HasPrefix (metaKey s n) (metaPrefix s)" "HasSuffix (metaKey s n) ''.json''"
proof -
  have "metaKey s n = metaPrefix s @ n @ ''.json''" by (simp add: metaKey_def metaPrefix_def)
  then show "HasPrefix (metaKey s n) (metaPrefix s)" by (auto simp: HasPrefix_iff)
  have "metaKey s n = (metaPrefix s @ n) @ ''.json''" by (simp add: metaKey_def metaPrefix_def)
  then show "HasSuffix (metaKey s n) ''.json''" unfolding HasSuffix_iff by blast
qed

lemma refresh_exact:
  assumes ok: "client_ok cl objects" and run: "refresh cl s b = (Inr snap, s', b')" and wf: "meta_wf (objects b) s"
  shows "map_of snap n = Some m \<longleftrightarrow> nameRE n \<and> (\<exists>t. objects b (metaKey s n) = Some (MetaBody m, t))"
proof
  assume "map_of snap n = Some m"
  then show "nameRE n \<and> (\<exists>t. objects b (metaKey s n) = Some (MetaBody m, t))"
    by (rule refresh_sound [OF ok run wf])
next
  assume "nameRE n \<and> (\<exists>t. objects b (metaKey s n) = Some (MetaBody m, t))"
  then obtain t where n: "nameRE n" and obj: "objects b (metaKey s n) = Some (MetaBody m, t)" by blast
  have name: "M_Name m = n"
    using wf obj metaKey_listed(1) [of s n] metaKey_inj [of s n "M_Name m"] unfolding meta_wf_def by metis
  obtain keys b1 where ls: "cl_ListObjects cl (metaPrefix s) b = ((keys, None), b1)"
    using run by (auto simp: refresh_def split: prod.splits option.splits)
  let ?ks = "filter (\<lambda>k. HasSuffix k ''.json'') keys"
  have b1: "objects b1 = objects b" and all: "\<forall>k \<in> set keys. HasPrefix k (metaPrefix s)"
    and "metaKey s n \<in> set keys"
    using client_list [OF ok ls] obj metaKey_listed(1) [of s n] by auto
  then have key: "metaKey s n \<in> set ?ks" using metaKey_listed(2) by simp
  obtain rs b2 where fa: "fetch_all cl ?ks b1 = (rs, b2)" by (metis prod.exhaust)
  have co: "collect cl rs [] = Inr snap" using run ls fa by (auto simp: refresh_def Let_def split: sum.splits prod.splits)
  have got: "Inr m \<in> set rs"
    using fetch_all_complete [OF ok key, of b1 m t] obj b1 fa collect_errors [OF co] by auto
  have "m' = m" if got': "Inr m' \<in> set rs" and same: "M_Name m' = M_Name m" for m'
  proof -
    obtain k t' where "k \<in> set ?ks" "objects b k = Some (MetaBody m', t')"
      using fetch_all_bodies [OF ok, of m' ?ks b1] fa got' b1 by auto
    then have "objects b (metaKey s n) = Some (MetaBody m', t')" using wf all same name by (auto simp: meta_wf_def)
    then show ?thesis using obj by simp
  qed
  then show "map_of snap n = Some m" using collect_complete [OF co, of m] got n name by blast
qed

section \<open>What the operations write\<close>

text \<open>
  The keys a push may touch: archives of its own site, of which only the new version is written,
  and, when \<^verbatim>\<open>c\<close> holds, the metadata of its site, which then names the new version.
\<close>

definition push_writes :: "bool \<Rightarrow> s3_store \<Rightarrow> string \<Rightarrow> string \<Rightarrow> tar_stream \<Rightarrow> bucket \<Rightarrow> bucket \<Rightarrow> bool" where
  "push_writes c s name v raw B B' \<longleftrightarrow>
     (\<forall>k. B' k = B k \<or>
        (\<exists>v'. k = versionKey s name v' \<and> (B' k = None \<or> v' = v \<and> (\<exists>t. B' k = Some (TarBody raw, t)))) \<or>
        (c \<and> k = metaKey s name \<and> (\<exists>m t. M_Name m = name \<and> M_Version m = v \<and> B' k = Some (MetaBody m, t))))"

lemma push_writes_refl [simp]: "push_writes c s name v raw B B"
  by (simp add: push_writes_def)

lemma push_writes_trans:
  "push_writes c s name v raw B B' \<Longrightarrow> push_writes c s name v raw B' B'' \<Longrightarrow> push_writes c s name v raw B B''"
  unfolding push_writes_def by metis

lemma push_writes_mono: "push_writes False s name v raw B B' \<Longrightarrow> push_writes c s name v raw B B'"
  unfolding push_writes_def by blast

lemma push_writes_archive: "push_writes c s name v raw B (B(versionKey s name v \<mapsto> (TarBody raw, t)))"
  by (auto simp: push_writes_def)

lemma push_writes_remove: "push_writes c s name v raw B (B(versionKey s name v' := None))"
  by (auto simp: push_writes_def)

lemma push_writes_meta:
  "M_Name m = name \<Longrightarrow> M_Version m = v \<Longrightarrow> push_writes True s name v raw B (B(metaKey s name \<mapsto> (MetaBody m, t)))"
  by (auto simp: push_writes_def)

lemma push_writes_removed:
  assumes "client_ok cl objects"
  shows "push_writes c s name v raw (objects b) (objects (snd (cl_RemoveObject cl (versionKey s name v') b)))"
  using client_remove [OF assms, of "versionKey s name v'" b] push_writes_remove [of c s name v raw "objects b" v'] by auto

text \<open>The keys a deletion may touch.\<close>

definition delete_writes :: "s3_store \<Rightarrow> string \<Rightarrow> bucket \<Rightarrow> bucket \<Rightarrow> bool" where
  "delete_writes s name B B' \<longleftrightarrow>
     (\<forall>k. B' k = B k \<or> B' k = None \<and> (k = metaKey s name \<or> HasPrefix k (sitePrefix s name)))"

section \<open>The invariant under changes of the bucket\<close>

lemma meta_wf_push:
  assumes "meta_wf B s" "push_writes c s name v raw B B'"
  shows "meta_wf B' s"
  unfolding meta_wf_def
proof (intro allI impI)
  fix k m t
  assume k: "HasPrefix k (metaPrefix s)" "B' k = Some (MetaBody m, t)"
  from assms(2) consider "B' k = B k" | v' where "k = versionKey s name v'" | "k = metaKey s name" "M_Name m = name"
    using k(2) unfolding push_writes_def by (metis Pair_inject option.inject s3_body.inject(2))
  then show "k = metaKey s (M_Name m)"
  proof cases
    case 1
    then show ?thesis using assms(1) k unfolding meta_wf_def by metis
  next
    case 2
    then show ?thesis using k(1) by (auto simp: HasPrefix_iff versionKey_def sitePrefix_def metaPrefix_def)
  qed simp
qed

lemma archived_push:
  assumes "archived B H s" "push_writes c s name v raw B B'" "nameRE name" "H (name, v) = None"
  shows "archived B' (H((name, v) \<mapsto> raw)) s"
  unfolding archived_def
proof (intro allI impI)
  fix n v' ts t
  assume n: "nameRE n" and k: "B' (versionKey s n v') = Some (TarBody ts, t)"
  from assms(2) consider "B' (versionKey s n v') = B (versionKey s n v')"
    | "versionKey s n v' = versionKey s name v" "ts = raw"
    using k metaKey_versionKey unfolding push_writes_def
    by (smt (verit, best) Pair_inject option.distinct(1) option.inject s3_body.inject(1))
  then show "(H((name, v) \<mapsto> raw)) (n, v') = Some ts"
  proof cases
    case 1
    then have "H (n, v') = Some ts" using assms(1) n k unfolding archived_def by metis
    then show ?thesis using assms(4) by auto
  next
    case 2
    then show ?thesis using versionKey_inj [OF n assms(3)] by simp
  qed
qed

lemma named_push:
  assumes "named B H s" "push_writes c s name v raw B B'" "nameRE name"
  shows "named B' (H((name, v) \<mapsto> raw)) s"
  unfolding named_def
proof (intro allI impI)
  fix n m t
  assume n: "nameRE n" and k: "B' (metaKey s n) = Some (MetaBody m, t)"
  from assms(2) consider "B' (metaKey s n) = B (metaKey s n)" | "metaKey s n = metaKey s name" "M_Version m = v"
    using k metaKey_versionKey unfolding push_writes_def
    by (smt (verit, best) Pair_inject option.distinct(1) option.inject s3_body.inject(2))
  then show "(H((name, v) \<mapsto> raw)) (n, M_Version m) \<noteq> None"
  proof cases
    case 1
    then have "H (n, M_Version m) \<noteq> None" using assms(1) n k unfolding named_def by metis
    then show ?thesis by simp
  next
    case 2
    then show ?thesis using metaKey_inj by simp
  qed
qed

lemma delete_writes_inv:
  assumes "delete_writes s name B B'"
  shows "meta_wf B s \<Longrightarrow> meta_wf B' s" "archived B H s \<Longrightarrow> archived B' H s" "named B H s \<Longrightarrow> named B' H s"
  using assms unfolding delete_writes_def meta_wf_def archived_def named_def by (metis option.distinct(1))+

lemma good_mono: "H \<subseteq>\<^sub>m H' \<Longrightarrow> good limit H k f \<Longrightarrow> good limit H' k f"
  unfolding good_def map_le_def by (metis domI)

section \<open>Reading\<close>

lemma refresh_state:
  assumes "refresh cl s b = (r, s', b')"
  shows "case r of Inl err \<Rightarrow> s' = s | Inr snap \<Rightarrow> ss_meta s' = snap \<and> snap_wf snap"
proof -
  obtain keys e b1 where ls: "cl_ListObjects cl (metaPrefix s) b = ((keys, e), b1)" by (metis prod.exhaust)
  obtain rs b2 where fa: "fetch_all cl (filter (\<lambda>k. HasSuffix k ''.json'') keys) b1 = (rs, b2)" by (metis prod.exhaust)
  note run = assms [unfolded refresh_def ls fa prod.case Let_def]
  show ?thesis
  proof (cases "e = None \<and> (\<exists>snap. collect cl rs [] = Inr snap)")
    case True
    then obtain snap where co: "e = None" "collect cl rs [] = Inr snap" by blast
    have "snap_wf snap"
      using collect_sound [OF co(2)] unfolding snap_wf_def by (metis map_of.simps(1) option.distinct(1))
    obtain now b3 where n: "cl_Now cl b2 = (now, b3)" by (cases "cl_Now cl b2")
    show ?thesis using run [unfolded co n option.case sum.case prod.case] \<open>snap_wf snap\<close> by auto
  next
    case False
    then have "(\<exists>err. r = Inl err) \<and> s' = s" using run by (cases e; cases "collect cl rs []") (simp_all, metis+)
    then show ?thesis by auto
  qed
qed

lemma snapshot_state:
  assumes "snapshot cl s b = (r, s', b')" "snap_wf (ss_meta s)"
  shows "snap_wf (ss_meta s') \<and> (\<forall>snap. r = Inr snap \<longrightarrow> snap = ss_meta s')"
proof (cases "ss_metaValid s")
  case True
  obtain now b1 where n: "cl_Now cl b = (now, b1)" by (cases "cl_Now cl b")
  show ?thesis
  proof (cases "now - ss_metaAt s < ss_metaTTL s")
    case True
    then show ?thesis using assms \<open>ss_metaValid s\<close> n by (auto simp: snapshot_def)
  next
    case False
    then have "refresh cl s b1 = (r, s', b')" using assms(1) True n by (simp add: snapshot_def)
    from refresh_state [OF this] show ?thesis using assms(2) by (auto split: sum.splits)
  qed
next
  case False
  then have "refresh cl s b = (r, s', b')" using assms(1) by (simp add: snapshot_def)
  from refresh_state [OF this] show ?thesis using assms(2) by (auto split: sum.splits)
qed

lemma s3_inv_same:
  assumes "same_content s s'" "snap_wf (ss_meta s')" "s3_inv B H s"
  shows "s3_inv B H s'"
proof -
  have "ss_prefix s' = ss_prefix s" using assms(1) by (simp add: same_content_def)
  then show ?thesis
    using assms by (simp add: s3_inv_def meta_wf_def archived_def named_def same_content_def keys_cong [where s = s and s' = s'])
qed

lemma snapshot_inv:
  assumes ok: "client_ok cl objects" and run: "snapshot cl s b = (r, s', b')" and inv: "s3_inv (objects b) H s"
  shows "s3_inv (objects b') H s'"
proof -
  have o: "objects b' = objects b" and same: "same_content s s'" using snapshot_keeps [OF ok run] by simp_all
  have "snap_wf (ss_meta s)" using inv by (simp add: s3_inv_def)
  then have "snap_wf (ss_meta s')" using snapshot_state [OF run] by simp
  then show ?thesis unfolding o by (rule s3_inv_same [OF same _ inv])
qed

lemma lookup_inv:
  assumes ok: "client_ok cl objects" and run: "s3_lookup cl name s b = (r, s', b')" and inv: "s3_inv (objects b) H s"
  shows "s3_inv (objects b') H s' \<and> (\<forall>m. r = Inr m \<longrightarrow> map_of (ss_meta s') name = m)"
proof -
  obtain r1 s1 b1 where sn: "snapshot cl s b = (r1, s1, b1)" by (metis prod.exhaust)
  have eq: "s1 = s'" "b1 = b'" and r: "\<forall>m. r = Inr m \<longrightarrow> (\<exists>snap. r1 = Inr snap \<and> m = map_of snap name)"
    using run sn by (cases r1; auto simp: s3_lookup_def)+
  have "snap_wf (ss_meta s)" using inv by (simp add: s3_inv_def)
  then show ?thesis using snapshot_inv [OF ok sn inv] snapshot_state [OF sn] r eq by auto
qed

section \<open>Every operation keeps the invariant\<close>

definition same_params :: "s3_store \<Rightarrow> s3_store \<Rightarrow> bool" where
  "same_params s s' \<longleftrightarrow> ss_prefix s' = ss_prefix s \<and> ss_maxSiteBytes s' = ss_maxSiteBytes s"

lemma s3_inv_cache:
  assumes "s3_inv B H s" "cache_inv c" "lru.coherent c (good (ss_maxSiteBytes s) H)"
  shows "s3_inv B H (s\<lparr>ss_content := c\<rparr>)"
proof -
  have "meta_wf B (s\<lparr>ss_content := c\<rparr>) = meta_wf B s" "archived B H (s\<lparr>ss_content := c\<rparr>) = archived B H s"
    "named B H (s\<lparr>ss_content := c\<rparr>) = named B H s"
    by (simp_all add: meta_wf_def archived_def named_def metaKey_def metaPrefix_def versionKey_def sitePrefix_def)
  then show ?thesis using assms by (simp add: s3_inv_def)
qed

lemma s3_inv_meta:
  assumes "s3_inv B H s" "snap_wf snap"
  shows "s3_inv B H (s\<lparr>ss_meta := snap\<rparr>)"
  by (rule s3_inv_same [OF _ _ assms(1)]) (simp_all add: same_content_def assms(2))

lemma s3_inv_remember:
  assumes inv: "s3_inv B H s" and size: "0 \<le> n" and good: "H (name, v) = Some ts" "unpackTar now ts (ss_maxSiteBytes s) = Inr (f, st)"
  shows "s3_inv B H (s\<lparr>ss_content := cache_put (ss_content s) name v f n\<rparr>)"
proof (rule s3_inv_cache [OF inv])
  have c: "cache_inv (ss_content s)" "lru.coherent (ss_content s) (good (ss_maxSiteBytes s) H)"
    using inv by (simp_all add: s3_inv_def)
  show "cache_inv (cache_put (ss_content s) name v f n)" using lru.ok_store [OF c(1) size] .
  have "good (ss_maxSiteBytes s) H (name, v) f" using good by (auto simp: good_def unpacks_def)
  then show "lru.coherent (cache_put (ss_content s) name v f n) (good (ss_maxSiteBytes s) H)"
    using lru.coherent_store [OF c(1) size c(2)] by blast
qed

lemma s3_inv_touch:
  assumes "s3_inv B H s"
  shows "s3_inv B H (s\<lparr>ss_content := snd (cache_get (ss_content s) n v)\<rparr>)"
    "fst (cache_get (ss_content s) n v) = Some f \<Longrightarrow> good (ss_maxSiteBytes s) H (n, v) f"
proof -
  have c: "cache_inv (ss_content s)" "lru.coherent (ss_content s) (good (ss_maxSiteBytes s) H)"
    using assms by (simp_all add: s3_inv_def)
  show "s3_inv B H (s\<lparr>ss_content := snd (cache_get (ss_content s) n v)\<rparr>)"
    by (rule s3_inv_cache [OF assms lru.ok_look [OF c(1)] lru.coherent_look [OF c]])
  show "fst (cache_get (ss_content s) n v) = Some f \<Longrightarrow> good (ss_maxSiteBytes s) H (n, v) f"
    by (rule lru.coherent_hit [OF c])
qed

lemma s3_inv_drop:
  assumes "s3_inv B H s"
  shows "s3_inv B H (s\<lparr>ss_content := dropAll (ss_content s) n\<rparr>)"
proof (rule s3_inv_cache [OF assms])
  have c: "cache_inv (ss_content s)" "lru.coherent (ss_content s) (good (ss_maxSiteBytes s) H)"
    using assms by (simp_all add: s3_inv_def)
  show "cache_inv (dropAll (ss_content s) n)" using lru.ok_drop [OF c(1)] .
  show "lru.coherent (dropAll (ss_content s) n) (good (ss_maxSiteBytes s) H)" by (rule lru.coherent_drop [OF c])
qed

lemma unpack_loop_grows:
  "unpack_loop limit (m, w) ts = Inr (m', w') \<Longrightarrow> w \<le> w'"
proof (induction ts arbitrary: m w)
  case (TarNext hdr ts)
  obtain m1 w1 where e: "unpack_entry limit (m, w) hdr False = Inr (m1, w1)"
    and rest: "unpack_loop limit (m1, w1) ts = Inr (m', w')"
    using TarNext.prems by (auto split: sum.splits)
  have "w \<le> w1" using e by (auto simp: unpack_entry_def Let_def split: sum.splits if_splits prod.splits)
  then show ?case using TarNext.IH [OF rest] by simp
qed (auto split: sum.splits)

lemma unpackTar_size: "unpackTar now ts limit = Inr (f, st) \<Longrightarrow> 0 \<le> st_sizeBytes st"
  using unpack_loop_grows by (fastforce simp: unpackTar_def split: sum.splits prod.splits)

lemma Open_inv:
  assumes ok: "client_ok cl objects" and run: "s3_Open cl name s b = (r, s', b')" and inv: "s3_inv (objects b) H s"
  shows "s3_inv (objects b') H s' \<and> same_params s s' \<and> (\<forall>f. r = Inr f \<longrightarrow>
    (\<exists>m. map_of (ss_meta s') name = Some m \<and> good (ss_maxSiteBytes s) H (name, M_Version m) f))"
proof (cases "nameRE name")
  case False
  then obtain e where "ValidateName name = Some e" by (cases "ValidateName name") auto
  then show ?thesis using run inv unfolding s3_Open_def by (auto simp: same_params_def)
next
  case name: True
  obtain rl s1 b1 where lk: "s3_lookup cl name s b = (rl, s1, b1)" by (metis prod.exhaust)
  have inv1: "s3_inv (objects b1) H s1" and found: "\<forall>m. rl = Inr m \<longrightarrow> map_of (ss_meta s1) name = m"
    using lookup_inv [OF ok lk inv] by simp_all
  have same: "ss_prefix s1 = ss_prefix s" "ss_maxSiteBytes s1 = ss_maxSiteBytes s"
    using lookup_keeps [OF ok lk] by (simp_all add: same_content_def)
  note run = run [unfolded s3_Open_def ValidateName_None [THEN iffD2, OF name] option.case lk prod.case]
  show ?thesis
  proof (cases "\<exists>m. rl = Inr (Some m)")
    case False
    then have "s' = s1" "b' = b1" "\<exists>e. r = Inl e" using run by (auto split: sum.splits option.splits)
    then show ?thesis using inv1 same by (auto simp: same_params_def)
  next
    case True
    then obtain m where m: "rl = Inr (Some m)" by blast
    obtain hit c where cg: "cache_get (ss_content s1) name (M_Version m) = (hit, c)" by (metis prod.exhaust)
    define s2 where "s2 = s1\<lparr>ss_content := c\<rparr>"
    have inv2: "s3_inv (objects b1) H s2" and hit: "\<And>f. hit = Some f \<Longrightarrow> good (ss_maxSiteBytes s) H (name, M_Version m) f"
      using s3_inv_touch [OF inv1, of name "M_Version m"] cg same by (simp_all add: s2_def)
    have par2: "same_params s s2" using same by (simp add: s2_def same_params_def)
    have meta2: "map_of (ss_meta s2) name = Some m" using found m by (simp add: s2_def)
    note run = run [unfolded m sum.case option.case Let_def cg prod.case, folded s2_def]
    show ?thesis
    proof (cases hit)
      case (Some f)
      then show ?thesis using run inv2 hit meta2 par2 by auto
    next
      case None
      note run = run [unfolded None option.case]
      let ?k = "versionKey s name (M_Version m)"
      obtain r2 b2 where g: "cl_GetObject cl ?k b1 = (r2, b2)" by (cases "cl_GetObject cl ?k b1")
      obtain now b3 where n: "cl_Now cl b2 = (now, b3)" by (cases "cl_Now cl b2")
      obtain r4 b4 where rd: "cl_Read cl ?k b3 = (r4, b4)" by (cases "cl_Read cl ?k b3")
      have o: "objects b2 = objects b1" "objects b3 = objects b1" "objects b4 = objects b1"
        using client_get [OF ok g] client_now [OF ok n] client_read [OF ok rd] by simp_all
      note run = run [unfolded g n rd prod.case]
      show ?thesis
      proof (cases "\<exists>u body f st. r2 = Inr u \<and> r4 = Inr body \<and> unpackTar now (as_tar body) (ss_maxSiteBytes s) = Inr (f, st)")
        case False
        then have "s' = s2 \<and> objects b' = objects b1 \<and> (\<exists>e. r = Inl e)"
          using run o by (cases r2; cases r4) (auto split: sum.splits if_splits)
        then show ?thesis using inv2 par2 by auto
      next
        case True
        then obtain u body f st where
          r: "r2 = Inr u" "r4 = Inr body" "unpackTar now (as_tar body) (ss_maxSiteBytes s) = Inr (f, st)" by blast
        obtain ts where ts: "body = TarBody ts" using r(3) by (cases body) (auto simp: unpackTar_def)
        obtain t where "objects b1 ?k = Some (TarBody ts, t)"
          using client_read_body [OF ok rd [unfolded r(2) ts]] o by auto
        then have H: "H (name, M_Version m) = Some ts"
          using inv1 name keys_cong(2) [OF same(1)] by (auto simp: s3_inv_def archived_def)
        have eq: "r = Inr f" "b' = b4" "s' = s2\<lparr>ss_content := cache_put (ss_content s2) name (M_Version m) f (st_sizeBytes st)\<rparr>"
          using run r by (simp_all add: s2_def)
        have un: "unpackTar now ts (ss_maxSiteBytes s2) = Inr (f, st)" using r(3) ts same by (simp add: s2_def)
        have "s3_inv (objects b') H s'"
          unfolding eq(2,3) o by (rule s3_inv_remember [OF inv2 unpackTar_size [OF un] H un])
        moreover have "good (ss_maxSiteBytes s) H (name, M_Version m) f"
          using H r(3) ts by (auto simp: good_def unpacks_def)
        ultimately show ?thesis using eq meta2 par2 by (simp add: same_params_def)
      qed
    qed
  qed
qed

text \<open>
  A push.  The version it draws must not have been drawn before: eight random bytes and the
  time make it so.
\<close>

definition unused_version :: "'b s3_client \<Rightarrow> history \<Rightarrow> string \<Rightarrow> 'b \<Rightarrow> bool" where
  "unused_version cl H name b \<longleftrightarrow> (\<forall>v b1. newVersion cl (snd (cl_Now cl b)) = (Inr v, b1) \<longrightarrow> H (name, v) = None)"

lemma s3_inv_grow:
  assumes inv: "s3_inv B H s" and "push_writes c s name v raw B B'" "nameRE name" "H (name, v) = None"
  shows "s3_inv B' (H((name, v) \<mapsto> raw)) s"
proof -
  have "H \<subseteq>\<^sub>m H((name, v) \<mapsto> raw)" using assms(4) by (auto simp: map_le_def)
  then have "lru.coherent (ss_content s) (good (ss_maxSiteBytes s) (H((name, v) \<mapsto> raw)))"
    using inv good_mono lru.coherent_mono [of "ss_content s"] unfolding s3_inv_def by metis
  then show ?thesis
    using inv meta_wf_push [OF _ assms(2)] archived_push [where B = B and H = H, OF _ assms(2-4)] named_push [where B = B and H = H, OF _ assms(2,3)]
    by (simp add: s3_inv_def)
qed

lemma commit_writes:
  assumes ok: "client_ok cl objects" and run: "s3_commit cl name m fsys s b = (res, s', b')"
    and m: "M_Name m = name" "M_Version m = v"
  shows "push_writes (\<not> client_strict cl objects \<or> (\<exists>x. res = Inr x)) s name v raw (objects b) (objects b')"
    (is "push_writes ?c _ _ _ _ _ _")
proof -
  obtain prev s1 b1 where lk: "s3_lookup cl name s b = (prev, s1, b1)" by (metis prod.exhaust)
  have b1: "objects b1 = objects b" and pre: "ss_prefix s1 = ss_prefix s"
    using lookup_keeps [OF ok lk] by (simp_all add: same_content_def)
  obtain r b2 where put: "cl_PutObject cl (metaKey s name) (MetaBody m) NoCond b1 = (r, b2)"
    by (cases "cl_PutObject cl (metaKey s name) (MetaBody m) NoCond b1")
  have pm: "putMeta cl s1 m b1 = (r, b2)" using put m(1) keys_cong(1) [OF pre] by (simp add: putMeta_def)
  note run = run [unfolded s3_commit_def lk pm prod.case Let_def keys_cong(2) [OF pre]]
  show ?thesis
  proof (cases r)
    case (Inl err)
    then have res: "res = Inl (ErrWrap ''s3: commit metadata'' err)" "b' = snd (cl_RemoveObject cl (versionKey s name v) b2)"
      using run m by simp_all
    have "push_writes ?c s name v raw (objects b) (objects b2)"
    proof (cases "client_strict cl objects")
      case True
      then have "objects b2 = objects b" using put Inl b1 unfolding client_strict_def by metis
      then show ?thesis by simp
    next
      case False
      then show ?thesis using client_put [OF ok put] b1 push_writes_meta [OF m, of s raw "objects b"] by auto
    qed
    then show ?thesis using push_writes_removed [OF ok] push_writes_trans res(2) by metis
  next
    case (Inr e)
    have res: "res = Inr (toWire m)" and b': "b' = b2 \<or> (\<exists>v'. b' = snd (cl_RemoveObject cl (versionKey s name v') b2))"
      using run Inr by (auto simp: applyLocal_def versionKey_def sitePrefix_def pre split: sum.splits option.splits if_splits)
    have "push_writes ?c s name v raw (objects b) (objects b2)"
      using client_put_ok [OF ok put [unfolded Inr]] b1 push_writes_meta [OF m, of s raw "objects b"] res by simp
    then show ?thesis using b' push_writes_removed [OF ok] push_writes_trans by metis
  qed
qed

lemma commit_inv:
  assumes ok: "client_ok cl objects" and run: "s3_commit cl name m fsys s b = (res, s', b')"
    and m: "M_Name m = name" "M_Version m = v" "0 \<le> M_SizeBytes m" and name: "nameRE name"
    and H: "H (name, v) = Some raw" "unpackTar now raw (ss_maxSiteBytes s) = Inr (fsys, st)"
    and inv: "s3_inv (objects b) H s" and "s3_inv (objects b') H s"
  shows "s3_inv (objects b') H s' \<and> same_params s s' \<and> (\<forall>x. res = Inr x \<longrightarrow> map_of (ss_meta s') name = Some m \<and> x = toWire m)"
proof -
  obtain prev s1 b1 where lk: "s3_lookup cl name s b = (prev, s1, b1)" by (metis prod.exhaust)
  have "snap_wf (ss_meta s1)" using lookup_inv [OF ok lk inv] by (simp add: s3_inv_def)
  have same: "same_content s s1" using lookup_keeps [OF ok lk] by simp
  have inv1: "s3_inv (objects b') H s1" using s3_inv_same [OF same \<open>snap_wf (ss_meta s1)\<close>] assms(10) .
  obtain r b2 where pm: "putMeta cl s1 m b1 = (r, b2)" by (cases "putMeta cl s1 m b1")
  note run = run [unfolded s3_commit_def lk pm prod.case Let_def]
  show ?thesis
  proof (cases r)
    case (Inl err)
    then show ?thesis using run inv1 same by (auto simp: same_params_def same_content_def)
  next
    case (Inr e)
    let ?s2 = "applyLocal name m s1"
    have s': "s' = ?s2\<lparr>ss_content := cache_put (ss_content ?s2) name v fsys (M_SizeBytes m)\<rparr>" using run Inr m by simp
    have "snap_wf (map_set name m (ss_meta s1))"
      using \<open>snap_wf (ss_meta s1)\<close> name m(1) by (auto simp: snap_wf_def)
    then have inv2: "s3_inv (objects b') H ?s2" unfolding applyLocal_def by (rule s3_inv_meta [OF inv1])
    have "unpackTar now raw (ss_maxSiteBytes ?s2) = Inr (fsys, st)"
      using H(2) same by (simp add: applyLocal_def same_content_def)
    then have "s3_inv (objects b') H s'" unfolding s' using s3_inv_remember [OF inv2 m(3) H(1)] by blast
    then show ?thesis using run Inr same unfolding s' by (auto simp: applyLocal_def same_params_def same_content_def)
  qed
qed

lemma unused_fresh:
  assumes "unused_version cl H name b" "s3_inv (objects b) H s" "nameRE name"
  shows "fresh_version cl objects s name b"
  unfolding fresh_version_def not_named_def
proof (intro allI impI)
  fix v b1 m t
  assume "newVersion cl (snd (cl_Now cl b)) = (Inr v, b1)" "objects b (metaKey s name) = Some (MetaBody m, t)"
  then have "H (name, v) = None" "H (name, M_Version m) \<noteq> None"
    using assms unfolding unused_version_def s3_inv_def named_def by blast+
  then show "M_Version m \<noteq> v" by auto
qed

text \<open>The history after a push: the archive is recorded under the version that was drawn.\<close>

definition written :: "'b s3_client \<Rightarrow> string \<Rightarrow> tar_stream \<Rightarrow> 'b \<Rightarrow> history \<Rightarrow> history" where
  "written cl name raw b H =
     (case fst (newVersion cl (snd (cl_Now cl b))) of Inl err \<Rightarrow> H | Inr v \<Rightarrow> if nameRE name then H((name, v) \<mapsto> raw) else H)"

lemma written_drawn:
  "cl_Now cl b = (now0, b0) \<Longrightarrow> newVersion cl b0 = (Inr v, b1) \<Longrightarrow> nameRE name \<Longrightarrow>
   written cl name raw b H = H((name, v) \<mapsto> raw)"
  by (simp add: written_def)

lemma written_inv:
  assumes "s3_inv B H s" "unused_version cl H name b"
  shows "s3_inv B (written cl name raw b H) s"
proof (cases "\<exists>v b1. newVersion cl (snd (cl_Now cl b)) = (Inr v, b1) \<and> nameRE name")
  case True
  then obtain v b1 where v: "newVersion cl (snd (cl_Now cl b)) = (Inr v, b1)" "nameRE name" by blast
  then have "H (name, v) = None" using assms(2) by (simp add: unused_version_def)
  then show ?thesis using s3_inv_grow [OF assms(1) push_writes_refl v(2)] v by (simp add: written_def)
next
  case False
  then have "written cl name raw b H = H"
    by (cases "newVersion cl (snd (cl_Now cl b))"; cases "fst (newVersion cl (snd (cl_Now cl b)))") (auto simp: written_def)
  then show ?thesis using assms(1) by simp
qed

text \<open>The bucket after a push, and the version it wrote.\<close>

lemma push_inv:
  assumes ok: "client_ok cl objects" and run: "s3_ReplaceFromTarWithExpiry cl name (Inr raw) dur s b = (res, s', b')"
    and unused: "unused_version cl H name b" and inv: "s3_inv (objects b) H s"
  shows "s3_inv (objects b') (written cl name raw b H) s' \<and> same_params s s' \<and>
    (\<exists>v. push_writes (\<not> client_strict cl objects \<or> (\<exists>x. res = Inr x)) s name v raw (objects b) (objects b') \<and>
      (\<forall>x. res = Inr x \<longrightarrow> written cl name raw b H (name, v) = Some raw))"
    (is "_ \<and> _ \<and> (\<exists>v. push_writes ?c s name v raw _ _ \<and> _)")
proof (cases "nameRE name")
  case False
  then obtain e where "ValidateName name = Some e" by (cases "ValidateName name") auto
  then have "res = Inl e" "b' = b" "s' = s" using run unfolding s3_ReplaceFromTarWithExpiry_def by simp_all
  then show ?thesis using written_inv [OF inv unused] by (auto simp: same_params_def)
next
  case name: True
  obtain now0 b0 where n0: "cl_Now cl b = (now0, b0)" by (cases "cl_Now cl b")
  obtain rv b1 where nv: "newVersion cl b0 = (rv, b1)" by (cases "newVersion cl b0")
  have o: "objects b0 = objects b" "objects b1 = objects b" using client_now [OF ok n0] newVersion_keeps [OF ok nv] by simp_all
  note run = run [unfolded s3_ReplaceFromTarWithExpiry_def ValidateName_None [THEN iffD2, OF name] option.case sum.case n0 Let_def prod.case]
  show ?thesis
  proof (cases "\<exists>fsys st v. unpackTar now0 raw (ss_maxSiteBytes s) = Inr (fsys, st) \<and> rv = Inr v")
    case False
    then have "(b' = b0 \<or> b' = b1) \<and> (\<exists>err. res = Inl err) \<and> s' = s"
      using run nv by (cases "unpackTar now0 raw (ss_maxSiteBytes s)"; cases rv) auto
    then have "objects b' = objects b" "\<exists>err. res = Inl err" "s' = s" using o by auto
    then show ?thesis using written_inv [OF inv unused] by (auto simp: same_params_def)
  next
    case True
    then obtain fsys st v where un: "unpackTar now0 raw (ss_maxSiteBytes s) = Inr (fsys, st)" and v: "rv = Inr v" by blast
    have Hv: "H (name, v) = None" using unused nv v n0 by (auto simp: unused_version_def)
    let ?vk = "versionKey s name v" and ?H = "H((name, v) \<mapsto> raw)"
    obtain r b2 where put: "cl_PutObject cl ?vk (TarBody raw) NoCond b1 = (r, b2)"
      by (cases "cl_PutObject cl ?vk (TarBody raw) NoCond b1")
    have wr: "written cl name raw b H = ?H" using written_drawn [OF n0 _ name] nv v by simp
    have w2: "push_writes c s name v raw (objects b) (objects b2)" for c
      using client_put [OF ok put] o push_writes_archive [of c s name v raw "objects b"] by auto
    have inv2: "s3_inv (objects b2) ?H s" by (rule s3_inv_grow [OF inv w2 name Hv])
    show ?thesis
    proof (cases r)
      case (Inl err)
      then have "b' = b2" "s' = s" "\<exists>err. res = Inl err" using run un nv v put by auto
      then show ?thesis using inv2 w2 wr by (auto simp: same_params_def)
    next
      case (Inr e)
      obtain x b3 where ex: "(case dur of None \<Rightarrow> (None, b2) | Some d \<Rightarrow> case cl_Now cl b2 of (now, b3) \<Rightarrow> (Some (now + d), b3)) = (x, b3)"
        by (metis prod.exhaust)
      obtain now2 b4 where n2: "cl_Now cl b3 = (now2, b4)" by (cases "cl_Now cl b3")
      have b4: "objects b4 = objects b2"
        using ex client_now [OF ok] n2 by (auto split: option.splits prod.splits)
      define m where "m = \<lparr>M_Name = name, M_Version = v, M_FileCount = int (st_fileCount st),
          M_SizeBytes = st_sizeBytes st, M_UpdatedAt = now2, M_ExpiresAt = x\<rparr>"
      have cm: "s3_commit cl name m fsys s b4 = (res, s', b')"
        using run un nv v put Inr ex n2 by (simp add: m_def)
      have m: "M_Name m = name" "M_Version m = v" "0 \<le> M_SizeBytes m"
        using unpackTar_size [OF un] by (simp_all add: m_def)
      have w: "push_writes ?c s name v raw (objects b) (objects b')"
        using push_writes_trans [OF w2] commit_writes [OF ok cm m(1,2)] b4 by simp
      have "s3_inv (objects b') ?H s' \<and> same_params s s' \<and> (\<forall>x. res = Inr x \<longrightarrow> map_of (ss_meta s') name = Some m \<and> x = toWire m)"
      proof (rule commit_inv [OF ok cm m name _ un])
        show "s3_inv (objects b4) ?H s" using inv2 b4 by simp
        show "s3_inv (objects b') ?H s" by (rule s3_inv_grow [OF inv w name Hv])
      qed simp
      then show ?thesis using w wr by auto
    qed
  qed
qed

lemma delete_writes_s3:
  assumes ok: "client_ok cl objects" and run: "s3_Delete cl name s b = (res, s', b')" and inv: "s3_inv (objects b) H s"
  shows "delete_writes s name (objects b) (objects b') \<and>
    (objects b' = objects b \<or> objects b' (metaKey s name) = None) \<and> s3_inv (objects b') H s' \<and> same_params s s'"
proof (cases "nameRE name")
  case False
  then obtain e where "ValidateName name = Some e" by (cases "ValidateName name") auto
  then show ?thesis using run inv by (simp add: s3_Delete_def delete_writes_def same_params_def)
next
  case name: True
  obtain r s1 b1 where lk: "s3_lookup cl name s b = (r, s1, b1)" by (metis prod.exhaust)
  have b1: "objects b1 = objects b" and pre: "ss_prefix s1 = ss_prefix s" and inv1: "s3_inv (objects b) H s1"
    and par: "same_params s s1"
    using lookup_keeps [OF ok lk] lookup_inv [OF ok lk inv] by (simp_all add: same_content_def same_params_def)
  note run = run [unfolded s3_Delete_def ValidateName_None [THEN iffD2, OF name] option.case lk prod.case]
  have grow: "s3_inv B H s1" if "delete_writes s name (objects b) B" for B
  proof -
    have "delete_writes s1 name (objects b) B" using that keys_cong [OF pre] by (simp add: delete_writes_def)
    from delete_writes_inv [OF this] show ?thesis using inv1 by (simp add: s3_inv_def)
  qed
  show ?thesis
  proof (cases "\<exists>m. r = Inr (Some m)")
    case False
    then have "b' = b1" "s' = s1" using run by (auto split: sum.splits option.splits)
    then show ?thesis using b1 inv1 par by (simp add: delete_writes_def)
  next
    case True
    obtain r2 b2 where rm: "cl_RemoveObject cl (metaKey s name) b1 = (r2, b2)" by (cases "cl_RemoveObject cl (metaKey s name) b1")
    have b2: "objects b2 = objects b \<or> objects b2 = (objects b)(metaKey s name := None)"
      using client_remove [OF ok, of "metaKey s name" b1] rm b1 by simp
    then have w2: "delete_writes s name (objects b) (objects b2)" by (auto simp: delete_writes_def split: if_splits)
    show ?thesis
    proof (cases r2)
      case (Inl err)
      then have "b' = b2" "s' = s1" using run True rm keys_cong(1) [OF pre] by auto
      then show ?thesis using w2 b2 grow par by auto
    next
      case (Inr u)
      obtain keys er b3 where ls: "cl_ListObjects cl (sitePrefix s name) b2 = ((keys, er), b3)" by (metis prod.exhaust)
      have keys: "objects b3 = objects b2" "\<forall>k \<in> set keys. HasPrefix k (sitePrefix s name)"
        using client_list [OF ok ls] by simp_all
      have gone: "objects b2 (metaKey s name) = None" using client_remove_case [OF ok rm] Inr by simp
      let ?s2 = "forgetLocal name s1"
      have s': "s' = ?s2\<lparr>ss_content := dropAll (ss_content ?s2) name\<rparr>" "b' = remove_all cl keys b3"
        using run True rm Inr ls pre keys_cong(1) [OF pre] keys_cong(3) [of "?s2\<lparr>ss_content := dropAll (ss_content ?s2) name\<rparr>" s]
        by (auto simp: forgetLocal_def Let_def)
      have all: "objects b' k = objects b2 k \<or> objects b' k = None \<and> HasPrefix k (sitePrefix s name)" for k
        using remove_all_keys [OF ok, of keys b3 k] keys unfolding s'(2) by auto
      then have w: "delete_writes s name (objects b) (objects b')"
        using w2 unfolding delete_writes_def by metis
      have "snap_wf (map_delete name (ss_meta s1))" using inv1 by (auto simp: s3_inv_def snap_wf_def split: if_splits)
      then have "s3_inv (objects b') H ?s2" unfolding forgetLocal_def by (rule s3_inv_meta [OF grow [OF w]])
      then have "s3_inv (objects b') H s'" unfolding s'(1) by (rule s3_inv_drop)
      moreover have "objects b' (metaKey s name) = None" using all [of "metaKey s name"] gone by auto
      moreover have "same_params s s'" using par unfolding s'(1) by (simp add: same_params_def forgetLocal_def)
      ultimately show ?thesis using w by blast
    qed
  qed
qed

section \<open>No metadata points to a missing archive\<close>

definition no_dangling :: "bucket \<Rightarrow> s3_store \<Rightarrow> bool" where
  "no_dangling B s \<longleftrightarrow> (\<forall>n m t. nameRE n \<longrightarrow> B (metaKey s n) = Some (MetaBody m, t) \<longrightarrow> live B s n \<noteq> None)"

lemma no_dangling_delete:
  assumes "no_dangling B s" "delete_writes s name B B'" "B' = B \<or> B' (metaKey s name) = None" "nameRE name"
  shows "no_dangling B' s"
  unfolding no_dangling_def
proof (intro allI impI)
  fix n m t
  assume n: "nameRE n" and k: "B' (metaKey s n) = Some (MetaBody m, t)"
  have mk: "B' (metaKey s n) = B (metaKey s n)" using assms(2) k unfolding delete_writes_def by (metis option.distinct(1))
  show "live B' s n \<noteq> None"
  proof (cases "B' = B")
    case True
    then show ?thesis using assms(1) n k unfolding no_dangling_def by metis
  next
    case False
    then have "n \<noteq> name" using assms(3) k by auto
    then have "B' (versionKey s n v) = B (versionKey s n v)" for v
      using assms(2) sitePrefix_key [OF _ n assms(4), of s v] metaKey_versionKey [of s name n v]
      unfolding delete_writes_def by metis
    then have "live B' s n = live B s n" using mk by (intro live_cong)
    then show ?thesis using assms(1) n k mk unfolding no_dangling_def by metis
  qed
qed

lemma no_dangling_push:
  assumes "no_dangling B s" "push_writes c s name v raw B B'" "nameRE name"
    "live B' s name = live B s name \<and> \<not> c \<or> live B' s name \<noteq> None"
  shows "no_dangling B' s"
  unfolding no_dangling_def
proof (intro allI impI)
  fix n m t
  assume n: "nameRE n" and k: "B' (metaKey s n) = Some (MetaBody m, t)"
  show "live B' s n \<noteq> None"
  proof (cases "n = name")
    case True
    have "B' (metaKey s name) = B (metaKey s name)" if "\<not> c"
      using assms(2) that metaKey_versionKey unfolding push_writes_def by metis
    then show ?thesis using assms(1,3,4) True k unfolding no_dangling_def by metis
  next
    case False
    have mk: "B' (metaKey s n) = B (metaKey s n)"
      using assms(2) metaKey_versionKey metaKey_inj False unfolding push_writes_def by metis
    moreover have "B' (versionKey s n v') = B (versionKey s n v')" for v'
      using assms(2) metaKey_versionKey versionKey_inj [OF n assms(3)] False unfolding push_writes_def by metis
    ultimately have "live B' s n = live B s n" by (intro live_cong)
    then show ?thesis using assms(1) n k mk unfolding no_dangling_def by metis
  qed
qed

end
