(* ===== verification/S3_Theorems.thy ===== *)
theory S3_Theorems
  imports S3_Invariant
begin

text \<open>
  The theorems of the object-store backend, over all sequences of operations and all failures
  the client may report, and an in-memory client that keeps the client's promises.
\<close>

section \<open>Reachable states\<close>

text \<open>
  One process works on the bucket: it opens, lists, pushes, deletes and expires sites in any
  order, and any request may fail.  The history is a record of what was pushed.
\<close>

inductive s3_reach :: "'b s3_client \<Rightarrow> history \<Rightarrow> s3_store \<Rightarrow> 'b \<Rightarrow> history \<Rightarrow> s3_store \<Rightarrow> 'b \<Rightarrow> bool"
  for cl G s0 b0 where
  start: "s3_reach cl G s0 b0 G s0 b0"
| openS: "s3_reach cl G s0 b0 H s b \<Longrightarrow> s3_Open cl name s b = (r, s', b') \<Longrightarrow> s3_reach cl G s0 b0 H s' b'"
| listS: "s3_reach cl G s0 b0 H s b \<Longrightarrow> s3_List cl s b = (r, s', b') \<Longrightarrow> s3_reach cl G s0 b0 H s' b'"
| namesS: "s3_reach cl G s0 b0 H s b \<Longrightarrow> s3_Names cl s b = (r, s', b') \<Longrightarrow> s3_reach cl G s0 b0 H s' b'"
| existsS: "s3_reach cl G s0 b0 H s b \<Longrightarrow> s3_Exists cl name s b = (r, s', b') \<Longrightarrow> s3_reach cl G s0 b0 H s' b'"
| statS: "s3_reach cl G s0 b0 H s b \<Longrightarrow> s3_Stat cl name s b = (r, s', b') \<Longrightarrow> s3_reach cl G s0 b0 H s' b'"
| push: "s3_reach cl G s0 b0 H s b \<Longrightarrow> unused_version cl H name b \<Longrightarrow>
    s3_ReplaceFromTarWithExpiry cl name (Inr raw) dur s b = (r, s', b') \<Longrightarrow>
    s3_reach cl G s0 b0 (written cl name raw b H) s' b'"
| delete: "s3_reach cl G s0 b0 H s b \<Longrightarrow> s3_Delete cl name s b = (r, s', b') \<Longrightarrow> s3_reach cl G s0 b0 H s' b'"
| expire: "s3_reach cl G s0 b0 H s b \<Longrightarrow> s3_DeleteExpired cl now s b = (r, s', b') \<Longrightarrow> s3_reach cl G s0 b0 H s' b'"

text \<open>What holds of every reachable state; the last part only for a client whose failed writes were not applied.\<close>

definition s3_ok :: "'b s3_client \<Rightarrow> ('b \<Rightarrow> bucket) \<Rightarrow> history \<Rightarrow> s3_store \<Rightarrow> 'b \<Rightarrow> bool" where
  "s3_ok cl objects H s b \<longleftrightarrow> s3_inv (objects b) H s \<and> (client_strict cl objects \<longrightarrow> no_dangling (objects b) s)"

lemma no_dangling_prefix: "same_params s s' \<Longrightarrow> no_dangling B s' = no_dangling B s"
  using keys_cong(1) [of s' s] live_prefix [of s' s B] by (simp add: no_dangling_def same_params_def)

lemma read_ok_state:
  assumes "client_ok cl objects" "snapshot cl s b = (r, s', b')" "s3_ok cl objects H s b"
  shows "s3_ok cl objects H s' b'"
proof -
  have "objects b' = objects b" "same_params s s'"
    using snapshot_keeps [OF assms(1,2)] by (simp_all add: same_content_def same_params_def)
  then show ?thesis
    using snapshot_inv [OF assms(1,2)] assms(3) no_dangling_prefix by (auto simp: s3_ok_def)
qed

lemma reads_snapshot:
  "s3_lookup cl name s b = (r1, s', b') \<Longrightarrow> \<exists>r. snapshot cl s b = (r, s', b')"
  "s3_List cl s b = (r2, s', b') \<Longrightarrow> \<exists>r. snapshot cl s b = (r, s', b')"
  "s3_Names cl s b = (r3, s', b') \<Longrightarrow> \<exists>r. snapshot cl s b = (r, s', b')"
  "s3_Exists cl name s b = (r4, s', b') \<Longrightarrow> (s' = s \<and> b' = b) \<or> (\<exists>r. snapshot cl s b = (r, s', b'))"
  "s3_Stat cl name s b = (r5, s', b') \<Longrightarrow> (s' = s \<and> b' = b) \<or> (\<exists>r. snapshot cl s b = (r, s', b'))"
proof -
  obtain r s1 b1 where sn: "snapshot cl s b = (r, s1, b1)" by (metis prod.exhaust)
  have lk: "\<exists>x. s3_lookup cl name s b = (x, s1, b1)" for name using sn by (cases r) (auto simp: s3_lookup_def)
  show "s3_lookup cl name s b = (r1, s', b') \<Longrightarrow> \<exists>r. snapshot cl s b = (r, s', b')" using lk [of name] sn by auto
  show "s3_List cl s b = (r2, s', b') \<Longrightarrow> \<exists>r. snapshot cl s b = (r, s', b')"
    using sn by (cases r) (auto simp: s3_List_def)
  show "s3_Names cl s b = (r3, s', b') \<Longrightarrow> \<exists>r. snapshot cl s b = (r, s', b')"
    using sn by (cases r) (auto simp: s3_Names_def)
  obtain x where x: "s3_lookup cl name s b = (x, s1, b1)" using lk by blast
  show "s3_Exists cl name s b = (r4, s', b') \<Longrightarrow> (s' = s \<and> b' = b) \<or> (\<exists>r. snapshot cl s b = (r, s', b'))"
    using sn x by (cases "ValidateName name"; cases x) (auto simp: s3_Exists_def)
  show "s3_Stat cl name s b = (r5, s', b') \<Longrightarrow> (s' = s \<and> b' = b) \<or> (\<exists>r. snapshot cl s b = (r, s', b'))"
    using sn x by (cases "ValidateName name"; cases x) (auto simp: s3_Stat_def split: option.splits)
qed

lemma Open_bucket:
  assumes ok: "client_ok cl objects" and run: "s3_Open cl name s b = (r, s', b')"
  shows "objects b' = objects b"
proof (cases "nameRE name")
  case False
  then obtain e where "ValidateName name = Some e" by (cases "ValidateName name") auto
  then show ?thesis using run unfolding s3_Open_def by auto
next
  case name: True
  obtain rl s1 b1 where lk: "s3_lookup cl name s b = (rl, s1, b1)" by (metis prod.exhaust)
  have b1: "objects b1 = objects b" using lookup_keeps [OF ok lk] by simp
  note run = run [unfolded s3_Open_def ValidateName_None [THEN iffD2, OF name] option.case lk prod.case]
  show ?thesis
  proof (cases "\<exists>m. rl = Inr (Some m)")
    case False
    then have "b' = b1" using run by (auto split: sum.splits option.splits)
    then show ?thesis using b1 by simp
  next
    case True
    then obtain m where m: "rl = Inr (Some m)" by blast
    let ?k = "versionKey s name (M_Version m)"
    obtain r2 b2 where g: "cl_GetObject cl ?k b1 = (r2, b2)" by (cases "cl_GetObject cl ?k b1")
    obtain now b3 where n: "cl_Now cl b2 = (now, b3)" by (cases "cl_Now cl b2")
    obtain r4 b4 where rd: "cl_Read cl ?k b3 = (r4, b4)" by (cases "cl_Read cl ?k b3")
    obtain hit c where cg: "cache_get (ss_content s1) name (M_Version m) = (hit, c)" by (metis prod.exhaust)
    have o: "objects b2 = objects b" "objects b3 = objects b" "objects b4 = objects b"
      using client_get [OF ok g] client_now [OF ok n] client_read [OF ok rd] b1 by simp_all
    note run = run [unfolded m sum.case option.case Let_def cg g n rd prod.case]
    have "b' = b1 \<or> b' = b2 \<or> b' = b4"
      using run by (cases hit; cases r2; cases r4) (auto split: sum.splits if_splits)
    then show ?thesis using o b1 by auto
  qed
qed

lemma delete_ok:
  assumes ok: "client_ok cl objects" and run: "s3_Delete cl name s b = (r, s', b')" and inv: "s3_ok cl objects H s b"
  shows "s3_ok cl objects H s' b'"
proof (cases "nameRE name")
  case False
  then obtain e where "ValidateName name = Some e" by (cases "ValidateName name") auto
  then show ?thesis using run inv by (simp add: s3_Delete_def)
next
  case name: True
  have inv0: "s3_inv (objects b) H s" using inv by (simp add: s3_ok_def)
  note d = delete_writes_s3 [OF ok run inv0]
  have "client_strict cl objects \<Longrightarrow> no_dangling (objects b') s"
    using d inv no_dangling_delete [OF _ _ _ name] unfolding s3_ok_def by blast
  then show ?thesis using d no_dangling_prefix by (auto simp: s3_ok_def)
qed

lemma expire_ok:
  assumes ok: "client_ok cl objects" and "s3_expire_loop cl now snap names deleted s b = (r, s', b')" "s3_ok cl objects H s b"
  shows "s3_ok cl objects H s' b'"
  using assms(2,3)
proof (induction names arbitrary: deleted s b)
  case (Cons name names)
  obtain rd s1 b1 where del: "s3_Delete cl name s b = (rd, s1, b1)" by (metis prod.exhaust)
  note ok1 = delete_ok [OF ok del Cons.prems(2)]
  have "\<exists>d. s3_expire_loop cl now snap names d s b = (r, s', b') \<or> s3_expire_loop cl now snap names d s1 b1 = (r, s', b') \<or>
      s' = s1 \<and> b' = b1"
    using Cons.prems(1) del by (cases rd) (auto split: if_splits option.splits)
  then show ?case using Cons.IH ok1 Cons.prems(2) by blast
qed simp

lemma refresh_ok_state:
  assumes "client_ok cl objects" "refresh cl s b = (r, s', b')" "s3_ok cl objects H s b"
  shows "s3_ok cl objects H s' b'"
proof -
  have o: "objects b' = objects b" and same: "same_content s s'" using refresh_keeps [OF assms(1,2)] by simp_all
  have "snap_wf (ss_meta s')"
    using refresh_state [OF assms(2)] assms(3) by (cases r) (auto simp: s3_ok_def s3_inv_def)
  then have "s3_inv (objects b) H s'" using s3_inv_same [OF same] assms(3) by (simp add: s3_ok_def)
  then show ?thesis
    using o same assms(3) no_dangling_prefix [of s s'] by (auto simp: s3_ok_def same_content_def same_params_def)
qed

lemma push_ok_state:
  assumes ok: "client_ok cl objects" and run: "s3_ReplaceFromTarWithExpiry cl name (Inr raw) dur s b = (res, s', b')"
    and unused: "unused_version cl H name b" and inv: "s3_ok cl objects H s b"
  shows "s3_ok cl objects (written cl name raw b H) s' b'"
proof (cases "nameRE name")
  case False
  then obtain e where "ValidateName name = Some e" by (cases "ValidateName name") auto
  then have "b' = b" "s' = s" using run unfolding s3_ReplaceFromTarWithExpiry_def by simp_all
  then show ?thesis using inv written_inv [OF _ unused] by (auto simp: s3_ok_def)
next
  case name: True
  have inv0: "s3_inv (objects b) H s" using inv by (simp add: s3_ok_def)
  obtain v where p: "s3_inv (objects b') (written cl name raw b H) s'" "same_params s s'"
    and w: "push_writes (\<not> client_strict cl objects \<or> (\<exists>x. res = Inr x)) s name v raw (objects b) (objects b')"
    using push_inv [OF ok run unused inv0] by blast
  have "no_dangling (objects b') s" if strict: "client_strict cl objects"
  proof (rule no_dangling_push [OF _ w name])
    show "no_dangling (objects b) s" using inv strict by (simp add: s3_ok_def)
    show "live (objects b') s name = live (objects b) s name \<and> \<not> (\<not> client_strict cl objects \<or> (\<exists>x. res = Inr x)) \<or>
        live (objects b') s name \<noteq> None"
      using push_s3 [OF ok run unused_fresh [where objects = objects, OF unused inv0 name]] strict by (cases res) (auto simp: push_outcome_def)
  qed
  then show ?thesis using p no_dangling_prefix by (auto simp: s3_ok_def)
qed

lemma reach_ok:
  assumes ok: "client_ok cl objects" and "s3_reach cl G s0 b0 H s b" "s3_ok cl objects G s0 b0"
  shows "s3_ok cl objects H s b"
  using assms(2,3)
proof induction
  case (openS H s b name r s' b')
  have "s3_inv (objects b) H s" using openS by (simp add: s3_ok_def)
  from Open_inv [OF ok openS(2) this] show ?case
    using openS Open_bucket [OF ok openS(2)] no_dangling_prefix [of s s'] by (auto simp: s3_ok_def)
next
  case (listS H s b r s' b')
  then show ?case using reads_snapshot(2) [OF listS(2)] read_ok_state [OF ok] by metis
next
  case (namesS H s b r s' b')
  then show ?case using reads_snapshot(3) [OF namesS(2)] read_ok_state [OF ok] by metis
next
  case (existsS H s b name r s' b')
  then show ?case using reads_snapshot(4) [OF existsS(2)] read_ok_state [OF ok] by metis
next
  case (statS H s b name r s' b')
  then show ?case using reads_snapshot(5) [OF statS(2)] read_ok_state [OF ok] by metis
next
  case (push H s b name raw dur r s' b')
  then show ?case using push_ok_state [OF ok push(3,2)] by simp
next
  case (delete H s b name r s' b')
  then show ?case using delete_ok [OF ok delete(2)] by simp
next
  case (expire H s b now r s' b')
  obtain rr s1 b1 where rf: "refresh cl s b = (rr, s1, b1)" by (metis prod.exhaust)
  have ok1: "s3_ok cl objects H s1 b1" using refresh_ok_state [OF ok rf] expire by simp
  have "s' = s1 \<and> b' = b1 \<or> (\<exists>snap. s3_expire_loop cl now snap (sort (map fst snap)) [] s1 b1 = (r, s', b'))"
    using expire(2) rf by (cases rr) (auto simp: s3_DeleteExpired_def)
  then show ?case using ok1 expire_ok [OF ok] by metis
qed

section \<open>A client in memory\<close>

text \<open>
  A bucket as a list of objects and a counter that is the clock and the source of entity tags.
  It keeps the client's promises, so the hypotheses of the theorems can hold.
\<close>

type_synonym mem_bucket = "(string \<times> s3_body \<times> string) list \<times> nat"

definition mem_objects :: "mem_bucket \<Rightarrow> bucket" where
  "mem_objects b = map_of (fst b)"

fun mem_response :: "store_err \<Rightarrow> nat \<times> string" where
  "mem_response (ErrResp status code) = (status, code)"
| "mem_response _ = (500, ''InternalError'')"

definition mem_client :: "mem_bucket s3_client" where
  "mem_client = \<lparr>
     cl_GetObject = (\<lambda>k b. (Inr (), b)),
     cl_Read = (\<lambda>k b. (case map_of (fst b) k of None \<Rightarrow> Inl (ErrResp 404 ''NoSuchKey'') | Some (body, tag) \<Rightarrow> Inr body, b)),
     cl_StatETag = (\<lambda>k b. (case map_of (fst b) k of None \<Rightarrow> Inl (ErrResp 404 ''NoSuchKey'') | Some (body, tag) \<Rightarrow> Inr tag, b)),
     cl_PutObject = (\<lambda>k body c b. if cond_holds c (map_of (fst b) k)
       then (Inr (dec_nat (snd b)), (map_set k (body, dec_nat (snd b)) (fst b), Suc (snd b)))
       else (Inl (ErrResp 412 ''PreconditionFailed''), b)),
     cl_RemoveObject = (\<lambda>k b. (Inr (), (map_delete k (fst b), snd b))),
     cl_ListObjects = (\<lambda>p b. ((filter (\<lambda>k. HasPrefix k p) (map fst (fst b)), None), b)),
     cl_ToErrorResponse = mem_response,
     cl_Now = (\<lambda>b. (int (snd b), (fst b, Suc (snd b)))),
     cl_Rand = (\<lambda>n b. (Some (replicate n (CHR 0x41)), b))\<rparr>"

lemma mem_notFound: "isNotFound mem_client (ErrResp status code) \<longleftrightarrow> status = 404 \<or> code = ''NoSuchKey'' \<or> code = ''NoSuchBucket'' \<or> code = ''NotFound''"
  by (simp add: isNotFound_def mem_client_def)

lemma mem_wrap: "isNotFound mem_client (ErrWrap m err) \<Longrightarrow> isNotFound mem_client err"
  by (auto simp: isNotFound_def mem_client_def split: if_splits)

lemma dec_nat_ne: "dec_nat n \<noteq> []"
  by (subst dec_nat.simps) simp

lemma mem_client_ok: "client_ok mem_client mem_objects"
proof -
  have "get_ok mem_client mem_objects" by (auto simp: get_ok_def mem_client_def)
  moreover have "read_ok mem_client mem_objects"
    by (auto simp: read_ok_def mem_client_def mem_objects_def split: option.splits)
  moreover have "etag_ok mem_client mem_objects"
    by (auto simp: etag_ok_def mem_client_def mem_objects_def split: option.splits)
  moreover have "list_ok mem_client mem_objects"
    by (auto simp: list_ok_def mem_client_def mem_objects_def map_of_eq_None_iff)
  moreover have "clock_ok mem_client mem_objects" by (simp add: clock_ok_def mem_client_def mem_objects_def)
  moreover have "put_ok mem_client mem_objects"
    by (auto simp: put_ok_def mem_client_def mem_objects_def dec_nat_ne split: if_splits)
  moreover have "remove_ok mem_client mem_objects"
    by (auto simp: remove_ok_def mem_client_def mem_objects_def fun_eq_iff)
  moreover have "wrap_ok mem_client" using mem_wrap by (auto simp: wrap_ok_def)
  ultimately show ?thesis by (simp add: client_ok_def)
qed

lemma mem_client_strict: "client_strict mem_client mem_objects"
  by (auto simp: client_strict_def mem_client_def split: if_splits)

text \<open>An empty bucket and a store on it.\<close>

definition mem_store :: s3_store where
  "mem_store = \<lparr>ss_prefix = ''p/'', ss_maxSiteBytes = 100, ss_metaTTL = 5, ss_content = newCache 1000,
     ss_meta = [], ss_metaAt = 0, ss_metaValid = False\<rparr>"

lemma mem_start: "s3_ok mem_client mem_objects Map.empty mem_store ([], n)"
proof -
  have "cache_contents (newCache 1000 :: memfs cache) = Map.empty" by (simp add: cache_contents_def newCache_def fun_eq_iff)
  moreover have "cache_inv (newCache 1000 :: memfs cache)" using cache_wf_new [of 1000] by (simp add: cache_inv_def newCache_def)
  ultimately show ?thesis
    by (simp add: s3_ok_def s3_inv_def meta_wf_def archived_def named_def snap_wf_def no_dangling_def mem_objects_def
        mem_store_def lru.coherent_def)
qed

lemma mem_unused: "unused_version mem_client Map.empty name b"
  by (simp add: unused_version_def)

section \<open>The theorems\<close>

text \<open>\<^verbatim>\<open>Open\<close> changes of the snapshot what its lookup changes.\<close>

lemma Open_found:
  assumes "s3_Open cl name s b = (Inr f, s', b')" "nameRE name" "s3_lookup cl name s b = (rl, s1, b1)"
  shows "\<exists>m. rl = Inr (Some m)"
  using assms by (auto simp: s3_Open_def split: sum.splits option.splits)

lemma Open_meta:
  assumes "s3_Open cl name s b = (Inr f, s', b')" "nameRE name" "s3_lookup cl name s b = (rl, s1, b1)"
  shows "ss_meta s' = ss_meta s1"
proof -
  obtain m where m: "rl = Inr (Some m)" using Open_found [OF assms] by blast
  obtain hit c where cg: "cache_get (ss_content s1) name (M_Version m) = (hit, c)" by (metis prod.exhaust)
  let ?k = "versionKey s name (M_Version m)"
  obtain r2 b2 where g: "cl_GetObject cl ?k b1 = (r2, b2)" by (cases "cl_GetObject cl ?k b1")
  obtain now b3 where n: "cl_Now cl b2 = (now, b3)" by (cases "cl_Now cl b2")
  obtain r4 b4 where rd: "cl_Read cl ?k b3 = (r4, b4)" by (cases "cl_Read cl ?k b3")
  note run = assms(1) [unfolded s3_Open_def ValidateName_None [THEN iffD2, OF assms(2)] option.case assms(3) prod.case
      m sum.case Let_def cg g n rd]
  show ?thesis using run by (cases hit; cases r2; cases r4) (auto split: sum.splits if_splits)
qed

text \<open>The snapshot of a site agrees with the bucket; then every later lookup does, fresh or not.\<close>

definition in_sync :: "bucket \<Rightarrow> s3_store \<Rightarrow> string \<Rightarrow> bool" where
  "in_sync B s name \<longleftrightarrow> (\<forall>m. map_of (ss_meta s) name = Some m \<longleftrightarrow> (\<exists>t. B (metaKey s name) = Some (MetaBody m, t)))"

lemma lookup_sync:
  assumes ok: "client_ok cl objects" and run: "s3_lookup cl name s b = (Inr x, s', b')" and wf: "meta_wf (objects b) s"
    and sync: "in_sync (objects b) s name" and name: "nameRE name"
  shows "x = map_of (ss_meta s) name"
proof -
  obtain r s1 b1 where sn: "snapshot cl s b = (r, s1, b1)" by (metis prod.exhaust)
  obtain snap where snap: "r = Inr snap" "x = map_of snap name" using run sn by (cases r) (auto simp: s3_lookup_def)
  have "snap = ss_meta s \<or> (\<exists>b2. objects b2 = objects b \<and> refresh cl s b2 = (Inr snap, s1, b1))"
  proof (cases "ss_metaValid s")
    case True
    obtain now b2 where n: "cl_Now cl b = (now, b2)" by (cases "cl_Now cl b")
    then show ?thesis using sn snap True client_now [OF ok n] by (auto simp: snapshot_def split: if_splits)
  next
    case False
    then show ?thesis using sn snap by (auto simp: snapshot_def)
  qed
  then show ?thesis
  proof
    assume "\<exists>b2. objects b2 = objects b \<and> refresh cl s b2 = (Inr snap, s1, b1)"
    then obtain b2 where b2: "objects b2 = objects b" "refresh cl s b2 = (Inr snap, s1, b1)" by blast
    have "map_of snap name = Some m \<longleftrightarrow> map_of (ss_meta s) name = Some m" for m
      using refresh_exact [OF ok b2(2), of name m] wf sync name b2(1) by (simp add: in_sync_def)
    then show ?thesis unfolding snap(2) by (metis not_Some_eq)
  qed (use snap in simp)
qed


definition mem_pushed :: "(store_err + site) \<times> s3_store \<times> mem_bucket" where
  "mem_pushed = s3_ReplaceFromTarWithExpiry mem_client ''docs'' (Inr sample_tar) (Some 60) mem_store ([], 7)"

lemma mem_pushed_ok: "isl (fst mem_pushed) = False"
  by code_simp



definition mem_meta :: site_meta where
  "mem_meta = \<lparr>M_Name = ''docs'', M_Version = ''8-4141414141414141'', M_FileCount = 1,
     M_SizeBytes = 3, M_UpdatedAt = 11, M_ExpiresAt = Some 70\<rparr>"

lemma mem_pushed_meta:
  "map_of (fst (snd (snd mem_pushed))) (metaKey (fst (snd mem_pushed)) ''docs'') = Some (MetaBody mem_meta, ''13'')"
  by code_simp

definition mem_history :: history where
  "mem_history = written mem_client ''docs'' sample_tar ([], 7) Map.empty"

lemma mem_reach: "s3_reach mem_client Map.empty mem_store ([], 7) mem_history (fst (snd mem_pushed)) (snd (snd mem_pushed))"
  unfolding mem_history_def
  by (rule s3_reach.push [OF s3_reach.start mem_unused, where r = "fst mem_pushed"]) (simp add: mem_pushed_def)


text \<open>
  C10: What \<^verbatim>\<open>Open\<close> serves, from the cache or the bucket, is the unpacked archive that was pushed
  under the version the metadata names, in every reachable state.
\<close>

theorem s3_Open_serves:
  assumes "client_ok cl objects" "s3_ok cl objects G s0 b0" "s3_reach cl G s0 b0 H s b"
    and "s3_Open cl name s b = (Inr f, s', b')"
  shows "\<exists>m ts now st. map_of (ss_meta s') name = Some m \<and> H (name, M_Version m) = Some ts \<and>
    unpackTar now ts (ss_maxSiteBytes s) = Inr (f, st)"
proof -
  have "s3_inv (objects b) H s" using reach_ok [OF assms(1,3,2)] by (simp add: s3_ok_def)
  from Open_inv [OF assms(1,4) this] show ?thesis by (auto simp: good_def unpacks_def)
qed

definition mem_opened :: "(store_err + memfs) \<times> s3_store \<times> mem_bucket" where
  "mem_opened = s3_Open mem_client ''docs'' (fst (snd mem_pushed)) (snd (snd mem_pushed))"

lemma mem_opened_ok: "isl (fst mem_opened) = False"
  by code_simp

theorem s3_Open_serves_witness:
  "\<exists>f (m :: site_meta) ts. fst mem_opened = Inr f \<and> mem_history (''docs'', M_Version m) = Some ts \<and> unpacks 100 ts f"
proof -
  obtain f where f: "fst mem_opened = Inr f" using mem_opened_ok by (cases "fst mem_opened") auto
  have run: "s3_Open mem_client ''docs'' (fst (snd mem_pushed)) (snd (snd mem_pushed)) =
      (Inr f, fst (snd mem_opened), snd (snd mem_opened))"
    using f unfolding mem_opened_def by (simp add: prod_eq_iff)
  have "ss_maxSiteBytes (fst (snd mem_pushed)) = 100" by code_simp
  then show ?thesis
    using s3_Open_serves [OF mem_client_ok mem_start mem_reach run] f by (auto simp: unpacks_def)
qed

text \<open>
  C23: A process reads its own writes.  After a push \<^verbatim>\<open>Stat\<close> reports exactly the site the push
  returned and \<^verbatim>\<open>Open\<close> serves the uploaded archive, whether or not the snapshot is refreshed in
  between; the only other outcome of \<^verbatim>\<open>Stat\<close> is an error of the refresh.
\<close>

theorem s3_read_your_writes:
  assumes "client_ok cl objects" "s3_ok cl objects G s0 b0" "s3_reach cl G s0 b0 H s b"
    and "unused_version cl H name b" "nameRE name"
    and "s3_ReplaceFromTarWithExpiry cl name (Inr raw) dur s b = (Inr x, s1, b1)"
  shows "(case s3_Stat cl name s1 b1 of (r, s2, b2) \<Rightarrow> r = Inr x \<or> (\<exists>err. r = Inl err \<and> fst (snapshot cl s1 b1) = Inl err)) \<and>
    (case s3_Open cl name s1 b1 of (r, s2, b2) \<Rightarrow> \<forall>f. r = Inr f \<longrightarrow> unpacks (ss_maxSiteBytes s) raw f)"
proof -
  have inv: "s3_inv (objects b) H s" using reach_ok [OF assms(1,3,2)] by (simp add: s3_ok_def)
  have fresh: "fresh_version cl objects s name b" by (rule unused_fresh [where objects = objects, OF assms(4) inv assms(5)])
  obtain m where m: "x = toWire m" "live (objects b1) s name = Some (m, raw)" "map_of (ss_meta s1) name = Some m"
    using push_s3 [OF assms(1,6) fresh] by (auto simp: push_outcome_def)
  obtain v where inv1: "s3_inv (objects b1) (written cl name raw b H) s1" and par: "same_params s s1"
    using push_inv [OF assms(1,6,4) inv] by blast
  obtain tag tag' where obj: "objects b1 (metaKey s1 name) = Some (MetaBody m, tag)"
      "objects b1 (versionKey s1 name (M_Version m)) = Some (TarBody raw, tag')"
    using m(2) keys_cong [of s1 s] par by (auto simp: live_def same_params_def split: option.splits s3_body.splits)
  have sync: "in_sync (objects b1) s1 name" using m(3) obj(1) by (simp add: in_sync_def)
  have wf: "meta_wf (objects b1) s1" and arch: "archived (objects b1) (written cl name raw b H) s1"
    using inv1 by (simp_all add: s3_inv_def)
  obtain rl s2 b2 where lk: "s3_lookup cl name s1 b1 = (rl, s2, b2)" by (metis prod.exhaust)
  have found: "rl = Inr y \<Longrightarrow> y = Some m" for y
    using lookup_sync [OF assms(1) _ wf sync assms(5)] lk m(3) by simp
  have lost: "rl = Inl err \<Longrightarrow> fst (snapshot cl s1 b1) = Inl err" for err
    using lk by (auto simp: s3_lookup_def split: prod.splits sum.splits)
  have "case s3_Stat cl name s1 b1 of (r, s2, b2) \<Rightarrow> r = Inr x \<or> (\<exists>err. r = Inl err \<and> fst (snapshot cl s1 b1) = Inl err)"
    using lk found lost m(1) unfolding s3_Stat_def ValidateName_None [THEN iffD2, OF assms(5)] by (cases rl) auto
  moreover have "unpacks (ss_maxSiteBytes s) raw f" if op: "s3_Open cl name s1 b1 = (Inr f, s3, b3)" for f s3 b3
  proof -
    obtain m' where m': "map_of (ss_meta s3) name = Some m'"
        "good (ss_maxSiteBytes s1) (written cl name raw b H) (name, M_Version m') f"
      using Open_inv [OF assms(1) op inv1] by blast
    have "ss_meta s3 = ss_meta s2" using Open_meta [OF op assms(5) lk] .
    then have "m' = m" using m'(1) found lookup_inv [OF assms(1) lk inv1] Open_found [OF op assms(5) lk] by auto
    moreover have "written cl name raw b H (name, M_Version m) = Some raw"
      using arch obj(2) assms(5) by (auto simp: archived_def)
    ultimately show ?thesis using m'(2) par by (auto simp: good_def same_params_def)
  qed
  ultimately show ?thesis by auto
qed

lemma mem_pushed_site: "fst mem_pushed = Inr (toWire mem_meta)"
  by code_simp

theorem s3_read_your_writes_witness:
  "case s3_Open mem_client ''docs'' (fst (snd mem_pushed)) (snd (snd mem_pushed)) of
     (r, s2, b2) \<Rightarrow> \<forall>f. r = Inr f \<longrightarrow> unpacks 100 sample_tar f"
proof -
  have run: "s3_ReplaceFromTarWithExpiry mem_client ''docs'' (Inr sample_tar) (Some 60) mem_store ([], 7) =
      (Inr (toWire mem_meta), fst (snd mem_pushed), snd (snd mem_pushed))"
    using mem_pushed_site by (simp add: mem_pushed_def prod_eq_iff)
  have name: "nameRE ''docs''" by code_simp
  have "ss_maxSiteBytes mem_store = 100" by (simp add: mem_store_def)
  then show ?thesis
    using s3_read_your_writes [OF mem_client_ok mem_start s3_reach.start mem_unused name run] by simp
qed

text \<open>
  C24: A successful deletion removes the metadata of the site, so that \<^verbatim>\<open>Stat\<close> reports it as not
  found (or fails to refresh), and no deletion, successful or not, changes another site.
\<close>

theorem s3_Delete_exact:
  assumes "client_ok cl objects" "s3_ok cl objects G s0 b0" "s3_reach cl G s0 b0 H s b"
    and "s3_Delete cl name s b = (res, s', b')"
  shows "(\<forall>n. nameRE n \<longrightarrow> n \<noteq> name \<longrightarrow> live (objects b') s n = live (objects b) s n) \<and>
    (res = Inr () \<longrightarrow> objects b' (metaKey s name) = None \<and>
      (fst (s3_Stat cl name s' b') = Inl ErrNotFound \<or>
       (\<exists>err. fst (s3_Stat cl name s' b') = Inl err \<and> fst (snapshot cl s' b') = Inl err)))"
proof -
  have inv: "s3_inv (objects b) H s" using reach_ok [OF assms(1,3,2)] by (simp add: s3_ok_def)
  note d = delete_s3 [OF assms(1,4)] and w = delete_writes_s3 [OF assms(1,4) inv]
  have "fst (s3_Stat cl name s' b') = Inl ErrNotFound \<or>
       (\<exists>err. fst (s3_Stat cl name s' b') = Inl err \<and> fst (snapshot cl s' b') = Inl err)" if fin: "res = Inr ()"
  proof -
    have name: "nameRE name" using assms(4) fin by (cases "nameRE name") (auto simp: s3_Delete_def ValidateName_def)
    have gone: "objects b' (metaKey s name) = None" "map_of (ss_meta s') name = None" "metaKey s' = metaKey s"
      using d fin keys_cong(1) [of s' s] by simp_all
    have sync: "in_sync (objects b') s' name" using gone by (simp add: in_sync_def)
    have wf: "meta_wf (objects b') s'" using w by (simp add: s3_inv_def)
    obtain rl s2 b2 where lk: "s3_lookup cl name s' b' = (rl, s2, b2)" by (metis prod.exhaust)
    have found: "rl = Inr y \<Longrightarrow> y = None" for y
      using lookup_sync [OF assms(1) _ wf sync name] lk gone(2) by simp
    have lost: "rl = Inl err \<Longrightarrow> fst (snapshot cl s' b') = Inl err" for err
      using lk by (auto simp: s3_lookup_def split: prod.splits sum.splits)
    show ?thesis
      using lk found lost unfolding s3_Stat_def ValidateName_None [THEN iffD2, OF name] by (cases rl) auto
  qed
  then show ?thesis using d by blast
qed

lemma mem_deleted: "fst (s3_Delete mem_client ''docs'' (fst (snd mem_pushed)) (snd (snd mem_pushed))) = Inr ()"
  by code_simp

theorem s3_Delete_exact_witness:
  "mem_objects (snd (snd (s3_Delete mem_client ''docs'' (fst (snd mem_pushed)) (snd (snd mem_pushed)))))
     (metaKey (fst (snd mem_pushed)) ''docs'') = None"
proof -
  obtain r s1 b1 where run: "s3_Delete mem_client ''docs'' (fst (snd mem_pushed)) (snd (snd mem_pushed)) = (r, s1, b1)"
    by (metis prod.exhaust)
  then have "r = Inr ()" using mem_deleted by simp
  then show ?thesis using s3_Delete_exact [OF mem_client_ok mem_start mem_reach run] run by simp
qed

text \<open>
  C25: The expiry sweep of the object store reads the bucket afresh.  It reports only sites whose
  deadline in the bucket has passed, leaves the others as they are, and when it ends without an
  error it reports all that have passed.
\<close>

definition due_in :: "bucket \<Rightarrow> s3_store \<Rightarrow> time \<Rightarrow> string \<Rightarrow> bool" where
  "due_in B s now n \<longleftrightarrow> nameRE n \<and> (\<exists>m t. B (metaKey s n) = Some (MetaBody m, t) \<and> meta_due now m)"

theorem s3_DeleteExpired_exact:
  assumes "client_ok cl objects" "s3_ok cl objects G s0 b0" "s3_reach cl G s0 b0 H s b"
    and "s3_DeleteExpired cl now s b = ((names, err), s', b')"
  shows "(\<forall>n \<in> set names. due_in (objects b) s now n) \<and>
    (\<forall>n. nameRE n \<longrightarrow> \<not> due_in (objects b) s now n \<longrightarrow> live (objects b') s n = live (objects b) s n) \<and>
    (err = None \<longrightarrow> (\<forall>n. due_in (objects b) s now n \<longrightarrow> n \<in> set names))"
proof -
  have inv: "s3_inv (objects b) H s" using reach_ok [OF assms(1,3,2)] by (simp add: s3_ok_def)
  then have wf: "meta_wf (objects b) s" by (simp add: s3_inv_def)
  obtain rr s1 b1 where rf: "refresh cl s b = (rr, s1, b1)" by (metis prod.exhaust)
  have b1: "objects b1 = objects b" and live1: "live B s1 = live B s" for B
    using refresh_keeps [OF assms(1) rf] live_prefix [of s1 s] by (simp_all add: same_content_def)
  show ?thesis
  proof (cases rr)
    case (Inl e)
    then show ?thesis using assms(4) rf b1 by (auto simp: s3_DeleteExpired_def)
  next
    case (Inr snap)
    have due: "(\<exists>m. map_of snap n = Some m \<and> meta_due now m) \<longleftrightarrow> due_in (objects b) s now n" for n
      using refresh_exact [OF assms(1) rf [unfolded Inr] wf, of n] by (auto simp: due_in_def)
    have "s3_expire_loop cl now snap (sort (map fst snap)) [] s1 b1 = ((names, err), s', b')"
      using assms(4) rf Inr by (simp add: s3_DeleteExpired_def)
    note e = expire_s3 [OF assms(1) this, unfolded live1 b1]
    have mem: "n \<in> set (sort (map fst snap))" if "map_of snap n = Some m" for n m
      using map_of_SomeD [OF that] by force
    have "\<forall>n \<in> set names. due_in (objects b) s now n" using e due by auto
    moreover have "live (objects b') s n = live (objects b) s n" if "nameRE n" "\<not> due_in (objects b) s now n" for n
      using e that due [of n] by metis
    moreover have "n \<in> set names" if "err = None" "due_in (objects b) s now n" for n
      using e that due [of n] mem by metis
    ultimately show ?thesis by blast
  qed
qed

lemma mem_expired: "fst (s3_DeleteExpired mem_client 70 (fst (snd mem_pushed)) (snd (snd mem_pushed))) = ([''docs''], None)"
  by code_simp

theorem s3_DeleteExpired_exact_witness:
  "due_in (mem_objects (snd (snd mem_pushed))) (fst (snd mem_pushed)) 70 ''docs''"
proof -
  obtain r s1 b1 where run: "s3_DeleteExpired mem_client 70 (fst (snd mem_pushed)) (snd (snd mem_pushed)) = (r, s1, b1)"
    by (metis prod.exhaust)
  then have "r = ([''docs''], None)" using mem_expired by simp
  then show ?thesis using s3_DeleteExpired_exact [OF mem_client_ok mem_start mem_reach run [unfolded \<open>r = ([''docs''], None)\<close>]] by simp
qed

text \<open>
  C22: A document is written by compare-and-swap: after a load a save succeeds only when the object
  still has the entity tag it was loaded with, or is still absent, whatever happened to the
  bucket in between.
\<close>

theorem Document_compare_and_swap:
  assumes "client_ok cl objects" "Document_Load cl (d, b) = (Inr data, d1, b1)"
    and "\<forall>body. objects b (d_key d) \<noteq> Some (body, [])"
    and "Document_Save cl new (d1, b2) = (Inr u, d2, b3)"
  shows "map_option snd (objects b2 (d_key d)) = map_option snd (objects b (d_key d)) \<and>
    objects b3 = (objects b2)(d_key d \<mapsto> (DocBody new, d_etag d2)) \<and> d_seen d2"
proof -
  note l = Document_Load_ok [OF assms(1,2)] and s = Document_Save_ok [OF assms(1,4)]
  show ?thesis
  proof (cases "objects b (d_key d)")
    case None
    then show ?thesis using l s by (simp add: save_cond_def cond_holds_def)
  next
    case (Some p)
    obtain body tag where p: "p = (body, tag)" by (cases p)
    have "tag \<noteq> []" using assms(3) Some p by auto
    then show ?thesis using l s Some p by (auto simp: save_cond_def cond_holds_def split: option.splits)
  qed
qed

definition mem_doc :: document where
  "mem_doc = Document mem_store ''tokens.yaml''"

theorem Document_compare_and_swap_witness:
  "\<exists>d2. mem_objects (snd (snd (Document_Save mem_client ''v1'' (snd (Document_Load mem_client (mem_doc, ([], 7)))))))
     ''p/state/tokens.yaml'' = Some (DocBody ''v1'', d_etag (d2 :: document))"
proof -
  have "isl (fst (Document_Load mem_client (mem_doc, ([], 7)))) = False" by code_simp
  then obtain x d1 b1 where load: "Document_Load mem_client (mem_doc, ([], 7)) = (Inr x, d1, b1)"
    by (metis prod.exhaust fst_conv sum.collapse(2))
  have "isl (fst (Document_Save mem_client ''v1'' (snd (Document_Load mem_client (mem_doc, ([], 7)))))) = False" by code_simp
  then have "isl (fst (Document_Save mem_client ''v1'' (d1, b1))) = False" using load by simp
  moreover obtain r d2 b2 where run: "Document_Save mem_client ''v1'' (d1, b1) = (r, d2, b2)" by (metis prod.exhaust)
  ultimately have save: "Document_Save mem_client ''v1'' (d1, b1) = (Inr (), d2, b2)" by (cases r) simp_all
  have key: "d_key mem_doc = ''p/state/tokens.yaml''" by code_simp
  show ?thesis
    using Document_compare_and_swap [OF mem_client_ok load _ save] key load save by (auto simp: mem_objects_def)
qed



end
