(* ===== verification/Backends.thy ===== *)
theory Backends
  imports Server S3_Theorems Local_Props
begin

text \<open>
  The two backends of the daemon as instances of the interface of \<^verbatim>\<open>internal/server/backend.go\<close>,
  and what the public side of the server relies on: reading does not change what is stored.
\<close>

section \<open>The local backend\<close>

text \<open>\<^verbatim>\<open>os.DirFS\<close> at the directory of a site.\<close>

definition local_fsys :: "env \<Rightarrow> fpath \<Rightarrow> world fsys" where
  "local_fsys e dir name w =
     (if \<not> ValidPath name then (Inl OtherFail, w)
      else case os_Stat e (dir @ (if name = ''.'' then [] else Split name slash)) w of
        (Inl err, w1) \<Rightarrow> (Inl (if err = ErrNotExist then NotExistFail else OtherFail), w1)
      | (Inr (File b m), w1) \<Rightarrow> (Inr (FileEntry b), w1)
      | (Inr (Folder m es), w1) \<Rightarrow> (Inr (DirEntry (sort (map fst es))), w1))"

definition local_backend :: "env \<Rightarrow> store \<Rightarrow> world backend" where
  "local_backend e s =
     \<lparr>be_List = Local_Store.List e s,
      be_Names = Names e s,
      be_Exists = Exists e s,
      be_Stat = Stat e s,
      be_Open = (\<lambda>name w. case Open e s name w of (Inl err, w1) \<Rightarrow> (Inl err, w1) | (Inr p, w1) \<Rightarrow> (Inr (local_fsys e p), w1)),
      be_Replace = ReplaceFromTarWithExpiry e s,
      be_Delete = Delete e s,
      be_DeleteExpired = DeleteExpired e s\<rparr>"

section \<open>The object-store backend\<close>

text \<open>The state is the store's own caches and the bucket.\<close>

definition mem_fsys :: "memfs \<Rightarrow> 'w fsys" where
  "mem_fsys m name w =
     (case memfs_Open m name of
        Inl FsNotExist \<Rightarrow> Inl NotExistFail
      | Inl err \<Rightarrow> Inl OtherFail
      | Inr (MemFile i d) \<Rightarrow> Inr (FileEntry d)
      | Inr (MemDir i es) \<Rightarrow> Inr (DirEntry (map mi_name es)), w)"

definition with_store :: "(s3_store \<Rightarrow> 'b \<Rightarrow> 'a \<times> s3_store \<times> 'b) \<Rightarrow> s3_store \<times> 'b \<Rightarrow> 'a \<times> s3_store \<times> 'b" where
  "with_store f w = f (fst w) (snd w)"

definition s3_backend :: "'b s3_client \<Rightarrow> (s3_store \<times> 'b) backend" where
  "s3_backend cl =
     \<lparr>be_List = with_store (s3_List cl),
      be_Names = with_store (s3_Names cl),
      be_Exists = (\<lambda>name. with_store (s3_Exists cl name)),
      be_Stat = (\<lambda>name. with_store (s3_Stat cl name)),
      be_Open = (\<lambda>name w. case with_store (s3_Open cl name) w of
                   (Inl err, w1) \<Rightarrow> (Inl err, w1) | (Inr m, w1) \<Rightarrow> (Inr (mem_fsys m), w1)),
      be_Replace = (\<lambda>name ts dur. with_store (s3_ReplaceFromTarWithExpiry cl name (Inr ts) dur)),
      be_Delete = (\<lambda>name. with_store (s3_Delete cl name)),
      be_DeleteExpired = (\<lambda>now. with_store (s3_DeleteExpired cl now))\<rparr>"

section \<open>The contract of a reading backend\<close>

text \<open>
  \<^verbatim>\<open>content\<close> is what is stored.  The read operations of the interface and the reads of an
  opened site leave it alone.
\<close>

locale read_backend =
  fixes be :: "'w backend" and content :: "'w \<Rightarrow> 'c"
  assumes list_keeps: "be_List be w = (r1, w') \<Longrightarrow> content w' = content w"
    and names_keeps: "be_Names be w = (r2, w') \<Longrightarrow> content w' = content w"
    and exists_keeps: "be_Exists be n w = (r3, w') \<Longrightarrow> content w' = content w"
    and stat_keeps: "be_Stat be n w = (r4, w') \<Longrightarrow> content w' = content w"
    and open_keeps: "be_Open be n w = (r5, w') \<Longrightarrow> content w' = content w"
    and file_keeps: "be_Open be n w = (Inr f, w1) \<Longrightarrow> f p v = (r6, v') \<Longrightarrow> content v' = content v"
begin

text \<open>The clock does not change what is stored.\<close>

definition clock_keeps :: "'w senv \<Rightarrow> bool" where
  "clock_keeps e \<longleftrightarrow> (\<forall>w. content (snd (se_now e w)) = content w)"

text \<open>A step of the process that keeps the contents and the tokens.\<close>

definition quiet_step :: "'w sstate \<Rightarrow> 'w sstate \<Rightarrow> bool" where
  "quiet_step st st' \<longleftrightarrow> content (sv_world st') = content (sv_world st) \<and> sv_tokens st' = sv_tokens st"

lemma quiet_refl [simp]: "quiet_step st st"
  by (simp add: quiet_step_def)

lemma quiet_trans: "quiet_step st st1 \<Longrightarrow> quiet_step st1 st2 \<Longrightarrow> quiet_step st st2"
  by (simp add: quiet_step_def)

lemma quiet_emit: "quiet_step st (emit ev st)"
  by (simp add: quiet_step_def emit_def)

lemma quiet_on_world:
  assumes "on_world f st = (r, st')" "\<And>w r w'. f w = (r, w') \<Longrightarrow> content w' = content w"
  shows "quiet_step st st'"
  using assms by (cases "f (sv_world st)") (auto simp: on_world_def quiet_step_def)

lemma quiet_now: "clock_keeps e \<Longrightarrow> on_world (se_now e) st = (r, st') \<Longrightarrow> quiet_step st st'"
  by (erule quiet_on_world) (metis clock_keeps_def snd_conv)

lemma ServeFileFS_keeps:
  assumes "\<And>p w r w'. f p w = (r, w') \<Longrightarrow> content w' = content w" "ServeFileFS r f name w = (resp, w')"
  shows "content w' = content w"
proof -
  obtain x w1 where x: "f name w = (x, w1)" by (cases "f name w")
  obtain y w2 where y: "f (TrimSuffix name ''/'' @ ''/index.html'') w1 = (y, w2)" by (cases "f (TrimSuffix name ''/'' @ ''/index.html'') w1")
  have "content w1 = content w" "content w2 = content w" using assms(1) [OF x] assms(1) [OF y] by simp_all
  moreover have "w' = w \<or> w' = w1 \<or> w' = w2"
    using assms(2) x y by (auto simp: ServeFileFS_def split: if_splits sum.splits fs_entry.splits)
  ultimately show ?thesis by auto
qed

lemma serveSite_keeps:
  assumes "\<And>p w r w'. f p w = (r, w') \<Longrightarrow> content w' = content w" "serveSite r name f parts st = (resp, st')"
  shows "quiet_step st st'"
proof -
  have "quiet_step st st'" if "on_world (ServeFileFS r f q) st = (resp, st')" for q
    by (rule quiet_on_world [OF that]) (erule ServeFileFS_keeps [OF assms(1), rotated], assumption)
  then show ?thesis using assms(2) by (auto simp: serveSite_def split: list.splits)
qed

lemma executeIndex_keeps: "executeIndex srv view st = (resp, st') \<Longrightarrow> quiet_step st st'"
  by (auto simp: executeIndex_def quiet_emit split: option.splits)

lemma list_quiet: "on_world (be_List be) st = (r, st') \<Longrightarrow> quiet_step st st'"
  by (erule quiet_on_world) (rule list_keeps)

lemma renderIndex_keeps:
  assumes "sr_store srv = be" "clock_keeps (sr_env srv)" "renderIndex srv st = (resp, st')"
  shows "quiet_step st st'"
proof -
  obtain x st1 where x: "on_world (be_List be) st = (x, st1)" by (cases "on_world (be_List be) st")
  obtain n1 st2 where n1: "on_world (se_now (sr_env srv)) st1 = (n1, st2)" by (cases "on_world (se_now (sr_env srv)) st1")
  obtain n2 st3 where n2: "on_world (se_now (sr_env srv)) st2 = (n2, st3)" by (cases "on_world (se_now (sr_env srv)) st2")
  have q1: "quiet_step st st1" by (rule list_quiet [OF x])
  have q3: "quiet_step st st3"
    using quiet_trans [OF quiet_trans [OF q1 quiet_now [OF assms(2) n1]] quiet_now [OF assms(2) n2]] .
  note run = assms(3) [unfolded renderIndex_def assms(1) x prod.case n1 n2 Let_def]
  show ?thesis
  proof (cases x)
    case (Inl err)
    then show ?thesis using run q1 by simp
  next
    case (Inr all)
    then show ?thesis using run q3 executeIndex_keeps quiet_trans [OF q3] by (auto split: option.splits)
  qed
qed

lemma renderGroupIndex_keeps:
  assumes "sr_store srv = be" "clock_keeps (sr_env srv)" "renderGroupIndex srv prefix st = (resp, st')"
  shows "quiet_step st st'"
proof -
  obtain x st1 where x: "on_world (be_List be) st = (x, st1)" by (cases "on_world (be_List be) st")
  obtain n1 st2 where n1: "on_world (se_now (sr_env srv)) st1 = (n1, st2)" by (cases "on_world (se_now (sr_env srv)) st1")
  obtain n2 st3 where n2: "on_world (se_now (sr_env srv)) st2 = (n2, st3)" by (cases "on_world (se_now (sr_env srv)) st2")
  have q1: "quiet_step st st1" by (rule list_quiet [OF x])
  have q3: "quiet_step st st3"
    using quiet_trans [OF quiet_trans [OF q1 quiet_now [OF assms(2) n1]] quiet_now [OF assms(2) n2]] .
  note run = assms(3) [unfolded renderGroupIndex_def assms(1) x prod.case n1 n2 Let_def]
  show ?thesis
  proof (cases x)
    case (Inl err)
    then show ?thesis using run q1 by simp
  next
    case (Inr all)
    then show ?thesis using run q3 executeIndex_keeps quiet_trans [OF q3] by (auto split: option.splits if_splits)
  qed
qed

lemma public_builtin_keeps:
  assumes "sr_store srv = be" "clock_keeps (sr_env srv)" "public_builtin srv r name parts st = (resp, st')"
  shows "quiet_step st st'"
proof (cases "findBuiltin srv name")
  case (Some b)
  then have "serveSite r (bi_Name b) (\<lambda>p w. (fs_of_node (bi_FS b) p, w)) parts st = (resp, st')"
    using assms(3) by (simp add: public_builtin_def)
  then show ?thesis by (rule serveSite_keeps [rotated]) simp
next
  case None
  obtain x st1 where x: "on_world (be_Names be) st = (x, st1)" by (cases "on_world (be_Names be) st")
  have q1: "quiet_step st st1" by (rule quiet_on_world [OF x]) (rule names_keeps)
  have "\<exists>c. hasGroupChildren srv name st = (c, st1)" using x assms(1) by (cases x) (auto simp: hasGroupChildren_def)
  then show ?thesis
    using assms(3) None q1 quiet_trans [OF q1 renderGroupIndex_keeps [OF assms(1,2)]]
    by (auto simp: public_builtin_def split: if_splits)
qed

lemma public_stored_keeps:
  assumes "sr_store srv = be" "public_stored srv r name parts st = (resp, st')"
  shows "quiet_step st st'"
proof -
  obtain x st1 where x: "on_world (be_Open be name) st = (x, st1)" by (cases "on_world (be_Open be name) st")
  have q1: "quiet_step st st1" by (rule quiet_on_world [OF x]) (rule open_keeps)
  show ?thesis
  proof (cases x)
    case (Inl err)
    then show ?thesis
      using assms(2) x assms(1) q1 quiet_trans [OF q1 quiet_emit] by (auto simp: public_stored_def split: if_splits)
  next
    case (Inr f)
    obtain w1 where op: "be_Open be name (sv_world st) = (Inr f, w1)" using x Inr by (auto simp: on_world_def split: prod.splits)
    have "serveSite r name f parts st1 = (resp, st')" using assms x Inr by (simp add: public_stored_def)
    then have "quiet_step st1 st'" by (rule serveSite_keeps [rotated]) (rule file_keeps [OF op])
    then show ?thesis using quiet_trans [OF q1] by blast
  qed
qed

lemma handlePublic_keeps:
  assumes "sr_store srv = be" "clock_keeps (sr_env srv)" "handlePublic srv r st = (resp, st')"
  shows "quiet_step st st'"
proof -
  define name where "name = hd (SplitN2 (TrimPrefix (rq_Path r) ''/'') slash)"
  obtain x st1 where x: "on_world (be_Stat be name) st = (x, st1)" by (cases "on_world (be_Stat be name) st")
  obtain n2 st2 where n2: "on_world (se_now (sr_env srv)) st1 = (n2, st2)" by (cases "on_world (se_now (sr_env srv)) st1")
  have q1: "quiet_step st st1" by (rule quiet_on_world [OF x]) (rule stat_keeps)
  have q2: "quiet_step st st2" using quiet_trans [OF q1 quiet_now [OF assms(2) n2]] .
  note run = assms(3) [unfolded handlePublic_def Let_def, folded name_def, unfolded assms(1) x prod.case n2]
  show ?thesis
  proof (cases "ValidateName name")
    case (Some e)
    show ?thesis using run [unfolded Some option.case] renderIndex_keeps [OF assms(1,2)] by (auto split: if_splits)
  next
    case None
    note run = run [unfolded None option.case]
    show ?thesis
    proof (cases x)
      case (Inl err)
      show ?thesis
        using run [unfolded Inl sum.case] quiet_trans [OF q1 public_builtin_keeps [OF assms(1,2)]] renderIndex_keeps [OF assms(1,2)]
        by (auto split: if_splits)
    next
      case (Inr s)
      show ?thesis
        using run [unfolded Inr sum.case] q2 quiet_trans [OF q2 public_stored_keeps [OF assms(1)]] renderIndex_keeps [OF assms(1,2)]
        by (auto split: if_splits)
    qed
  qed
qed

text \<open>The whole public surface.\<close>

lemma public_routes: "mux_match PublicHandler m ss = Some (rt, vals) \<Longrightarrow> rt \<in> {RHealth, RPublic, RNotFound}"
  by (auto simp: mux_match_def PublicHandler_def healthRoute_def publicRoutes_def split: if_splits option.splits)

lemma public_surface_keeps:
  assumes "sr_store srv = be" "clock_keeps (sr_env srv)" "serve PublicHandler srv r st = (resp, st')"
  shows "quiet_step st st'"
proof -
  have "quiet_step st st'"
    if m: "mux_match PublicHandler (rq_Method r) ss = Some (rt, vals)" and d: "dispatch srv rt val r st = (resp, st')" for ss rt vals val
    using public_routes [OF m] d handlePublic_keeps [OF assms(1,2)] by (auto simp: dispatch_def)
  then show ?thesis
    using assms(3) by (auto simp: serve_def Let_def split: if_splits option.splits prod.splits)
qed

end

section \<open>Both backends keep the contract\<close>

lemma local_reads_fs:
  "Names e s w = (r1, w') \<Longrightarrow> w_fs w' = w_fs w"
  "Exists e s n w = (r2, w') \<Longrightarrow> w_fs w' = w_fs w"
  "Open e s n w = (r3, w') \<Longrightarrow> w_fs w' = w_fs w"
  "local_fsys e d p w = (r4, w') \<Longrightarrow> w_fs w' = w_fs w"
proof -
  show "Names e s w = (r1, w') \<Longrightarrow> w_fs w' = w_fs w"
    using reads_fs(3) [of e "st_root s" w] by (auto simp: Names_def split: prod.splits sum.splits if_splits)
  show "Exists e s n w = (r2, w') \<Longrightarrow> w_fs w' = w_fs w"
    using reads_fs(1) [of e _ w] by (auto simp: Exists_def split: prod.splits sum.splits if_splits)
  show "Open e s n w = (r3, w') \<Longrightarrow> w_fs w' = w_fs w"
    using reads_fs(1) [of e _ w] by (auto simp: Open_def split: prod.splits sum.splits if_splits)
  show "local_fsys e d p w = (r4, w') \<Longrightarrow> w_fs w' = w_fs w"
    using reads_fs(1) [of e _ w] by (auto simp: local_fsys_def split: prod.splits sum.splits node.splits if_splits)
qed

lemma List_fs:
  assumes "Local_Store.List e s w = (r, w')"
  shows "w_fs w' = w_fs w"
proof -
  obtain rd w1 where rd: "os_ReadDir e (st_root s) w = (rd, w1)" by (cases "os_ReadDir e (st_root s) w")
  have "w_fs w1 = w_fs w" by (rule reads_fs(3) [OF rd])
  then show ?thesis
    using assms rd list_loop_fs [of e s _ "[]" w1]
    by (cases rd) (auto simp: List_def split: prod.splits, metis snd_conv)
qed

interpretation loc: read_backend "local_backend e s" w_fs for e s
proof
  fix w r w'
  assume "be_List (local_backend e s) w = (r, w')"
  then show "w_fs w' = w_fs w" using List_fs by (simp add: local_backend_def)
next
  fix w r w'
  assume "be_Names (local_backend e s) w = (r, w')"
  then show "w_fs w' = w_fs w" using local_reads_fs(1) by (simp add: local_backend_def)
next
  fix n w r w'
  assume "be_Exists (local_backend e s) n w = (r, w')"
  then show "w_fs w' = w_fs w" using local_reads_fs(2) by (simp add: local_backend_def)
next
  fix n w r w'
  assume "be_Stat (local_backend e s) n w = (r, w')"
  then show "w_fs w' = w_fs w" using Stat_fs by (simp add: local_backend_def)
next
  fix n w r w'
  assume "be_Open (local_backend e s) n w = (r, w')"
  then obtain x where "Open e s n w = (x, w')" by (auto simp: local_backend_def split: prod.splits sum.splits)
  then show "w_fs w' = w_fs w" by (rule local_reads_fs(3))
next
  fix n w f w1 p v r v'
  assume "be_Open (local_backend e s) n w = (Inr f, w1)" "f p v = (r, v')"
  then obtain d where "local_fsys e d p v = (r, v')" by (auto simp: local_backend_def split: prod.splits sum.splits)
  then show "w_fs v' = w_fs v" by (rule local_reads_fs(4))
qed

lemma s3_read_backend:
  assumes ok: "client_ok cl objects"
  shows "read_backend (s3_backend cl) (\<lambda>w. objects (snd w))"
proof
  fix w r w'
  assume "be_List (s3_backend cl) w = (r, w')"
  then have "s3_List cl (fst w) (snd w) = (r, fst w', snd w')" by (simp add: s3_backend_def with_store_def)
  then show "objects (snd w') = objects (snd w)" using reads_snapshot(2) snapshot_keeps [OF ok] by metis
next
  fix w r w'
  assume "be_Names (s3_backend cl) w = (r, w')"
  then have "s3_Names cl (fst w) (snd w) = (r, fst w', snd w')" by (simp add: s3_backend_def with_store_def)
  then show "objects (snd w') = objects (snd w)" using reads_snapshot(3) snapshot_keeps [OF ok] by metis
next
  fix n w r w'
  assume "be_Exists (s3_backend cl) n w = (r, w')"
  then have "s3_Exists cl n (fst w) (snd w) = (r, fst w', snd w')" by (simp add: s3_backend_def with_store_def)
  then show "objects (snd w') = objects (snd w)" using reads_snapshot(4) snapshot_keeps [OF ok] by metis
next
  fix n w r w'
  assume "be_Stat (s3_backend cl) n w = (r, w')"
  then have "s3_Stat cl n (fst w) (snd w) = (r, fst w', snd w')" by (simp add: s3_backend_def with_store_def)
  then show "objects (snd w') = objects (snd w)" using reads_snapshot(5) snapshot_keeps [OF ok] by metis
next
  fix n w r w'
  assume "be_Open (s3_backend cl) n w = (r, w')"
  then obtain x where "s3_Open cl n (fst w) (snd w) = (x, fst w', snd w')"
    by (auto simp: s3_backend_def with_store_def split: prod.splits sum.splits)
  then show "objects (snd w') = objects (snd w)" using Open_bucket [OF ok] by blast
next
  fix n w f w1 p v r v'
  assume "be_Open (s3_backend cl) n w = (Inr f, w1)" "f p v = (r, v')"
  then have "v' = v" by (auto simp: s3_backend_def mem_fsys_def split: prod.splits sum.splits)
  then show "objects (snd v') = objects (snd v)" by simp
qed

end
