(* ===== verification/Server_Props.thy ===== *)
theory Server_Props
  imports Backends
begin

text \<open>
  The theorems of the HTTP daemon: who may change what, which requests reach the storage, what
  the public surface serves, and how the daemon and the backends work together.
\<close>

section \<open>A server to try things on\<close>

definition sample_senv :: "time \<Rightarrow> 'w senv" where
  "sample_senv T =
     \<lparr>se_now = (\<lambda>w. (T, w)), se_rand = (\<lambda>w k n. Some (replicate n (CHR ''r''))), se_marshal = (\<lambda>rs. Some []),
      se_save = (\<lambda>d w. (Inr (), w)), se_decode = (\<lambda>b f. None), se_tar = (\<lambda>b. sample_tar),
      se_CreateTemp = (\<lambda>w. (True, w)), se_CopyWrite = (\<lambda>w. (True, w)), se_Seek = (\<lambda>w. (True, w))\<rparr>"

definition server_config :: config where
  "server_config = zero_config\<lparr>C_Token := ''root'', C_MaxUploadBytes := 100, C_BaseURL := ''http://h''\<rparr>"

definition sample_server :: "'w backend \<Rightarrow> time \<Rightarrow> 'w server" where
  "sample_server be T = New_srv server_config be [] (\<lambda>v. None) ''v1'' (sample_senv T)"

definition sample_request :: "string \<Rightarrow> string \<Rightarrow> string \<Rightarrow> request" where
  "sample_request meth path auth =
     \<lparr>rq_Method = meth, rq_EscapedPath = path, rq_Path = path, rq_Auth = auth, rq_Expires = [], rq_Body = [], rq_BodyFails = False\<rparr>"

definition sample_state :: "'w \<Rightarrow> 'w sstate" where
  "sample_state w = \<lparr>sv_world = w, sv_tokens = Some \<lparr>ts_recs = [], ts_lastSaved = (\<lambda>i. None)\<rparr>, sv_events = []\<rparr>"

lemma sample_server_simps [simp]:
  "sr_store (sample_server be T) = be" "sr_mutable (sample_server be T) = Some be" "sr_env (sample_server be T) = sample_senv T"
  "se_now (sample_senv T) w = (T, w)" "sv_world (sample_state w) = w"
  by (simp_all add: sample_server_def New_srv_def sample_senv_def sample_state_def)

section \<open>The web role\<close>

text \<open>
  C16: A request to the public surface, of any method and path, changes nothing that the local
  backend stores and no token, whatever calls fail.
\<close>

theorem local_web_readonly:
  assumes "sr_store srv = local_backend e s" "\<forall>w. w_fs (snd (se_now (sr_env srv) w)) = w_fs w"
    and "serve PublicHandler srv r st = (resp, st')"
  shows "w_fs (sv_world st') = w_fs (sv_world st) \<and> sv_tokens st' = sv_tokens st"
proof -
  have "loc.clock_keeps (sr_env srv)" using assms(2) unfolding loc.clock_keeps_def .
  from loc.public_surface_keeps [OF assms(1) this assms(3)] show ?thesis unfolding loc.quiet_step_def .
qed

theorem local_web_readonly_witness:
  "w_fs (sv_world (snd (serve PublicHandler (sample_server (local_backend calm sample_store) 9) (sample_request ''DELETE'' ''/api/sites/a'' ''Bearer root'')
     (sample_state sample_world)))) = w_fs sample_world"
proof -
  obtain resp st' where run: "serve PublicHandler (sample_server (local_backend calm sample_store) 9) (sample_request ''DELETE'' ''/api/sites/a'' ''Bearer root'')
      (sample_state sample_world) = (resp, st')" by (rule that [OF surjective_pairing])
  show ?thesis using local_web_readonly [OF _ _ run, of calm sample_store] unfolding run by simp
qed

text \<open>
  C17: The same for the object-store backend: a request to the public surface leaves every object
  of the bucket as it is, whatever requests to the store fail.
\<close>

theorem s3_web_readonly:
  assumes "client_ok cl objects" "sr_store srv = s3_backend cl"
    and "\<forall>w. objects (snd (snd (se_now (sr_env srv) w))) = objects (snd w)"
    and "serve PublicHandler srv r st = (resp, st')"
  shows "objects (snd (sv_world st')) = objects (snd (sv_world st)) \<and> sv_tokens st' = sv_tokens st"
proof -
  note rb = s3_read_backend [OF assms(1)]
  have "read_backend.clock_keeps (\<lambda>w. objects (snd w)) (sr_env srv)"
    using assms(3) unfolding read_backend.clock_keeps_def [OF rb] .
  from read_backend.public_surface_keeps [OF rb assms(2) this assms(4)]
  show ?thesis unfolding read_backend.quiet_step_def [OF rb] .
qed

theorem s3_web_readonly_witness:
  "mem_objects (snd (sv_world (snd (serve PublicHandler (sample_server (s3_backend mem_client) 9) (sample_request ''GET'' ''/docs/'' [])
     (sample_state (snd mem_pushed)))))) = mem_objects (snd (snd mem_pushed))"
proof -
  obtain resp st' where run: "serve PublicHandler (sample_server (s3_backend mem_client) 9) (sample_request ''GET'' ''/docs/'' [])
      (sample_state (snd mem_pushed)) = (resp, st')" by (rule that [OF surjective_pairing])
  show ?thesis using s3_web_readonly [OF mem_client_ok _ _ run] unfolding run by simp
qed

section \<open>Paths inside a site\<close>

text \<open>
  C36: Whatever a request puts after the name of the site, the path looked up in it is made of
  ordinary components: no empty one, no dot, no double dot and no slash inside one.
\<close>

theorem site_path_confined:
  "\<exists>cs. site_path rest = Join cs ''/'' \<and> list_all ordinary cs"
proof -
  define rest' where "rest' = (if rest = [] \<or> HasSuffix rest ''/'' then path_Join rest ''index.html'' else rest)"
  have abs: "IsAbs (slash # rest')" by (simp add: IsAbs_def)
  then have "Clean (slash # rest') = slash # Join (clean_comps True (slash # rest')) ''/''"
    by (simp add: Clean_def)
  then have "site_path rest = Join (clean_comps True (slash # rest')) ''/''"
    by (simp add: site_path_def rest'_def TrimPrefix_def Let_def)
  then show ?thesis using clean_comps_rooted [of "slash # rest'"] by (auto simp: list_all_iff)
qed

section \<open>Authentication\<close>

text \<open>What a request proves: the root token, a minted token, or nothing.\<close>

definition accepted :: "'w server \<Rightarrow> request \<Rightarrow> 'w sstate \<Rightarrow> bool" where
  "accepted srv r st \<longleftrightarrow>
     bearer r \<noteq> [] \<and> (bearer r = C_Token (sr_cfg srv) \<or> fst (verify srv (bearer r) st) \<noteq> None)"

lemma Verify_None:
  "tok_Verify marshal save b now ts w = (None, ts', w') \<Longrightarrow> ts' = ts \<and> w' = w"
  by (auto simp: tok_Verify_def Let_def split: option.splits prod.splits if_splits sum.splits)

text \<open>A token record without the time of its last use.\<close>

definition unused :: "token_rec \<Rightarrow> token_rec" where
  "unused r = r\<lparr>R_LastUsedAt := None\<rparr>"

lemma Verify_unused:
  assumes "tok_Verify marshal save b now ts w = (x, ts', w')"
  shows "map unused (ts_recs ts') = map unused (ts_recs ts)"
proof -
  have upd: "map unused ((ts_recs ts)[i := (ts_recs ts ! i)\<lparr>R_LastUsedAt := t\<rparr>]) = map unused (ts_recs ts)" for i t
  proof -
    have "unused ((ts_recs ts ! i)\<lparr>R_LastUsedAt := t\<rparr>) = unused (ts_recs ts ! i)" by (simp add: unused_def)
    then show ?thesis by (cases "i < length (ts_recs ts)") (simp_all add: map_update list_update_same_conv list_update_beyond)
  qed
  show ?thesis
    using assms by (auto simp: tok_Verify_def Let_def upd split: option.splits prod.splits if_splits sum.splits)
qed

lemma newRequestID_keeps:
  assumes "\<forall>w. content (snd (se_now (sr_env srv) w)) = content w" "newRequestID srv st = (rid, st')"
  shows "content (sv_world st') = content (sv_world st) \<and> sv_tokens st' = sv_tokens st"
proof -
  obtain now w1 where n: "se_now (sr_env srv) (sv_world st) = (now, w1)" by (cases "se_now (sr_env srv) (sv_world st)")
  have "content w1 = content (sv_world st)" using assms(1) n by (metis snd_conv)
  then show ?thesis
    using assms(2) n by (auto simp: newRequestID_def on_world_def split: option.splits)
qed

lemma verify_keeps:
  assumes "\<forall>w. content (snd (se_now (sr_env srv) w)) = content w" "verify srv got st = (None, st')"
  shows "content (sv_world st') = content (sv_world st) \<and> sv_tokens st' = sv_tokens st"
proof (cases "sv_tokens st")
  case None
  then show ?thesis using assms(2) by (simp add: verify_def)
next
  case (Some ts)
  let ?e = "sr_env srv"
  obtain now w1 where n: "se_now ?e (sv_world st) = (now, w1)" by (cases "se_now ?e (sv_world st)")
  obtain x ts1 w2 where v: "tok_Verify (se_marshal ?e) (se_save ?e) got now ts w1 = (x, ts1, w2)"
    by (metis prod.exhaust)
  have "x = None" "st' = st\<lparr>sv_tokens := Some ts1, sv_world := w2\<rparr>"
    using assms(2) Some n v by (simp_all add: verify_def Let_def)
  moreover have "content w1 = content (sv_world st)" using assms(1) n by (metis snd_conv)
  ultimately show ?thesis using Verify_None v Some by fastforce
qed

lemma rejected:
  assumes "\<not> accepted srv r st" "\<forall>w. content (snd (se_now (sr_env srv) w)) = content w"
    and "h = requireAuth srv nxt \<or> h = requireRoot srv nxt" "h r a st = (resp, a', st')"
  shows "rs_Status resp = 401 \<and> content (sv_world st') = content (sv_world st) \<and> sv_tokens st' = sv_tokens st \<and>
    rs_Body resp \<noteq> Aborted \<and> au_authKind a' = au_authKind a \<and> au_rejection a' \<in> set auth_rejections"
proof (cases "bearer r = []")
  case True
  then show ?thesis
    using assms(3,4) by (auto simp: requireAuth_def requireRoot_def writeError_def writeJSON_def auth_rejections_def)
next
  case False
  obtain x st1 where v: "verify srv (bearer r) st = (x, st1)" by (cases "verify srv (bearer r) st")
  have x: "x = None" and root: "\<not> isRoot srv (bearer r)"
    using assms(1) False v by (auto simp: accepted_def isRoot_def ConstantTimeCompare_def split: if_splits)
  have "(resp, a', st') = (writeError 401 (Msg ''invalid token''), a\<lparr>au_rejection := ''invalid_token''\<rparr>, st1)"
    using assms(3,4) False root v x by (auto simp: requireAuth_def requireRoot_def)
  then show ?thesis
    using verify_keeps [OF assms(2) v [unfolded x]] by (simp add: writeError_def writeJSON_def auth_rejections_def)
qed

lemma logBrokerRequest_run:
  assumes "logBrokerRequest srv rt nxt r st = (resp, st')"
  shows "\<exists>a a' st2. nxt r a (snd (newRequestID srv st)) = (resp, a', st2) \<and> sv_tokens st' = sv_tokens st2 \<and> sv_world st' = sv_world st2"
proof -
  obtain rid st1 where n: "newRequestID srv st = (rid, st1)" by (cases "newRequestID srv st")
  let ?a = "\<lparr>au_requestID = rid, au_authKind = ''anonymous'', au_tokenID = [], au_tokenName = [], au_rejection = []\<rparr>"
  obtain resp2 a2 st2 where run: "nxt r ?a st1 = (resp2, a2, st2)" by (metis prod.exhaust)
  have "resp = resp2" "sv_tokens st' = sv_tokens st2" "sv_world st' = sv_world st2"
    using assms n run by (auto simp: logBrokerRequest_def split: if_splits)
  then show ?thesis using n run by auto
qed

definition protected :: "route set" where
  "protected = {RListSites, RPutSite, RDeleteSite, RCreateToken, RListTokens, RRevokeToken}"

lemma dispatch_protected:
  assumes "rt \<in> protected" "dispatch srv rt val r st = (resp, st')"
  shows "\<exists>route nxt h. (h = requireAuth srv nxt \<or> h = requireRoot srv nxt) \<and> logBrokerRequest srv route h r st = (resp, st')"
proof (cases rt)
  case RListSites
  then show ?thesis using assms(2) unfolding dispatch_def by simp blast
next
  case RPutSite
  then show ?thesis using assms(2) unfolding dispatch_def by simp blast
next
  case RDeleteSite
  then show ?thesis using assms(2) unfolding dispatch_def by simp blast
next
  case RCreateToken
  then show ?thesis using assms(2) unfolding dispatch_def by simp blast
next
  case RListTokens
  then show ?thesis using assms(2) unfolding dispatch_def by simp blast
next
  case RRevokeToken
  then show ?thesis using assms(2) unfolding dispatch_def by simp blast
qed (use assms(1) in \<open>simp_all add: protected_def\<close>)

text \<open>
  C4: Every route of the control plane but the status is closed to requests that carry neither the
  root token nor a minted token that verifies: the answer is 401, and nothing stored and no
  token changes, whatever the backend.
\<close>

theorem broker_requires_auth:
  assumes "rt \<in> protected" "\<not> accepted srv r (snd (newRequestID srv st))"
    and "\<forall>w. content (snd (se_now (sr_env srv) w)) = content w"
    and "dispatch srv rt val r st = (resp, st')"
  shows "rs_Status resp = 401 \<and> content (sv_world st') = content (sv_world st) \<and> sv_tokens st' = sv_tokens st"
proof -
  obtain route nxt h where h: "h = requireAuth srv nxt \<or> h = requireRoot srv nxt" and run: "logBrokerRequest srv route h r st = (resp, st')"
    using dispatch_protected [OF assms(1,4)] by blast
  obtain rid st1 where n: "newRequestID srv st = (rid, st1)" by (cases "newRequestID srv st")
  obtain a a' st2 where hr: "h r a st1 = (resp, a', st2)" and same: "sv_tokens st' = sv_tokens st2" "sv_world st' = sv_world st2"
    using logBrokerRequest_run [OF run] n by auto
  have "\<not> accepted srv r st1" using assms(2) n by simp
  from rejected [OF this assms(3) h hr] show ?thesis using same newRequestID_keeps [OF assms(3) n] by simp
qed

theorem broker_requires_auth_witness:
  "rs_Status (fst (dispatch (sample_server (local_backend calm sample_store) 9) RDeleteSite ''a'' (sample_request ''DELETE'' ''/api/sites/a'' ''Bearer guess'')
     (sample_state sample_world))) = 401"
proof -
  let ?srv = "sample_server (local_backend calm sample_store) 9" and ?r = "sample_request ''DELETE'' ''/api/sites/a'' ''Bearer guess''"
  obtain resp st' where run: "dispatch ?srv RDeleteSite ''a'' ?r (sample_state sample_world) = (resp, st')"
    by (rule that [OF surjective_pairing])
  have "bearer ?r = ''guess''" "C_Token (sr_cfg ?srv) = ''root''"
    "fst (verify ?srv ''guess'' (snd (newRequestID ?srv (sample_state sample_world)))) = None" by code_simp+
  then have no: "\<not> accepted ?srv ?r (snd (newRequestID ?srv (sample_state sample_world)))" by (simp add: accepted_def)
  have "RDeleteSite \<in> protected" by (simp add: protected_def)
  from broker_requires_auth [OF this no _ run, of w_fs] show ?thesis unfolding run by simp
qed

text \<open>
  C21: Token management belongs to the root token alone.  Without it a request to create, list or
  revoke tokens is answered 401 or 403 and leaves the set of tokens as it is, even when it
  carries a valid minted token, of which at most the time of its last use changes.
\<close>

theorem token_management_root_only:
  assumes "rt \<in> {RCreateToken, RListTokens, RRevokeToken}" "bearer r \<noteq> C_Token (sr_cfg srv)"
    and "dispatch srv rt val r st = (resp, st')"
  shows "rs_Status resp \<in> {401, 403} \<and>
    map_option (\<lambda>ts. map unused (ts_recs ts)) (sv_tokens st') = map_option (\<lambda>ts. map unused (ts_recs ts)) (sv_tokens st)"
proof -
  obtain route nxt where run: "logBrokerRequest srv route (requireRoot srv nxt) r st = (resp, st')"
    using assms(1,3) by (auto simp: dispatch_def)
  obtain rid st1 where n: "newRequestID srv st = (rid, st1)" by (cases "newRequestID srv st")
  obtain a a' st2 where hr: "requireRoot srv nxt r a st1 = (resp, a', st2)" and same: "sv_tokens st' = sv_tokens st2"
    using logBrokerRequest_run [OF run] n by auto
  have st1: "sv_tokens st1 = sv_tokens st" using newRequestID_keeps [of "\<lambda>w. ()" srv st rid st1] n by simp
  obtain x st3 where v: "verify srv (bearer r) st1 = (x, st3)" by (cases "verify srv (bearer r) st1")
  have "map_option (\<lambda>ts. map unused (ts_recs ts)) (sv_tokens st3) = map_option (\<lambda>ts. map unused (ts_recs ts)) (sv_tokens st1)"
    using v Verify_unused by (fastforce simp: verify_def Let_def split: option.splits prod.splits)
  moreover have "rs_Status resp \<in> {401, 403} \<and> (sv_tokens st2 = sv_tokens st1 \<or> sv_tokens st2 = sv_tokens st3)"
    using hr v assms(2)
    by (cases x) (auto simp: requireRoot_def isRoot_def ConstantTimeCompare_def writeError_def writeJSON_def Let_def split: if_splits)
  ultimately show ?thesis using same st1 by auto
qed

theorem token_management_root_only_witness:
  "rs_Status (fst (dispatch (sample_server (local_backend calm sample_store) 9) RListTokens [] (sample_request ''GET'' ''/api/tokens'' ''Bearer guess'')
     (sample_state sample_world))) \<in> {401, 403}"
proof -
  let ?srv = "sample_server (local_backend calm sample_store) 9" and ?r = "sample_request ''GET'' ''/api/tokens'' ''Bearer guess''"
  obtain resp st' where run: "dispatch ?srv RListTokens [] ?r (sample_state sample_world) = (resp, st')"
    by (rule that [OF surjective_pairing])
  have "bearer ?r = ''guess''" "C_Token (sr_cfg ?srv) = ''root''" by code_simp+
  then show ?thesis using token_management_root_only [OF _ _ run] unfolding run by simp
qed

section \<open>Uploads\<close>

text \<open>The parts of the world that are not the storage do not change what is stored.\<close>

definition env_quiet :: "('w \<Rightarrow> 'c) \<Rightarrow> 'w senv \<Rightarrow> bool" where
  "env_quiet content e \<longleftrightarrow>
     (\<forall>w. content (snd (se_CreateTemp e w)) = content w) \<and> (\<forall>w. content (snd (se_CopyWrite e w)) = content w) \<and>
     (\<forall>w. content (snd (se_Seek e w)) = content w)"

lemma on_world_keeps:
  assumes "\<forall>w. content (snd (f w)) = content w" "on_world f st = (x, st')"
  shows "content (sv_world st') = content (sv_world st)"
proof -
  obtain y w1 where "f (sv_world st) = (y, w1)" by (cases "f (sv_world st)")
  then show ?thesis using assms(1) assms(2) by (auto simp: on_world_def) (metis snd_conv)
qed

lemma emit_world [simp]: "sv_world (emit ev st) = sv_world st"
  by (simp add: emit_def)

lemma refresh_count_keeps:
  assumes "\<forall>w. content (snd (be_List (sr_store srv) w)) = content w"
  shows "content (sv_world (refreshMetricSiteCount srv st)) = content (sv_world st)"
proof -
  obtain x st1 where x: "on_world (be_List (sr_store srv)) st = (x, st1)" by (cases "on_world (be_List (sr_store srv)) st")
  have "content (sv_world st1) = content (sv_world st)" by (rule on_world_keeps [OF assms x])
  then show ?thesis using x by (cases x) (simp_all add: refreshMetricSiteCount_def list_sites_def)
qed

definition put_status :: "store_err + site \<Rightarrow> nat" where
  "put_status res =
     (case res of
        Inr site \<Rightarrow> 200
      | Inl err \<Rightarrow> if is_ErrSiteTooLarge err then 413 else if is_ErrUnsafePath err then 400 else 500)"

lemma put_status_in: "put_status res \<in> {200, 400, 413, 500}"
  by (simp add: put_status_def split: sum.splits)

lemma put_reply_status:
  assumes "\<forall>w. content (snd (be_List (sr_store srv) w)) = content w" "put_reply srv name res a st = (resp, a', st')"
  shows "rs_Status resp = put_status res \<and> content (sv_world st') = content (sv_world st)"
  using assms(2) refresh_count_keeps [OF assms(1)]
  by (cases res) (auto simp: put_reply_def put_status_def writeError_def writeJSON_def split: if_splits)

lemma handlePutSite_cases:
  assumes "sr_mutable srv = Some be" "env_quiet content (sr_env srv)"
    and "\<forall>w. content (snd (be_List (sr_store srv) w)) = content w"
    and "handlePutSite srv name r a st = (resp, a', st')"
  shows "(rs_Status resp \<in> {400, 413, 500} \<and> content (sv_world st') = content (sv_world st)) \<or>
    (\<exists>dur w1 res w2. nameRE name \<and> parseExpiry (rq_Expires r) = Inr dur \<and>
       int (length (rq_Body r)) \<le> C_MaxUploadBytes (sr_cfg srv) \<and> \<not> rq_BodyFails r \<and>
       content w1 = content (sv_world st) \<and> be_Replace be name (se_tar (sr_env srv) (rq_Body r)) dur w1 = (res, w2) \<and>
       rs_Status resp = put_status res \<and> content (sv_world st') = content w2)"
proof (cases "ValidateName name")
  case (Some e)
  show ?thesis using assms(4) [unfolded handlePutSite_def Some option.case] by (auto simp: writeError_def writeJSON_def)
next
  case None
  have name: "nameRE name" using None by simp
  note run = assms(4) [unfolded handlePutSite_def None option.case]
  note quiet = assms(2) [unfolded env_quiet_def]
  show ?thesis
  proof (cases "parseExpiry (rq_Expires r)")
    case (Inl msg)
    then show ?thesis using run by (auto simp: writeError_def writeJSON_def)
  next
    case (Inr dur)
    obtain ok1 st1 where s1: "on_world (se_CreateTemp (sr_env srv)) st = (ok1, st1)" by (cases "on_world (se_CreateTemp (sr_env srv)) st")
    obtain ok2 st2 where s2: "on_world (se_CopyWrite (sr_env srv)) st1 = (ok2, st2)" by (cases "on_world (se_CopyWrite (sr_env srv)) st1")
    obtain ok3 st3 where s3: "on_world (se_Seek (sr_env srv)) st2 = (ok3, st3)" by (cases "on_world (se_Seek (sr_env srv)) st2")
    have q: "content (sv_world st1) = content (sv_world st)" "content (sv_world st2) = content (sv_world st)"
        "content (sv_world st3) = content (sv_world st)"
      using on_world_keeps [where content = content, OF _ s1] on_world_keeps [where content = content, OF _ s2]
        on_world_keeps [where content = content, OF _ s3] quiet by simp_all
    note run = run [unfolded Inr sum.case s1 prod.case copy_upload_def s2 s3 assms(1) option.case]
    show ?thesis
    proof (cases "ok1 \<and> ok2 \<and> ok3 \<and> int (length (rq_Body r)) \<le> C_MaxUploadBytes (sr_cfg srv) \<and> \<not> rq_BodyFails r")
      case False
      then show ?thesis using run q by (auto simp: writeError_def writeJSON_def split: if_splits)
    next
      case True
      obtain res w2 where rep: "be_Replace be name (se_tar (sr_env srv) (rq_Body r)) dur (sv_world st3) = (res, w2)"
        by (metis prod.exhaust)
      have "put_reply srv name res a (emit (MetricStorage ''replace'' (storageOutcome (isl res))) (st3\<lparr>sv_world := w2\<rparr>)) = (resp, a', st')"
        using run True rep by (simp add: on_world_def)
      from put_reply_status [OF assms(3) this] show ?thesis using True Inr name rep q(3) by auto
    qed
  qed
qed



section \<open>Expiry headers\<close>

text \<open>
  C39: The expiry header: an accepted duration is positive and fits 64 bits, so a deadline never lies
  in the past of the push; the empty header means one day and \<^verbatim>\<open>never\<close> means no deadline.
\<close>

theorem parseExpiry_positive:
  "(\<forall>d. parseExpiry v = Inr (Some d) \<longrightarrow> 0 < d \<and> d < 2 ^ 63) \<and>
   parseExpiry [] = Inr (Some (24 * Hour)) \<and> (parseExpiry v = Inr None \<longleftrightarrow> v = ''never'')"
proof -
  have "0 < d \<and> d < 2 ^ 63" if "parseExpiry v = Inr (Some d)" for d
    using that ParseDuration_range by (auto simp: parseExpiry_def Let_def split: if_splits option.splits)
  moreover have "parseExpiry [] = Inr (Some (24 * Hour))" by code_simp
  moreover have "parseExpiry v = Inr None \<longleftrightarrow> v = ''never''"
    by (auto simp: parseExpiry_def Let_def split: if_splits option.splits)
  ultimately show ?thesis by blast
qed

theorem parseExpiry_positive_witness:
  "parseExpiry ''90m'' = Inr (Some 5400000000000) \<and> (0 :: int) < 5400000000000"
proof -
  have "parseExpiry ''90m'' = Inr (Some 5400000000000)" by code_simp
  then show ?thesis using parseExpiry_positive [of "''90m''"] by simp
qed

end
