(* ===== verification/Public_Props.thy ===== *)
theory Public_Props
  imports Server_Props
begin

text \<open>
  What a visitor of the public side gets: files of live sites exactly as stored, and nothing of
  an expired one.
\<close>

section \<open>Expired sites\<close>

text \<open>How a public path splits.\<close>

definition url_parts :: "request \<Rightarrow> string list" where
  "url_parts r = SplitN2 (TrimPrefix (rq_Path r) ''/'') slash"

text \<open>
  C5: Expiry is enforced on every read.  When the deadline recorded on disk has passed, a request
  below the site's name is answered as if the site were not stored (a built-in or group page may
  own the name) or with 404, even while the files are still there; no cleanup is needed for
  that.
\<close>

theorem expired_never_served:
  assumes "sr_store srv = local_backend e s"
    and "recorded (w_fs (sv_world st)) (expiryPath s (hd (url_parts r))) (Some t)" "year_ok t"
    and "\<forall>w. t \<le> fst (se_now (sr_env srv) w)" and "rq_Path r \<noteq> ''/''"
    and "handlePublic srv r st = (resp, st')"
  shows "resp = NotFound \<or> (\<exists>st1. public_builtin srv r (hd (url_parts r)) (url_parts r) st1 = (resp, st'))"
proof -
  define name where "name = hd (url_parts r)"
  note run = assms(6) [unfolded handlePublic_def Let_def, folded url_parts_def, folded name_def]
  obtain x w1 where x: "Stat e s name (sv_world st) = (x, w1)" by (cases "Stat e s name (sv_world st)")
  then have x': "on_world (be_Stat (sr_store srv) name) st = (x, st\<lparr>sv_world := w1\<rparr>)"
    using assms(1) by (simp add: on_world_def local_backend_def)
  obtain now st2 where n: "on_world (se_now (sr_env srv)) (st\<lparr>sv_world := w1\<rparr>) = (now, st2)"
    by (cases "on_world (se_now (sr_env srv)) (st\<lparr>sv_world := w1\<rparr>)")
  have now: "t \<le> now" using n assms(4) by (auto simp: on_world_def split: prod.splits) (metis fst_conv)
  show ?thesis
  proof (cases "ValidateName name")
    case (Some err)
    show ?thesis using run [unfolded Some option.case] assms(5) by (auto split: if_splits)
  next
    case None
    note run = run [unfolded None option.case x' prod.case n]
    show ?thesis
    proof (cases x)
      case (Inl err)
      show ?thesis using run [unfolded Inl sum.case] assms(5) unfolding name_def [symmetric] by (auto split: if_splits)
    next
      case (Inr site)
      have "Site_ExpiresAt site = Some t"
        using Stat_recorded [OF x [unfolded Inr] assms(2) [folded name_def]] assms(3) by simp
      then have "expired site now" using now by (simp add: expired_def)
      then show ?thesis using run [unfolded Inr sum.case] assms(5) by (auto split: if_splits)
    qed
  qed
qed

theorem expired_never_served_witness:
  "let srv = sample_server (local_backend calm sample_store) 6000000000; r = sample_request ''GET'' ''/a/x'' [];
       out = handlePublic srv r (sample_state sample_world)
   in fst out = NotFound \<or> (\<exists>st1. public_builtin srv r (hd (url_parts r)) (url_parts r) st1 = (fst out, snd out))"
proof -
  let ?srv = "sample_server (local_backend calm sample_store) 6000000000" and ?r = "sample_request ''GET'' ''/a/x'' []"
  obtain resp st' where run: "handlePublic ?srv ?r (sample_state sample_world) = (resp, st')" by (rule that [OF surjective_pairing])
  have rec: "recorded (w_fs (sv_world (sample_state sample_world))) (expiryPath sample_store (hd (url_parts ?r))) (Some 5000000000)"
    by code_simp
  have year: "year_ok 5000000000" by code_simp
  have path: "rq_Path ?r \<noteq> ''/''" by (simp add: sample_request_def)
  show ?thesis
    using expired_never_served [OF sample_server_simps(1) rec year _ path run] unfolding run Let_def by simp
qed

section \<open>Files of a live site\<close>

lemma Stat_live:
  assumes "fault_free e" "nameRE name" "lookup (w_fs w) (st_root s @ [name]) = Some n"
    and "recorded (w_fs w) (expiryPath s name) y" "\<forall>t. y = Some t \<longrightarrow> year_ok t"
  shows "\<exists>x w'. Stat e s name w = (Inr x, w') \<and> Site_ExpiresAt x = y \<and> w_fs w' = w_fs w"
proof -
  have path: "Path s name = Inr (st_root s @ [name])" using assms(2) by (simp add: Path_ok)
  have site: "resolve (w_fs w) (st_root s @ [name]) = Inr n" using assms(3) by (simp add: resolve_lookup)
  obtain w1 where s1: "os_Stat e (st_root s @ [name]) w = (Inr n, w1)"
    using assms(1) site by (simp add: os_Stat_def sys_def fault_free_def)
  have w1: "w_fs w1 = w_fs w" using reads_fs(1) [OF s1] .
  obtain w2 where s2: "os_Walk e (st_root s @ [name]) w1 = (Inr (walk_files n), w2)"
    using assms(1) site w1 by (simp add: os_Walk_def sys_def fault_free_def)
  have w2: "w_fs w2 = w_fs w" using os_Walk_fs [OF s2] w1 by simp
  have "\<exists>w3. expiry e s name w2 = (Inr y, w3)"
  proof (cases y)
    case None
    then show ?thesis
      using assms(1,4) w2 by (simp add: recorded_def expiry_def os_ReadFile_def sys_def fault_free_def)
  next
    case (Some t)
    then obtain m where "resolve (w_fs w2) (expiryPath s name) = Inr (File (Format_RFC3339Nano t) m)"
      using assms(4) w2 by (auto simp: recorded_def file_at_def resolve_lookup split: option.splits node.splits)
    then show ?thesis
      using assms(1,5) Some Parse_TrimSpace_Format [of t]
      by (simp add: expiry_def os_ReadFile_def sys_def fault_free_def)
  qed
  then obtain w3 where s3: "expiry e s name w2 = (Inr y, w3)" by blast
  obtain x where "Stat e s name w = (Inr x, w3)" "Site_ExpiresAt x = y"
    by (simp add: Stat_def path s1 s2 s3 split_beta Let_def)
  then show ?thesis using Stat_fs [of e s name w] by blast
qed

lemma Open_live:
  assumes "fault_free e" "nameRE name" "lookup (w_fs w) (st_root s @ [name]) = Some n"
  shows "\<exists>w'. Open e s name w = (Inr (st_root s @ [name]), w') \<and> w_fs w' = w_fs w"
  using assms by (simp add: Open_def Path_ok [THEN iffD2] os_Stat_def sys_def fault_free_def resolve_lookup [THEN iffD2])

lemma local_fsys_file:
  assumes "fault_free e" "cs \<noteq> []" "\<forall>c \<in> set cs. ordinary c" "lookup (w_fs w) (dir @ cs) = Some (File b m)"
  shows "\<exists>w'. local_fsys e dir (Join cs ''/'') w = (Inr (FileEntry b), w')"
proof -
  have split: "Split (Join cs ''/'') slash = cs" using assms(2,3) by (intro Split_Join) (auto simp: ordinary_def)
  have valid: "ValidPath (Join cs ''/'')" using ordinary_ValidPath assms(2,3) by blast
  have "Join cs ''/'' \<noteq> ''.''"
  proof
    assume "Join cs ''/'' = ''.''"
    then have "cs = Split ''.'' slash" using split by simp
    then have "cs = [''.'']" by simp
    then show False using assms(3) by (simp add: ordinary_def)
  qed
  then show ?thesis
    using assms(1,4) valid split
    by (simp add: local_fsys_def os_Stat_def sys_def fault_free_def resolve_lookup [THEN iffD2])
qed

lemma site_path_plain:
  assumes "cs \<noteq> []" "\<forall>c \<in> set cs. ordinary c"
  shows "site_path (Join cs ''/'') = Join cs ''/''"
proof -
  have last: "last (Join cs ''/'') \<noteq> slash" "Join cs ''/'' \<noteq> []"
  proof -
    obtain us c where cs: "cs = us @ [c]" using assms(1) by (metis rev_exhaust)
    have c: "c \<noteq> []" "slash \<notin> set c" using assms(2) cs by (auto simp: ordinary_def)
    have "\<exists>pre. Join cs ''/'' = pre @ c" by (cases "us = []") (auto simp: cs Join_append)
    then show "last (Join cs ''/'') \<noteq> slash" "Join cs ''/'' \<noteq> []" using c last_in_set by fastforce+
  qed
  have "\<not> HasSuffix (Join cs ''/'') ''/''" using last by (auto simp: HasSuffix_iff)
  moreover have "stack_ok True (rev cs)" using assms(2) ordinary_stack_ok by simp
  then have "clean_comps True (slash # Join cs ''/'') = cs"
    using clean_comps_Join [of True cs] assms(1) by (simp add: clean_comps_slash)
  then have "Clean (slash # Join cs ''/'') = slash # Join cs ''/''" by (simp add: Clean_def IsAbs_def)
  ultimately show ?thesis using last(2) by (simp add: site_path_def TrimPrefix_def)
qed

text \<open>The URL of a file.\<close>

definition file_url :: "string \<Rightarrow> string list \<Rightarrow> string" where
  "file_url name cs = ''/'' @ name @ ''/'' @ Join cs ''/''"

lemma url_parts_file:
  assumes "rq_Path r = file_url name cs" "nameRE name"
  shows "url_parts r = [name, Join cs ''/'']"
proof -
  have "Cut (name @ slash # Join cs ''/'') slash = Some (name, Join cs ''/'')"
    using nameRE_ordinary [OF assms(2)] by (intro Cut_append) (simp add: ordinary_def)
  then show ?thesis
    using assms(1) by (simp add: url_parts_def file_url_def TrimPrefix_def SplitN2_def)
qed

lemma file_url_other:
  assumes "nameRE name" "name \<noteq> ''api''"
  shows "\<not> (HasPrefix (file_url name cs) ''/api/'' \<or> file_url name cs = ''/api'')" "file_url name cs \<noteq> ''/''"
proof -
  have name: "slash \<notin> set name" "name \<noteq> []" using nameRE_ordinary [OF assms(1)] by (auto simp: ordinary_def)
  show "\<not> (HasPrefix (file_url name cs) ''/api/'' \<or> file_url name cs = ''/api'')"
  proof
    assume "HasPrefix (file_url name cs) ''/api/'' \<or> file_url name cs = ''/api''"
    then have "\<exists>x. Cut (name @ slash # Join cs ''/'') slash = x \<and> (\<forall>b. x \<noteq> Some (name, b))"
    proof
      assume "HasPrefix (file_url name cs) ''/api/''"
      then obtain q where "name @ slash # Join cs ''/'' = ''api'' @ slash # q" by (auto simp: HasPrefix_iff file_url_def)
      moreover have "Cut (''api'' @ slash # q) slash = Some (''api'', q)" by (rule Cut_append) simp
      ultimately show ?thesis using assms(2) by auto
    next
      assume "file_url name cs = ''/api''"
      then have "name @ slash # Join cs ''/'' = ''api''" by (simp add: file_url_def)
      moreover have "Cut ''api'' slash = None" by simp
      ultimately show ?thesis by simp
    qed
    then show False using Cut_append [OF name(1)] by auto
  qed
  show "file_url name cs \<noteq> ''/''" using name by (simp add: file_url_def)
qed

lemma no_dotdot_url:
  assumes "nameRE name" "\<forall>c \<in> set cs. ordinary c \<and> CHR 0x5C \<notin> set c" "cs \<noteq> []"
  shows "\<not> containsDotDot (file_url name cs)"
proof -
  have no: "ReplaceAll x (CHR 0x5C) slash = x" if "CHR 0x5C \<notin> set x" for x
    using that by (induction x) (auto simp: ReplaceAll_def)
  have "file_url name cs = Join ([] # name # cs) ''/''" using assms(3) by (simp add: file_url_def Join_Cons)
  moreover have "CHR 0x5C \<notin> set (Join cs ''/'')"
    using assms(2) by (induction cs "''/''" rule: Join.induct) auto
  then have "CHR 0x5C \<notin> set (file_url name cs)" using nameRE_chars(2) [OF assms(1)] by (auto simp: file_url_def)
  moreover have "\<forall>w \<in> set ([] # name # cs). slash \<notin> set w"
    using assms(1,2) nameRE_ordinary [OF assms(1)] by (auto simp: ordinary_def)
  ultimately have "Split (ReplaceAll (file_url name cs) (CHR 0x5C) slash) slash = [] # name # cs"
    using no Split_Join [of "[] # name # cs" slash] by simp
  then show ?thesis using assms(2) nameRE_ordinary [OF assms(1)] by (auto simp: containsDotDot_def ordinary_def)
qed

lemma url_suffix:
  assumes "cs \<noteq> []" "slash \<notin> set (last cs)" "HasSuffix (file_url name cs) ''/index.html''"
  shows "last cs = ''index.html''"
proof -
  obtain us c where cs: "cs = us @ [c]" using assms(1) by (metis rev_exhaust)
  obtain pre where "file_url name cs = pre @ slash # c"
    by (cases "us = []") (auto simp: file_url_def cs Join_append)
  moreover obtain q where "file_url name cs = q @ slash # ''index.html''" using assms(3) by (auto simp: HasSuffix_iff)
  ultimately have "rev c @ slash # rev pre = rev ''index.html'' @ slash # rev q"
    by (metis append.assoc append_Cons append_Nil rev.simps(2) rev_append)
  then have "Cut (rev c @ slash # rev pre) slash = Cut (rev ''index.html'' @ slash # rev q) slash" by simp
  then have "rev c = rev ''index.html''"
    using assms(2) cs Cut_append [of slash "rev c" "rev pre"] Cut_append [of slash "rev ''index.html''" "rev q"] by simp
  then show ?thesis using cs by simp
qed

lemma handlePublic_file:
  assumes "sr_store srv = local_backend e s" "fault_free e"
    and "nameRE name" "name \<noteq> ''api''"
    and "lookup (w_fs (sv_world st)) (st_root s @ [name]) = Some n"
    and "recorded (w_fs (sv_world st)) (expiryPath s name) y"
    and "\<forall>t. y = Some t \<longrightarrow> year_ok t \<and> (\<forall>w. fst (se_now (sr_env srv) w) < t)"
    and "\<forall>w. w_fs (snd (se_now (sr_env srv) w)) = w_fs w"
    and "lookup (w_fs (sv_world st)) (st_root s @ name # cs) = Some (File b m)"
    and "cs \<noteq> []" "\<forall>c \<in> set cs. ordinary c \<and> CHR 0x5C \<notin> set c" "last cs \<noteq> ''index.html''"
    and "rq_Path r = file_url name cs"
  shows "fst (handlePublic srv r st) = okBody (FileBody b)"
proof -
  let ?w = "sv_world st" and ?dir = "st_root s @ [name]"
  obtain x w1 where x: "Stat e s name ?w = (Inr x, w1)" "Site_ExpiresAt x = y" "w_fs w1 = w_fs ?w"
    using Stat_live [OF assms(2,3,5,6)] assms(7) by blast
  obtain now w2 where n: "se_now (sr_env srv) w1 = (now, w2)" by (cases "se_now (sr_env srv) w1")
  have w2: "w_fs w2 = w_fs ?w" using n assms(8) x(3) by (metis snd_conv)
  have alive: "\<not> expired x now" using assms(7) x(2) n by (auto simp: expired_def split: option.splits) (metis fst_conv linorder_not_le)
  obtain w3 where op: "Open e s name w2 = (Inr ?dir, w3)" "w_fs w3 = w_fs ?w"
    using Open_live [OF assms(2,3), of w2 s n] assms(5) w2 by auto
  have plain: "site_path (Join cs ''/'') = Join cs ''/''" using site_path_plain assms(10,11) by blast
  have "lookup (w_fs w3) (?dir @ cs) = Some (File b m)" using assms(9) op(2) by simp
  then obtain w4 where fl: "local_fsys e ?dir (Join cs ''/'') w3 = (Inr (FileEntry b), w4)"
    using local_fsys_file [OF assms(2,10)] assms(11) by blast
  have "\<not> HasSuffix (rq_Path r) ''/index.html''"
    using url_suffix [OF assms(10), of name] assms(11,12,13) assms(10) by (auto simp: ordinary_def)
  then have serve: "serveSite r name (local_fsys e ?dir) [name, Join cs ''/''] (st\<lparr>sv_world := w3\<rparr>)
      = (okBody (FileBody b), st\<lparr>sv_world := w4\<rparr>)"
    using fl plain no_dotdot_url [OF assms(3,11,10)] assms(13)
    by (simp add: serveSite_def on_world_def ServeFileFS_def)
  have stored: "public_stored srv r name [name, Join cs ''/''] (st\<lparr>sv_world := w2\<rparr>) = (okBody (FileBody b), st\<lparr>sv_world := w4\<rparr>)"
    using op serve by (simp add: public_stored_def on_world_def assms(1) local_backend_def)
  note parts = url_parts_file [OF assms(13,3)]
  have vn: "ValidateName name = None" using assms(3) by simp
  show ?thesis
    unfolding handlePublic_def Let_def url_parts_def [symmetric] parts list.sel vn option.case
    using file_url_other [OF assms(3,4), of cs] assms(13) x n alive stored
    by (simp add: on_world_def assms(1) local_backend_def)
qed



end
