(* ===== verification/Telemetry.thy ===== *)
theory Telemetry
  imports Config
begin

text \<open>
  \<^verbatim>\<open>internal/telemetry/telemetry.go\<close>: the metrics of the broker.  The OpenTelemetry and Prometheus
  libraries are a record of parameters that says which of their constructors succeed; what an
  instrument of theirs is told is kept as the list of its measurements, each with its
  attributes.  The environment is a function from variable names to values, empty when unset.
\<close>

section \<open>Settings\<close>

definition EnvMetricsExporter :: string where "EnvMetricsExporter = ''OTEL_METRICS_EXPORTER''"
definition EnvMetricExportInterval :: string where "EnvMetricExportInterval = ''OTEL_METRIC_EXPORT_INTERVAL''"
definition EnvMetricExportTimeout :: string where "EnvMetricExportTimeout = ''OTEL_METRIC_EXPORT_TIMEOUT''"
definition metricsExporterNone :: string where "metricsExporterNone = ''none''"
definition metricsExporterPrometheus :: string where "metricsExporterPrometheus = ''prometheus''"
definition metricsExporterOTLP :: string where "metricsExporterOTLP = ''otlp''"

datatype telemetry_err =
    TelPrometheus
  | TelNotPositive string
  | TelTooLarge string
  | TelGRPC
  | TelHTTP
  | TelProtocol string
  | TelUnsupported string

record otel =
  ot_Prometheus :: bool
  ot_GRPC :: bool
  ot_HTTP :: bool
  ot_Instrument :: "string \<Rightarrow> string \<Rightarrow> bool"

text \<open>\<^verbatim>\<open>strings.ToLower\<close> on ASCII.\<close>

definition to_lower :: "char \<Rightarrow> char" where
  "to_lower c = (if CHR ''A'' \<le> c \<and> c \<le> CHR ''Z'' then char_of (of_char c + 32 :: nat) else c)"

definition ToLower :: "string \<Rightarrow> string" where
  "ToLower s = map to_lower s"

definition setting :: "(string \<Rightarrow> string) \<Rightarrow> string \<Rightarrow> string" where
  "setting getenv name = ToLower (TrimSpace (getenv name))"

text \<open>The product of the milliseconds and the constant \<^verbatim>\<open>time.Millisecond\<close> wraps around.\<close>

definition metricExportDuration :: "(string \<Rightarrow> string) \<Rightarrow> string \<Rightarrow> duration \<Rightarrow> telemetry_err + duration" where
  "metricExportDuration getenv name fallback =
     (let raw = TrimSpace (getenv name)
      in if raw = [] then Inr fallback
         else case ParseInt64 raw of
           None \<Rightarrow> Inl (TelNotPositive name)
         | Some milliseconds \<Rightarrow>
             if milliseconds \<le> 0 then Inl (TelNotPositive name)
             else let duration = wrap64 (milliseconds * 1000000)
                  in if duration \<le> 0 then Inl (TelTooLarge name) else Inr duration)"

record reader_config =
  rc_interval :: duration
  rc_timeout :: duration

definition periodicReaderConfigFromEnv :: "(string \<Rightarrow> string) \<Rightarrow> telemetry_err + reader_config" where
  "periodicReaderConfigFromEnv getenv =
     (case metricExportDuration getenv EnvMetricExportInterval (60 * 1000000000) of
        Inl err \<Rightarrow> Inl err
      | Inr interval \<Rightarrow>
          (case metricExportDuration getenv EnvMetricExportTimeout (30 * 1000000000) of
             Inl err \<Rightarrow> Inl err
           | Inr timeout \<Rightarrow> Inr \<lparr>rc_interval = interval, rc_timeout = timeout\<rparr>))"

definition newOTLPExporter :: "otel \<Rightarrow> (string \<Rightarrow> string) \<Rightarrow> telemetry_err + unit" where
  "newOTLPExporter ot getenv =
     (let protocol = setting getenv ''OTEL_EXPORTER_OTLP_METRICS_PROTOCOL'';
          protocol = (if protocol = [] then setting getenv ''OTEL_EXPORTER_OTLP_PROTOCOL'' else protocol)
      in if protocol = [] \<or> protocol = ''grpc'' then (if ot_GRPC ot then Inr () else Inl TelGRPC)
         else if protocol = ''http/protobuf'' then (if ot_HTTP ot then Inr () else Inl TelHTTP)
         else Inl (TelProtocol protocol))"

section \<open>The instruments\<close>

text \<open>\<^verbatim>\<open>Duration.Seconds\<close>: a double, as a fraction.\<close>

definition Seconds :: "duration \<Rightarrow> int \<times> int" where
  "Seconds d =
     (let a = \<bar>d\<bar>;
          (p, q) = fl (a mod 1000000000) 1000000000;
          (n, m) = fl (a div 1000000000 * q + p) q
      in (if d < 0 then - n else n, m))"

datatype attr = AttrString string string | AttrInt string int

type_synonym attrs = "attr list"

record metrics =
  m_httpRequests :: "(int \<times> attrs) list"
  m_httpDuration :: "((int \<times> int) \<times> attrs) list"
  m_uploadBytes :: "(int \<times> attrs) list"
  m_mutations :: "(int \<times> attrs) list"
  m_authRejections :: "(int \<times> attrs) list"
  m_storageOps :: "(int \<times> attrs) list"
  m_storageLatency :: "((int \<times> int) \<times> attrs) list"
  m_expiryDuration :: "((int \<times> int) \<times> attrs) list"
  m_expiryErrors :: "(int \<times> attrs) list"
  m_expiryDeleted :: "(int \<times> attrs) list"
  m_currentSites :: int

text \<open>The names and units of the instruments, in the order they are created.\<close>

definition instruments :: "(string \<times> string) list" where
  "instruments =
     [(''crate.broker.http.requests'', ''{request}''),
      (''crate.broker.http.request.duration'', ''s''),
      (''crate.broker.upload.bytes'', ''By''),
      (''crate.broker.mutations'', ''{mutation}''),
      (''crate.broker.auth.rejections'', ''{rejection}''),
      (''crate.broker.storage.operations'', ''{operation}''),
      (''crate.broker.storage.operation.duration'', ''s''),
      (''crate.broker.expiry.cleanup.duration'', ''s''),
      (''crate.broker.expiry.cleanup.errors'', ''{error}''),
      (''crate.broker.expiry.cleanup.deleted'', ''{site}''),
      (''crate.broker.sites'', ''{site}'')]"

definition zero_metrics :: metrics where
  "zero_metrics = \<lparr>m_httpRequests = [], m_httpDuration = [], m_uploadBytes = [], m_mutations = [], m_authRejections = [],
     m_storageOps = [], m_storageLatency = [], m_expiryDuration = [], m_expiryErrors = [], m_expiryDeleted = [],
     m_currentSites = 0\<rparr>"

text \<open>\<^const>\<open>None\<close> is the panic of \<^verbatim>\<open>must\<close>.\<close>

definition newMetrics :: "otel \<Rightarrow> metrics option" where
  "newMetrics ot = (if list_all (\<lambda>(name, unit). ot_Instrument ot name unit) instruments then Some zero_metrics else None)"

text \<open>The interface \<^verbatim>\<open>BrokerMetrics\<close>.\<close>

record 'm broker_metrics =
  bm_HTTP :: "string \<Rightarrow> string \<Rightarrow> int \<Rightarrow> duration \<Rightarrow> int \<Rightarrow> 'm \<Rightarrow> 'm"
  bm_Mutation :: "string \<Rightarrow> string \<Rightarrow> 'm \<Rightarrow> 'm"
  bm_AuthRejection :: "string \<Rightarrow> 'm \<Rightarrow> 'm"
  bm_Storage :: "string \<Rightarrow> string \<Rightarrow> duration \<Rightarrow> 'm \<Rightarrow> 'm"
  bm_Expiry :: "duration \<Rightarrow> int \<Rightarrow> bool \<Rightarrow> 'm \<Rightarrow> 'm"
  bm_SetSiteCount :: "int \<Rightarrow> 'm \<Rightarrow> 'm"

definition http_attrs :: "string \<Rightarrow> string \<Rightarrow> int \<Rightarrow> attrs" where
  "http_attrs meth route status =
     [AttrString ''http.request.method'' meth, AttrString ''http.route'' route, AttrInt ''http.response.status_code'' status]"

definition op_attrs :: "string \<Rightarrow> string \<Rightarrow> attrs" where
  "op_attrs operation outcome = [AttrString ''crate.operation'' operation, AttrString ''crate.outcome'' outcome]"

definition met_HTTP :: "string \<Rightarrow> string \<Rightarrow> int \<Rightarrow> duration \<Rightarrow> int \<Rightarrow> metrics \<Rightarrow> metrics" where
  "met_HTTP meth route status dur requestBytes m =
     (let attrs = http_attrs meth route status;
          m = m\<lparr>m_httpRequests := m_httpRequests m @ [(1, attrs)], m_httpDuration := m_httpDuration m @ [(Seconds dur, attrs)]\<rparr>
      in if requestBytes > 0 \<and> meth = ''PUT''
         then m\<lparr>m_uploadBytes := m_uploadBytes m @ [(requestBytes, [AttrString ''http.route'' route])]\<rparr>
         else m)"

definition met_Mutation :: "string \<Rightarrow> string \<Rightarrow> metrics \<Rightarrow> metrics" where
  "met_Mutation operation outcome m = m\<lparr>m_mutations := m_mutations m @ [(1, op_attrs operation outcome)]\<rparr>"

definition met_AuthRejection :: "string \<Rightarrow> metrics \<Rightarrow> metrics" where
  "met_AuthRejection reason m = m\<lparr>m_authRejections := m_authRejections m @ [(1, [AttrString ''crate.reason'' reason])]\<rparr>"

definition met_Storage :: "string \<Rightarrow> string \<Rightarrow> duration \<Rightarrow> metrics \<Rightarrow> metrics" where
  "met_Storage operation outcome dur m =
     m\<lparr>m_storageOps := m_storageOps m @ [(1, op_attrs operation outcome)],
       m_storageLatency := m_storageLatency m @ [(Seconds dur, op_attrs operation outcome)]\<rparr>"

definition met_Expiry :: "duration \<Rightarrow> int \<Rightarrow> bool \<Rightarrow> metrics \<Rightarrow> metrics" where
  "met_Expiry dur deleted failed m =
     (let m = m\<lparr>m_expiryDuration := m_expiryDuration m @ [(Seconds dur, [])]\<rparr>
      in if failed then m\<lparr>m_expiryErrors := m_expiryErrors m @ [(1, [])]\<rparr>
         else if deleted > 0 then m\<lparr>m_expiryDeleted := m_expiryDeleted m @ [(deleted, [])]\<rparr>
         else m)"

definition met_SetSiteCount :: "int \<Rightarrow> metrics \<Rightarrow> metrics" where
  "met_SetSiteCount count m = m\<lparr>m_currentSites := count\<rparr>"

definition sdk_metrics :: "metrics broker_metrics" where
  "sdk_metrics = \<lparr>bm_HTTP = met_HTTP, bm_Mutation = met_Mutation, bm_AuthRejection = met_AuthRejection,
     bm_Storage = met_Storage, bm_Expiry = met_Expiry, bm_SetSiteCount = met_SetSiteCount\<rparr>"

definition DisabledMetrics :: "'m broker_metrics" where
  "DisabledMetrics = \<lparr>bm_HTTP = (\<lambda>meth route status dur n m. m), bm_Mutation = (\<lambda>op out m. m), bm_AuthRejection = (\<lambda>r m. m),
     bm_Storage = (\<lambda>op out dur m. m), bm_Expiry = (\<lambda>dur n f m. m), bm_SetSiteCount = (\<lambda>n m. m)\<rparr>"

section \<open>The provider\<close>

record provider =
  pv_metrics :: "metrics broker_metrics"
  pv_state :: metrics
  pv_handler :: bool
    \<comment> \<open>whether there is a handler for the metrics listener\<close>
  pv_mode :: string
  pv_reader :: "reader_config option"

definition disabledProvider :: provider where
  "disabledProvider = \<lparr>pv_metrics = DisabledMetrics, pv_state = zero_metrics, pv_handler = False,
     pv_mode = metricsExporterNone, pv_reader = None\<rparr>"

text \<open>The end of \<^verbatim>\<open>Start\<close>: the meter provider and the instruments; \<^const>\<open>None\<close> is a panic.\<close>

definition live_provider :: "otel \<Rightarrow> string \<Rightarrow> bool \<Rightarrow> reader_config option \<Rightarrow> (telemetry_err + provider) option" where
  "live_provider ot mode handler reader =
     map_option (\<lambda>m. Inr \<lparr>pv_metrics = sdk_metrics, pv_state = m, pv_handler = handler, pv_mode = mode, pv_reader = reader\<rparr>)
       (newMetrics ot)"

definition tel_Start :: "otel \<Rightarrow> (string \<Rightarrow> string) \<Rightarrow> (telemetry_err + provider) option" where
  "tel_Start ot getenv =
     (let mode = setting getenv EnvMetricsExporter
      in if mode = [] \<or> mode = metricsExporterNone then Some (Inr disabledProvider)
         else if mode = metricsExporterPrometheus then
           (if ot_Prometheus ot then live_provider ot mode True None else Some (Inl TelPrometheus))
         else if mode = metricsExporterOTLP then
           (case periodicReaderConfigFromEnv getenv of
              Inl err \<Rightarrow> Some (Inl err)
            | Inr rc \<Rightarrow>
                (case newOTLPExporter ot getenv of
                   Inl err \<Rightarrow> Some (Inl err)
                 | Inr u \<Rightarrow> live_provider ot mode False (Some rc)))
         else Some (Inl (TelUnsupported mode)))"

text \<open>The view for the duration histograms, with its boundaries in milliseconds.\<close>

record view =
  vw_Name :: string
  vw_Unit :: string
  vw_Boundaries :: "int list"
  vw_NoMinMax :: bool

definition durationHistogramView :: view where
  "durationHistogramView = \<lparr>vw_Name = ''crate.broker.*.duration'', vw_Unit = ''s'',
     vw_Boundaries = [5, 10, 25, 50, 75, 100, 250, 500, 750, 1000, 2500, 5000, 7500, 10000], vw_NoMinMax = True\<rparr>"

section \<open>Properties\<close>

lemma wrap64_milliseconds:
  assumes "0 < ms" "ms < 2 ^ 63"
  shows "wrap64 (ms * 1000000) = ms * 1000000 \<longleftrightarrow> ms \<le> 9223372036854"
proof
  show "wrap64 (ms * 1000000) = ms * 1000000 \<Longrightarrow> ms \<le> 9223372036854" using wrap64_range [of "ms * 1000000"] by simp
  show "ms \<le> 9223372036854 \<Longrightarrow> wrap64 (ms * 1000000) = ms * 1000000" using assms by (intro wrap64_id) simp_all
qed

lemma ParseInt64_less: "ParseInt64 v = Some n \<Longrightarrow> n < 2 ^ 63"
proof -
  have "foldl (\<lambda>x c. x * 10 + dec_val c) a ds \<ge> 0" if "list_all is_dec ds" "a \<ge> 0" for a ds
    using that
  proof (induction ds arbitrary: a)
    case (Cons c ds)
    have "(48 :: nat) \<le> of_char c" using Cons.prems(1) by (simp add: is_dec_def less_eq_char_def)
    then have "0 \<le> dec_val c" unfolding dec_val_def by (metis diff_ge_0_iff_ge of_nat_le_iff of_nat_numeral of_nat_of_char)
    then show ?case using Cons by simp
  qed simp
  note nonneg = this [of _ 0]
  assume "ParseInt64 v = Some n"
  then obtain neg ds where
    "(if ds = [] \<or> \<not> list_all is_dec ds then None
      else if neg then (if foldl (\<lambda>x c. x * 10 + dec_val c) 0 ds > 2 ^ 63 then None else Some (- foldl (\<lambda>x c. x * 10 + dec_val c) 0 ds))
      else if foldl (\<lambda>x c. x * 10 + dec_val c) 0 ds \<ge> 2 ^ 63 then None else Some (foldl (\<lambda>x c. x * 10 + dec_val c) 0 ds)) = Some n"
    unfolding ParseInt64_def Let_def by (simp split: prod.splits)
  then show ?thesis using nonneg [of ds] by (auto split: if_splits)
qed



text \<open>What a provider that starts looks like.\<close>

lemma tel_Start_cases:
  assumes "tel_Start ot getenv = Some (Inr p)"
  shows "p = disabledProvider \<or>
    pv_metrics p = sdk_metrics \<and> pv_state p = zero_metrics \<and> ot_Prometheus ot \<and>
      pv_mode p = metricsExporterPrometheus \<and> pv_handler p \<and> pv_reader p = None \<or>
    pv_metrics p = sdk_metrics \<and> pv_state p = zero_metrics \<and>
      pv_mode p = metricsExporterOTLP \<and> \<not> pv_handler p \<and>
      (\<exists>rc. pv_reader p = Some rc \<and> 0 < rc_interval rc \<and> 0 < rc_timeout rc)"
proof -
  have rc: "0 < rc_interval c \<and> 0 < rc_timeout c" if ok: "periodicReaderConfigFromEnv getenv = Inr c" for c
  proof -
    obtain i t where d: "metricExportDuration getenv EnvMetricExportInterval (60 * 1000000000) = Inr i"
        "metricExportDuration getenv EnvMetricExportTimeout (30 * 1000000000) = Inr t"
        "c = \<lparr>rc_interval = i, rc_timeout = t\<rparr>"
      using ok unfolding periodicReaderConfigFromEnv_def
      by (cases "metricExportDuration getenv EnvMetricExportInterval (60 * 1000000000)";
          cases "metricExportDuration getenv EnvMetricExportTimeout (30 * 1000000000)") simp_all
    have "0 < d'" if "metricExportDuration getenv n fb = Inr d'" "0 < fb" for n d' and fb :: int
      using that by (auto simp: metricExportDuration_def Let_def split: option.splits if_splits)
    from this [OF d(1)] this [OF d(2)] show ?thesis using d(3) by simp
  qed
  show ?thesis
    using assms rc
    by (auto simp: tel_Start_def Let_def live_provider_def newMetrics_def split: if_splits sum.splits)
qed

end
