(* ===== verification/Broker_Metrics.thy ===== *)
theory Broker_Metrics
  imports Server_Props Telemetry
begin

text \<open>
  The server and its metrics together.  The events of a server state are what its handlers tell
  the interface \<^verbatim>\<open>BrokerMetrics\<close>; delivering them to an implementation gives the measurements.
  The comment on the interface demands that all labels are normalised values and never user
  input, site names or request IDs; the theorem here is that they are.
\<close>

section \<open>Delivery\<close>

text \<open>The measured durations and byte counts come from outside of the model.\<close>

fun deliver :: "'m broker_metrics \<Rightarrow> duration \<Rightarrow> int \<Rightarrow> event \<Rightarrow> 'm \<Rightarrow> 'm" where
  "deliver bm d n (MetricHTTP meth route status) m = bm_HTTP bm meth route (int status) d n m"
| "deliver bm d n (MetricMutation operation outcome) m = bm_Mutation bm operation outcome m"
| "deliver bm d n (MetricAuthRejection reason) m = bm_AuthRejection bm reason m"
| "deliver bm d n (MetricStorage operation outcome) m = bm_Storage bm operation outcome d m"
| "deliver bm d n (MetricExpiry deleted failed) m = bm_Expiry bm d (int deleted) failed m"
| "deliver bm d n (MetricSiteCount k) m = bm_SetSiteCount bm (int k) m"
| "deliver bm d n (LogBroker l a meth route status) m = m"
| "deliver bm d n (LogEvent l msg) m = m"

fun deliver_all :: "'m broker_metrics \<Rightarrow> (nat \<Rightarrow> duration \<times> int) \<Rightarrow> event list \<Rightarrow> 'm \<Rightarrow> 'm" where
  "deliver_all bm meas [] m = m"
| "deliver_all bm meas (ev # evs) m =
     deliver_all bm (\<lambda>k. meas (Suc k)) evs (deliver bm (fst (meas 0)) (snd (meas 0)) ev m)"

text \<open>The strings an event hands to the metrics.\<close>

fun event_labels :: "event \<Rightarrow> string set" where
  "event_labels (MetricHTTP meth route status) = {meth, route}"
| "event_labels (MetricMutation operation outcome) = {operation, outcome}"
| "event_labels (MetricAuthRejection reason) = {reason}"
| "event_labels (MetricStorage operation outcome) = {operation, outcome}"
| "event_labels _ = {}"

section \<open>The contract of an implementation\<close>

text \<open>An implementation records no other label than those it is told.\<close>

locale metrics_impl =
  fixes bm :: "'m broker_metrics" and labels :: "'m \<Rightarrow> string set"
  assumes HTTP_labels: "labels (bm_HTTP bm meth route status d n m) \<subseteq> labels m \<union> {meth, route}"
    and Mutation_labels: "labels (bm_Mutation bm operation outcome m) \<subseteq> labels m \<union> {operation, outcome}"
    and Auth_labels: "labels (bm_AuthRejection bm reason m) \<subseteq> labels m \<union> {reason}"
    and Storage_labels: "labels (bm_Storage bm operation outcome d m) \<subseteq> labels m \<union> {operation, outcome}"
    and Expiry_labels: "labels (bm_Expiry bm d k failed m) \<subseteq> labels m"
    and Count_labels: "labels (bm_SetSiteCount bm k m) \<subseteq> labels m"
begin

lemma deliver_labels: "labels (deliver bm d n ev m) \<subseteq> labels m \<union> event_labels ev"
  by (cases ev) (auto dest: subsetD [OF HTTP_labels] subsetD [OF Mutation_labels] subsetD [OF Auth_labels]
      subsetD [OF Storage_labels] subsetD [OF Expiry_labels] subsetD [OF Count_labels])

lemma deliver_all_labels: "labels (deliver_all bm meas evs m) \<subseteq> labels m \<union> \<Union> (event_labels ` set evs)"
proof (induction evs arbitrary: meas m)
  case (Cons ev evs)
  show ?case
    using Cons.IH [of "\<lambda>k. meas (Suc k)" "deliver bm (fst (meas 0)) (snd (meas 0)) ev m"]
      deliver_labels [of "fst (meas 0)" "snd (meas 0)" ev m] by auto
qed simp

end

definition attr_strings :: "attrs \<Rightarrow> string set" where
  "attr_strings as = \<Union> (set (map (\<lambda>a. case a of AttrString k v \<Rightarrow> {v} | AttrInt k v \<Rightarrow> {}) as))"

definition measured :: "metrics \<Rightarrow> attrs set" where
  "measured m =
     set (map snd (m_httpRequests m) @ map snd (m_httpDuration m) @ map snd (m_uploadBytes m) @ map snd (m_mutations m) @
       map snd (m_authRejections m) @ map snd (m_storageOps m) @ map snd (m_storageLatency m) @ map snd (m_expiryDuration m) @
       map snd (m_expiryErrors m) @ map snd (m_expiryDeleted m))"

definition used_labels :: "metrics \<Rightarrow> string set" where
  "used_labels m = \<Union> (attr_strings ` measured m)"

lemma used_labels_grow:
  assumes "measured m' \<subseteq> measured m \<union> as" "\<Union> (attr_strings ` as) \<subseteq> L"
  shows "used_labels m' \<subseteq> used_labels m \<union> L"
  using assms by (fastforce simp: used_labels_def)

lemma attr_strings_simps [simp]:
  "attr_strings [] = {}" "attr_strings (AttrString k v # as) = insert v (attr_strings as)"
  "attr_strings (AttrInt k i # as) = attr_strings as"
  by (simp_all add: attr_strings_def)

lemma measured_step:
  "measured (met_HTTP meth route status d n m) \<subseteq> measured m \<union> {http_attrs meth route status, [AttrString ''http.route'' route]}"
  "measured (met_Mutation op out m) \<subseteq> measured m \<union> {op_attrs op out}"
  "measured (met_AuthRejection reason m) \<subseteq> measured m \<union> {[AttrString ''crate.reason'' reason]}"
  "measured (met_Storage op out d m) \<subseteq> measured m \<union> {op_attrs op out}"
  "measured (met_Expiry d k failed m) \<subseteq> measured m \<union> {[]}"
  "measured (met_SetSiteCount k m) \<subseteq> measured m"
proof -
  show "measured (met_HTTP meth route status d n m) \<subseteq> measured m \<union> {http_attrs meth route status, [AttrString ''http.route'' route]}"
    by (simp add: met_HTTP_def measured_def Let_def) blast
  show "measured (met_Expiry d k failed m) \<subseteq> measured m \<union> {[]}" by (simp add: met_Expiry_def measured_def Let_def) blast
qed (auto simp: measured_def met_Mutation_def met_AuthRejection_def met_Storage_def met_SetSiteCount_def)

interpretation sdk: metrics_impl sdk_metrics used_labels
proof
  fix meth route status d n m
  show "used_labels (bm_HTTP sdk_metrics meth route status d n m) \<subseteq> used_labels m \<union> {meth, route}"
    by (simp only: sdk_metrics_def broker_metrics.simps, rule used_labels_grow [OF measured_step(1)]) (simp add: http_attrs_def)
next
  fix op out m
  show "used_labels (bm_Mutation sdk_metrics op out m) \<subseteq> used_labels m \<union> {op, out}"
    by (simp only: sdk_metrics_def broker_metrics.simps, rule used_labels_grow [OF measured_step(2)]) (simp add: op_attrs_def)
next
  fix reason m
  show "used_labels (bm_AuthRejection sdk_metrics reason m) \<subseteq> used_labels m \<union> {reason}"
    by (simp only: sdk_metrics_def broker_metrics.simps, rule used_labels_grow [OF measured_step(3)]) simp
next
  fix op out d m
  show "used_labels (bm_Storage sdk_metrics op out d m) \<subseteq> used_labels m \<union> {op, out}"
    by (simp only: sdk_metrics_def broker_metrics.simps, rule used_labels_grow [OF measured_step(4)]) (simp add: op_attrs_def)
next
  fix d k failed m
  show "used_labels (bm_Expiry sdk_metrics d k failed m) \<subseteq> used_labels m"
    using used_labels_grow [OF measured_step(5), of "{}"] by (simp add: sdk_metrics_def)
next
  fix k m
  show "used_labels (bm_SetSiteCount sdk_metrics k m) \<subseteq> used_labels m"
    using used_labels_grow [of _ _ "{}" "{}"] measured_step(6) by (simp add: sdk_metrics_def)
qed

interpretation disabled: metrics_impl DisabledMetrics used_labels
  by unfold_locales (auto simp: DisabledMetrics_def)

section \<open>The labels of the server\<close>

definition label_values :: "string set" where
  "label_values =
     {''GET'', ''HEAD'', ''PUT'', ''POST'', ''DELETE'',
      ''/api/status'', ''/api/sites'', ''/api/sites/{name}'', ''/api/tokens'', ''/api/tokens/{id}'',
      ''list'', ''replace'', ''delete'', ''delete_expired'', ''push'',
      ''success'', ''rejected'', ''error'',
      ''missing_bearer'', ''invalid_token'', ''root_required''}"

text \<open>A step of the server that only adds events with those labels.\<close>

definition adds :: "'w sstate \<Rightarrow> 'w sstate \<Rightarrow> bool" where
  "adds st st' \<longleftrightarrow> (\<exists>evs. sv_events st' = sv_events st @ evs \<and> (\<forall>ev \<in> set evs. event_labels ev \<subseteq> label_values))"

lemma adds_trans: "adds st st1 \<Longrightarrow> adds st1 st2 \<Longrightarrow> adds st st2"
  unfolding adds_def by (metis Un_iff append.assoc set_append)

lemma adds_same [simp]: "sv_events st' = sv_events st \<Longrightarrow> adds st st'"
  by (simp add: adds_def)

lemma adds_append: "adds st st' \<Longrightarrow> \<forall>ev \<in> set evs. event_labels ev \<subseteq> label_values \<Longrightarrow> adds st (st'\<lparr>sv_events := sv_events st' @ evs\<rparr>)"
  by (fastforce simp: adds_def)

lemma adds_emit: "event_labels ev \<subseteq> label_values \<Longrightarrow> adds st st' \<Longrightarrow> adds st (emit ev st')"
  using adds_append [of st st' "[ev]"] by (simp add: emit_def)

lemma adds_log [simp]: "adds st st' \<Longrightarrow> adds st (emit (LogEvent l msg) st')"
  by (simp add: adds_emit)

lemma adds_count [simp]: "adds st st' \<Longrightarrow> adds st (emit (MetricSiteCount k) st')"
  by (simp add: adds_emit)

lemma storage_labels:
  "op \<in> {''list'', ''replace'', ''delete'', ''delete_expired''} \<Longrightarrow> event_labels (MetricStorage op (storageOutcome b)) \<subseteq> label_values"
  by (auto simp: storageOutcome_def label_values_def)

lemma on_world_events: "on_world f st = (x, st') \<Longrightarrow> sv_events st' = sv_events st"
  by (auto simp: on_world_def split: prod.splits)

lemma verify_events: "verify srv got st = (x, st') \<Longrightarrow> sv_events st' = sv_events st"
  by (auto simp: verify_def Let_def split: option.splits prod.splits)

lemma newRequestID_events: "newRequestID srv st = (x, st') \<Longrightarrow> sv_events st' = sv_events st"
  by (auto simp: newRequestID_def split: option.splits prod.splits dest: on_world_events)

lemma list_sites_adds: "list_sites srv st = (x, st') \<Longrightarrow> adds st st'"
  by (auto simp: list_sites_def split: prod.splits dest!: on_world_events intro!: adds_emit storage_labels)

lemma refresh_adds: "adds st (refreshMetricSiteCount srv st)"
  by (auto simp: refreshMetricSiteCount_def split: prod.splits sum.splits dest: list_sites_adds)

section \<open>The handlers\<close>

definition labelled :: "'w handler \<Rightarrow> bool" where
  "labelled h \<longleftrightarrow> (\<forall>r a st resp a' st'. h r a st = (resp, a', st') \<longrightarrow> adds st st')"

lemma labelledD: "labelled h \<Longrightarrow> h r a st = (resp, a', st') \<Longrightarrow> adds st st'"
  unfolding labelled_def by blast

lemma guards_labelled:
  assumes "labelled nxt"
  shows "labelled (requireAuth srv nxt)" "labelled (requireRoot srv nxt)"
proof -
  have "adds st st'" if "verify srv got st = (x, st1)" "adds st1 st'" for got st x and st1 st' :: "'a sstate"
    using adds_trans [OF adds_same that(2)] verify_events [OF that(1)] by simp
  then show "labelled (requireAuth srv nxt)" "labelled (requireRoot srv nxt)"
    using labelledD [OF assms] verify_events [of srv]
    by (auto simp: labelled_def requireAuth_def requireRoot_def Let_def split: if_splits prod.splits option.splits)
qed

lemma status_labelled: "labelled (handleStatus srv)"
  by (auto simp: labelled_def handleStatus_def split: prod.splits sum.splits dest: list_sites_adds)

lemma list_labelled: "labelled (handleListSites srv)"
  by (auto simp: labelled_def handleListSites_def split: prod.splits sum.splits dest: list_sites_adds)

lemma put_reply_adds:
  assumes "put_reply srv name res a st = (resp, a', st')"
  shows "adds st st'"
  using assms adds_trans [OF _ refresh_adds, of st]
  by (auto simp: put_reply_def split: sum.splits if_splits)

lemma put_labelled: "labelled (handlePutSite srv name)"
  unfolding labelled_def
proof (intro allI impI)
  fix r a st resp a' st'
  assume run: "handlePutSite srv name r a st = (resp, a', st')"
  obtain ok1 st1 where s1: "on_world (se_CreateTemp (sr_env srv)) st = (ok1, st1)" by (rule that [OF surjective_pairing])
  obtain ok2 st2 where s2: "on_world (se_CopyWrite (sr_env srv)) st1 = (ok2, st2)" by (rule that [OF surjective_pairing])
  obtain ok3 st3 where s3: "on_world (se_Seek (sr_env srv)) st2 = (ok3, st3)" by (rule that [OF surjective_pairing])
  have same: "sv_events st1 = sv_events st" "sv_events st2 = sv_events st" "sv_events st3 = sv_events st"
    using on_world_events [OF s1] on_world_events [OF s2] on_world_events [OF s3] by simp_all
  have last: "adds st st'"
    if rep: "on_world (be_Replace be name ts dur) st3 = (res, st4)"
      and reply: "put_reply srv name res a (emit (MetricStorage ''replace'' (storageOutcome (isl res))) st4) = (resp, a', st')"
    for be ts dur res st4
    using on_world_events [OF rep] same(3)
    by (intro adds_trans [OF adds_emit put_reply_adds [OF reply]] storage_labels) simp_all
  note run = run [unfolded handlePutSite_def copy_upload_def s1 prod.case s2 s3]
  show "adds st st'"
    using run same
    by (auto split: option.splits sum.splits if_splits copy_result.splits prod.splits dest: last)
qed

lemma delete_labelled: "labelled (handleDeleteSite srv name)"
  unfolding labelled_def
proof (intro allI impI)
  fix r a st resp a' st'
  assume run: "handleDeleteSite srv name r a st = (resp, a', st')"
  have del: "adds st (emit (MetricStorage ''delete'' (storageOutcome (isl res))) st1)"
    if "on_world (be_Delete be name) st = (res, st1)" for be res st1
    using on_world_events [OF that] by (intro adds_emit storage_labels) simp_all
  show "adds st st'"
    using run
    by (auto simp: handleDeleteSite_def Let_def split: option.splits sum.splits if_splits prod.splits dest: del
        intro!: adds_trans [OF _ refresh_adds])
qed

lemma sweep_adds:
  assumes "srv_DeleteExpired srv now st = (x, st')"
  shows "adds st st'"
proof (cases "sr_mutable srv")
  case (Some be)
  obtain deleted err st1 where s: "on_world (be_DeleteExpired be now) st = ((deleted, err), st1)" by (metis prod.exhaust)
  have "adds st (emit (MetricExpiry (length deleted) (err \<noteq> None)) (emit (MetricStorage ''delete_expired'' (storageOutcome (err \<noteq> None))) st1))"
    using on_world_events [OF s] by (intro adds_emit storage_labels) simp_all
  then show ?thesis
    using assms Some s adds_trans [OF _ refresh_adds] by (auto simp: srv_DeleteExpired_def Let_def split: if_splits)
qed (use assms in \<open>simp add: srv_DeleteExpired_def\<close>)

lemma no_tokens_adds: "no_tokens a st = (resp, a', st') \<Longrightarrow> adds st st'"
  by (auto simp: no_tokens_def)

lemma create_labelled: "labelled (handleCreateToken srv)"
  unfolding labelled_def
proof (intro allI impI)
  fix r a st resp a' st'
  assume run: "handleCreateToken srv r a st = (resp, a', st')"
  define dec where "dec = (if int (length (rq_Body r)) \<le> 2 ^ 20 then se_decode (sr_env srv) (rq_Body r) (rq_BodyFails r)
      else se_decode (sr_env srv) (take (2 ^ 20) (rq_Body r)) False)"
  note run = run [unfolded handleCreateToken_def Let_def, folded dec_def]
  show "adds st st'"
  proof (cases "sv_tokens st")
    case None
    then show ?thesis using run no_tokens_adds by simp
  next
    case (Some ts)
    note run = run [unfolded Some option.case]
    show ?thesis
    proof (cases dec)
      case None
      then show ?thesis using run by simp
    next
      case (Some req)
      obtain now w1 where now: "se_now (sr_env srv) (sv_world st) = (now, w1)" by (rule that [OF surjective_pairing])
      note run = run [unfolded Some option.case now prod.case]
      show ?thesis
      proof (cases "parseTokenExpiry (Req_Expires req)")
        case (Inl msg)
        then show ?thesis using run by simp
      next
        case (Inr ttl)
        obtain res ts1 w2 where mk: "tok_Create (se_marshal (sr_env srv)) (se_save (sr_env srv)) (se_rand (sr_env srv) w1) (Req_Name req) ttl now ts w1
            = (res, ts1, w2)" by (metis prod.exhaust)
        note run = run [unfolded Inr sum.case mk prod.case]
        show ?thesis
        proof (cases res)
          case (Inl err)
          then show ?thesis using run by (auto split: if_splits)
        next
          case (Inr b)
          then show ?thesis using run by (auto split: prod.splits)
        qed
      qed
    qed
  qed
qed

lemma tokens_labelled: "labelled (handleListTokens srv)" "labelled (handleRevokeToken srv v)"
  unfolding labelled_def handleListTokens_def handleRevokeToken_def
  by (auto simp: Let_def split: option.splits sum.splits if_splits prod.splits dest: no_tokens_adds)

lemma fixed_labels:
  "mutationOutcome status \<in> label_values" "''push'' \<in> label_values" "''delete'' \<in> label_values"
  "set auth_rejections \<subseteq> label_values"
  by (simp_all add: mutationOutcome_def auth_rejections_def label_values_def)

lemma broker_event_labels:
  assumes "meth \<in> label_values" "route \<in> label_values" "ev \<in> set (broker_events meth route status a)"
  shows "event_labels ev \<subseteq> label_values"
proof -
  have "ev = MetricHTTP meth route status \<or> (\<exists>x \<in> set auth_rejections. ev = MetricAuthRejection x) \<or>
      (\<exists>op \<in> {''push'', ''delete''}. ev = MetricMutation op (mutationOutcome status)) \<or> event_labels ev = {}"
    using assms(3) by (auto simp: broker_events_def split: if_splits)
  then show ?thesis using assms(1,2) fixed_labels by auto
qed

lemma logged_adds:
  assumes "labelled h" "route \<in> label_values" "rq_Method r \<in> label_values" "logBrokerRequest srv route h r st = (resp, st')"
  shows "adds st st'"
proof -
  obtain rid st1 where n: "newRequestID srv st = (rid, st1)" by (rule that [OF surjective_pairing])
  let ?a = "\<lparr>au_requestID = rid, au_authKind = ''anonymous'', au_tokenID = [], au_tokenName = [], au_rejection = []\<rparr>"
  obtain resp2 a2 st2 where run: "h r ?a st1 = (resp2, a2, st2)" by (metis prod.exhaust)
  have step: "adds st st2" using adds_trans [OF adds_same labelledD [OF assms(1) run]] newRequestID_events [OF n] by simp
  have "\<forall>ev \<in> set (broker_events (rq_Method r) route (rs_Status resp2) a2). event_labels ev \<subseteq> label_values"
    using broker_event_labels [OF assms(3,2)] by blast
  from adds_append [OF step this] show ?thesis
    using assms(4) n run step by (auto simp: logBrokerRequest_def split: if_splits)
qed

section \<open>The public side\<close>

lemma serveSite_events: "serveSite r name f parts st = (resp, st') \<Longrightarrow> sv_events st' = sv_events st"
  by (auto simp: serveSite_def split: list.splits dest: on_world_events)

lemma executeIndex_adds: "executeIndex srv view st = (resp, st') \<Longrightarrow> adds st st'"
  by (auto simp: executeIndex_def split: option.splits)

lemma index_adds:
  "renderIndex srv st = (resp, st') \<Longrightarrow> adds st st'"
  "renderGroupIndex srv prefix st = (resp, st') \<Longrightarrow> adds st st'"
proof -
  have "adds st st'" if "sv_events st1 = sv_events st" "executeIndex srv view st1 = (resp, st')" for st1 view
    using adds_trans [OF adds_same [OF that(1)] executeIndex_adds [OF that(2)]] .
  note fin = this
  obtain x st1 where x: "on_world (be_List (sr_store srv)) st = (x, st1)" by (rule that [OF surjective_pairing])
  obtain n1 st2 where n1: "on_world (se_now (sr_env srv)) st1 = (n1, st2)" by (rule that [OF surjective_pairing])
  obtain n2 st3 where n2: "on_world (se_now (sr_env srv)) st2 = (n2, st3)" by (rule that [OF surjective_pairing])
  have same: "adds st st1" "adds st st3" "sv_events st3 = sv_events st"
    using on_world_events [OF x] on_world_events [OF n1] on_world_events [OF n2] by simp_all
  show "renderIndex srv st = (resp, st') \<Longrightarrow> adds st st'"
    unfolding renderIndex_def x prod.case n1 n2 Let_def
    by (cases x) (use same fin in \<open>auto split: option.splits\<close>)
  show "renderGroupIndex srv prefix st = (resp, st') \<Longrightarrow> adds st st'"
    unfolding renderGroupIndex_def x prod.case n1 n2 Let_def
    by (cases x) (use same fin in \<open>auto split: option.splits if_splits\<close>)
qed

lemma public_adds:
  assumes "handlePublic srv r st = (resp, st')"
  shows "adds st st'"
proof -
  have builtin: "adds st st'" if "public_builtin srv r name parts st1 = (resp, st')" "sv_events st1 = sv_events st" for name parts st1
  proof -
    have "adds st1 st'"
      using that(1) adds_trans [OF adds_same index_adds(2)]
      by (auto simp: public_builtin_def hasGroupChildren_def split: option.splits sum.splits prod.splits if_splits
          dest!: on_world_events serveSite_events)
    then show ?thesis using adds_trans [OF adds_same [OF that(2)]] by blast
  qed
  have stored: "adds st st'" if "public_stored srv r name parts st1 = (resp, st')" "sv_events st1 = sv_events st" for name parts st1
    using that by (auto simp: public_stored_def split: sum.splits prod.splits if_splits dest!: on_world_events serveSite_events)
  define name where "name = hd (SplitN2 (TrimPrefix (rq_Path r) ''/'') slash)"
  obtain x st1 where x: "on_world (be_Stat (sr_store srv) name) st = (x, st1)" by (rule that [OF surjective_pairing])
  obtain n2 st2 where n2: "on_world (se_now (sr_env srv)) st1 = (n2, st2)" by (rule that [OF surjective_pairing])
  have same: "sv_events st1 = sv_events st" "sv_events st2 = sv_events st" "adds st st" "adds st st2"
    using on_world_events [OF x] on_world_events [OF n2] by simp_all
  note run = assms [unfolded handlePublic_def Let_def, folded name_def, unfolded x prod.case n2]
  show ?thesis
  proof (cases "ValidateName name")
    case (Some e)
    show ?thesis using run [unfolded Some option.case] index_adds(1) same by (auto split: if_splits)
  next
    case None
    note run = run [unfolded None option.case]
    show ?thesis
    proof (cases x)
      case (Inl err)
      show ?thesis using run [unfolded Inl sum.case] builtin index_adds(1) same by (auto split: if_splits)
    next
      case (Inr s)
      show ?thesis using run [unfolded Inr sum.case] stored index_adds(1) same by (auto split: if_splits)
    qed
  qed
qed

section \<open>The whole server\<close>

text \<open>The routes of the control plane are registered under fixed methods.\<close>

lemma first_match_method: "first_match ps m ss = Some (rt, vals) \<Longrightarrow> \<exists>segs. (m, segs, rt) \<in> set ps"
  by (induction ps m ss rule: first_match.induct) (auto split: if_splits option.splits)

lemma broker_method:
  assumes "ps \<in> {Handler, BrokerHandler}" "mux_match ps m ss = Some (rt, vals)" "rt \<noteq> RPublic"
  shows "m \<in> {''GET'', ''HEAD'', ''PUT'', ''POST'', ''DELETE''}"
proof -
  have ps: "set ps \<subseteq> set Handler" using assms(1) by (auto simp: Handler_def BrokerHandler_def)
  have none: "first_match ps [] ss \<noteq> Some (rt, vals)"
    using first_match_method [of ps "[]" ss rt vals] ps
    by (auto simp: Handler_def healthRoute_def brokerRoutes_def publicRoutes_def)
  then consider "first_match ps m ss = Some (rt, vals)" | "m = ''HEAD''"
    using assms(2) by (auto simp: mux_match_def split: option.splits if_splits)
  then show ?thesis
  proof cases
    case 1
    then obtain segs where "(m, segs, rt) \<in> set Handler" using first_match_method ps by blast
    then show ?thesis by (auto simp: Handler_def healthRoute_def brokerRoutes_def publicRoutes_def)
  qed simp
qed

lemma dispatch_adds:
  assumes "rq_Method r \<in> label_values \<or> rt = RPublic" "dispatch srv rt val r st = (resp, st')"
  shows "adds st st'"
proof (cases "rt \<in> {RHealth, RPublic, RNotFound}")
  case True
  then show ?thesis using assms(2) public_adds by (auto simp: dispatch_def)
next
  case False
  have routes: "''/api/status'' \<in> label_values" "''/api/sites'' \<in> label_values" "''/api/sites/{name}'' \<in> label_values"
      "''/api/tokens'' \<in> label_values" "''/api/tokens/{id}'' \<in> label_values"
    by (simp_all add: label_values_def)
  have logged: "\<exists>route h. labelled h \<and> route \<in> label_values \<and> logBrokerRequest srv route h r st = (resp, st')"
    if "labelled h" "route \<in> label_values" "logBrokerRequest srv route h r st = (resp, st')" for route h
    using that by blast
  note run = assms(2) [unfolded dispatch_def]
  have "\<exists>route h. labelled h \<and> route \<in> label_values \<and> logBrokerRequest srv route h r st = (resp, st')"
  proof (cases rt)
    case RStatus
    show ?thesis by (rule logged [OF status_labelled routes(1) run [unfolded RStatus route.case]])
  next
    case RListSites
    show ?thesis by (rule logged [OF guards_labelled(1) [OF list_labelled] routes(2) run [unfolded RListSites route.case]])
  next
    case RPutSite
    show ?thesis by (rule logged [OF guards_labelled(1) [OF put_labelled] routes(3) run [unfolded RPutSite route.case]])
  next
    case RDeleteSite
    show ?thesis by (rule logged [OF guards_labelled(1) [OF delete_labelled] routes(3) run [unfolded RDeleteSite route.case]])
  next
    case RCreateToken
    show ?thesis by (rule logged [OF guards_labelled(2) [OF create_labelled] routes(4) run [unfolded RCreateToken route.case]])
  next
    case RListTokens
    show ?thesis by (rule logged [OF guards_labelled(2) [OF tokens_labelled(1)] routes(4) run [unfolded RListTokens route.case]])
  next
    case RRevokeToken
    show ?thesis by (rule logged [OF guards_labelled(2) [OF tokens_labelled(2)] routes(5) run [unfolded RRevokeToken route.case]])
  qed (use False in simp_all)
  then show ?thesis using logged_adds assms(1) False by blast
qed

lemma serve_adds:
  assumes "ps \<in> {Handler, BrokerHandler}" "serve ps srv r st = (resp, st')"
  shows "adds st st'"
proof -
  have "adds st st'" if "mux_match ps (rq_Method r) ss = Some (rt, vals)" "dispatch srv rt val r st = (resp, st')" for ss rt vals val
  proof -
    have "rq_Method r \<in> label_values \<or> rt = RPublic"
      using broker_method [OF assms(1) that(1)] by (auto simp: label_values_def)
    then show ?thesis using dispatch_adds that(2) by blast
  qed
  then show ?thesis
    using assms(2) by (auto simp: serve_def Let_def split: if_splits option.splits prod.splits)
qed

text \<open>A run of the process: requests and expiry sweeps in any order.\<close>

datatype step = Request request | Sweep time

fun run_steps :: "pattern list \<Rightarrow> 'w server \<Rightarrow> step list \<Rightarrow> 'w sstate \<Rightarrow> 'w sstate" where
  "run_steps ps srv [] st = st"
| "run_steps ps srv (Request r # xs) st = run_steps ps srv xs (snd (serve ps srv r st))"
| "run_steps ps srv (Sweep now # xs) st = run_steps ps srv xs (snd (srv_DeleteExpired srv now st))"

lemma run_steps_adds: "ps \<in> {Handler, BrokerHandler} \<Longrightarrow> adds st (run_steps ps srv xs st)"
proof (induction ps srv xs st rule: run_steps.induct)
  case (2 ps srv r xs st)
  have "adds st (snd (serve ps srv r st))" using serve_adds [OF 2(2) surjective_pairing] .
  then show ?case using adds_trans 2 by simp
next
  case (3 ps srv now xs st)
  have "adds st (snd (srv_DeleteExpired srv now st))" using sweep_adds [OF surjective_pairing] .
  then show ?case using adds_trans 3 by simp
qed simp

text \<open>
  C33: The labels of the broker's metrics are closed: whatever requests arrive, with whatever methods,
  paths, names, tokens and bodies, and whatever the backend answers, every string attribute of
  every measurement is one of 21 fixed values.  In particular no user input ever becomes a
  label, and the number of time series is bounded.
\<close>

theorem metric_labels_closed:
  assumes "ps \<in> {Handler, BrokerHandler}" "sv_events st = []"
  shows "used_labels (deliver_all sdk_metrics meas (sv_events (run_steps ps srv xs st)) zero_metrics) \<subseteq> label_values"
proof -
  have "\<forall>ev \<in> set (sv_events (run_steps ps srv xs st)). event_labels ev \<subseteq> label_values"
    using run_steps_adds [OF assms(1), of st srv xs] assms(2) by (auto simp: adds_def)
  moreover have "used_labels zero_metrics = {}" by (simp add: used_labels_def measured_def zero_metrics_def)
  ultimately show ?thesis
    using sdk.deliver_all_labels [of meas "sv_events (run_steps ps srv xs st)" zero_metrics] by fastforce
qed

theorem metric_labels_closed_witness:
  "used_labels (deliver_all sdk_metrics (\<lambda>k. (1500000000, 10)) (sv_events (run_steps BrokerHandler (sample_server (local_backend calm sample_store) 9)
     [Request (sample_request ''PUT'' ''/api/sites/secret-name'' ''Bearer guess''), Sweep 5] (sample_state sample_world))) zero_metrics)
   \<subseteq> label_values"
  by (rule metric_labels_closed) (simp_all add: sample_state_def)

end
