(* ===== verification/Client.thy ===== *)
theory Client
  imports Config
begin

text \<open>
  \<^verbatim>\<open>internal/cliclient/client.go\<close>: the HTTP client of the \<^verbatim>\<open>crate\<close> command.  The network is a record
  of parameters: whether a request can be made of a method and a URL, and what sending it does to
  the world on the other side.  The JSON library is a record of decoders and one encoder.
\<close>

section \<open>The network and the codecs\<close>

text \<open>A body is the bytes of its reader and whether the reader fails after them.\<close>

type_synonym reader = "bytes \<times> bool"

record http_request =
  hq_Method :: string
  hq_URL :: string
  hq_Auth :: string
  hq_ContentType :: string
  hq_Expires :: string
  hq_Body :: reader

record http_reply =
  hp_Status :: nat
  hp_Body :: bytes

record 'w net =
  nt_NewRequest :: "string \<Rightarrow> string \<Rightarrow> bool"
  nt_Do :: "http_request \<Rightarrow> 'w \<Rightarrow> http_reply option \<times> 'w"

record codec =
  jd_Error :: "bytes \<Rightarrow> string"
    \<comment> \<open>the field error, empty when the body is no such object\<close>
  jd_Status :: "bytes \<Rightarrow> (string \<times> int \<times> string) option"
  jd_Sites :: "bytes \<Rightarrow> site list option"
  jd_Put :: "bytes \<Rightarrow> (site \<times> string) option"
  jd_Created :: "bytes \<Rightarrow> (string \<times> token_info) option"
  jd_Tokens :: "bytes \<Rightarrow> token_info list option"
  je_Create :: "create_token_request \<Rightarrow> bytes option"

datatype client_err =
    ErrNewRequest
  | ErrTransport
  | ErrCrated nat string
    \<comment> \<open>the status of the reply and its error text, which may be empty\<close>
  | ErrReply
  | ErrMarshal

section \<open>The client\<close>

record client =
  cl_base :: string
  cl_token :: string

definition New_client :: "config \<Rightarrow> client" where
  "New_client cfg = \<lparr>cl_base = TrimRight (EffectiveAPIURL cfg) slash, cl_token = C_Token cfg\<rparr>"

definition newReq :: "'w net \<Rightarrow> client \<Rightarrow> string \<Rightarrow> string \<Rightarrow> reader \<Rightarrow> client_err + http_request" where
  "newReq nt c meth p body =
     (if nt_NewRequest nt meth (cl_base c @ p)
      then Inr \<lparr>hq_Method = meth, hq_URL = cl_base c @ p, hq_Auth = ''Bearer '' @ cl_token c, hq_ContentType = [],
                hq_Expires = [], hq_Body = body\<rparr>
      else Inl ErrNewRequest)"

definition decodeErr :: "codec \<Rightarrow> http_reply \<Rightarrow> client_err" where
  "decodeErr cd rep = ErrCrated (hp_Status rep) (jd_Error cd (hp_Body rep))"

text \<open>Sending a request and insisting on the status of success; every method does this.\<close>

definition do_expect :: "'w net \<Rightarrow> codec \<Rightarrow> http_request \<Rightarrow> nat \<Rightarrow> 'w \<Rightarrow> (client_err + bytes) \<times> 'w" where
  "do_expect nt cd req want w =
     (case nt_Do nt req w of
        (None, w1) \<Rightarrow> (Inl ErrTransport, w1)
      | (Some rep, w1) \<Rightarrow> (if hp_Status rep \<noteq> want then Inl (decodeErr cd rep) else Inr (hp_Body rep), w1))"

definition decoded :: "(bytes \<Rightarrow> 'a option) \<Rightarrow> (client_err + bytes) \<times> 'w \<Rightarrow> (client_err + 'a) \<times> 'w" where
  "decoded dec x =
     (case x of
        (Inl err, w) \<Rightarrow> (Inl err, w)
      | (Inr b, w) \<Rightarrow> (case dec b of None \<Rightarrow> Inl ErrReply | Some a \<Rightarrow> Inr a, w))"

definition cc_Status :: "'w net \<Rightarrow> codec \<Rightarrow> client \<Rightarrow> 'w \<Rightarrow> (client_err + string \<times> int \<times> string) \<times> 'w" where
  "cc_Status nt cd c w =
     (case newReq nt c ''GET'' PathAPIStatus ([], False) of
        Inl err \<Rightarrow> (Inl err, w)
      | Inr req \<Rightarrow> decoded (jd_Status cd) (do_expect nt cd req 200 w))"

definition cc_List :: "'w net \<Rightarrow> codec \<Rightarrow> client \<Rightarrow> 'w \<Rightarrow> (client_err + site list) \<times> 'w" where
  "cc_List nt cd c w =
     (case newReq nt c ''GET'' PathAPISites ([], False) of
        Inl err \<Rightarrow> (Inl err, w)
      | Inr req \<Rightarrow> decoded (jd_Sites cd) (do_expect nt cd req 200 w))"

definition cc_Delete :: "'w net \<Rightarrow> codec \<Rightarrow> client \<Rightarrow> string \<Rightarrow> 'w \<Rightarrow> (client_err + unit) \<times> 'w" where
  "cc_Delete nt cd c name w =
     (case newReq nt c ''DELETE'' (PathAPISites @ ''/'' @ name) ([], False) of
        Inl err \<Rightarrow> (Inl err, w)
      | Inr req \<Rightarrow> decoded (\<lambda>b. Some ()) (do_expect nt cd req 204 w))"

definition cc_CreateToken :: "'w net \<Rightarrow> codec \<Rightarrow> client \<Rightarrow> string \<Rightarrow> string \<Rightarrow> 'w \<Rightarrow> (client_err + string \<times> token_info) \<times> 'w" where
  "cc_CreateToken nt cd c name expires w =
     (case je_Create cd \<lparr>Req_Name = name, Req_Expires = expires\<rparr> of
        None \<Rightarrow> (Inl ErrMarshal, w)
      | Some body \<Rightarrow>
          (case newReq nt c ''POST'' PathAPITokens (body, False) of
             Inl err \<Rightarrow> (Inl err, w)
           | Inr req \<Rightarrow> decoded (jd_Created cd) (do_expect nt cd (req\<lparr>hq_ContentType := ''application/json''\<rparr>) 201 w)))"

definition cc_ListTokens :: "'w net \<Rightarrow> codec \<Rightarrow> client \<Rightarrow> 'w \<Rightarrow> (client_err + token_info list) \<times> 'w" where
  "cc_ListTokens nt cd c w =
     (case newReq nt c ''GET'' PathAPITokens ([], False) of
        Inl err \<Rightarrow> (Inl err, w)
      | Inr req \<Rightarrow> decoded (jd_Tokens cd) (do_expect nt cd req 200 w))"

definition cc_RevokeToken :: "'w net \<Rightarrow> codec \<Rightarrow> client \<Rightarrow> string \<Rightarrow> 'w \<Rightarrow> (client_err + unit) \<times> 'w" where
  "cc_RevokeToken nt cd c idOrName w =
     (case newReq nt c ''DELETE'' (PathAPITokens @ ''/'' @ idOrName) ([], False) of
        Inl err \<Rightarrow> (Inl err, w)
      | Inr req \<Rightarrow> decoded (\<lambda>b. Some ()) (do_expect nt cd req 204 w))"

definition PushReaderWithExpiry ::
  "'w net \<Rightarrow> codec \<Rightarrow> client \<Rightarrow> string \<Rightarrow> reader \<Rightarrow> string \<Rightarrow> 'w \<Rightarrow> (client_err + site \<times> string) \<times> 'w" where
  "PushReaderWithExpiry nt cd c name r expires w =
     (case newReq nt c ''PUT'' (PathAPISites @ ''/'' @ name) r of
        Inl err \<Rightarrow> (Inl err, w)
      | Inr req \<Rightarrow>
          (let req = req\<lparr>hq_ContentType := ''application/x-tar''\<rparr>;
               req = (if expires \<noteq> [] then req\<lparr>hq_Expires := expires\<rparr> else req)
           in decoded (jd_Put cd) (do_expect nt cd req 200 w)))"

definition PushReader :: "'w net \<Rightarrow> codec \<Rightarrow> client \<Rightarrow> string \<Rightarrow> reader \<Rightarrow> 'w \<Rightarrow> (client_err + site \<times> string) \<times> 'w" where
  "PushReader nt cd c name r w = PushReaderWithExpiry nt cd c name r [] w"

text \<open>
  The tar library turns an archive into bytes; \<^verbatim>\<open>sent\<close> is what of the archive has gone down the
  pipe when the directory walk fails, after which the reading end of the pipe fails too.
\<close>

definition tar_pipe :: "(tar_stream \<Rightarrow> bytes) \<Rightarrow> bytes \<Rightarrow> store_err + tar_stream \<Rightarrow> reader" where
  "tar_pipe pack sent x = (case x of Inl err \<Rightarrow> (sent, True) | Inr ts \<Rightarrow> (pack ts, False))"

definition PushWithExpiry ::
  "'w net \<Rightarrow> codec \<Rightarrow> client \<Rightarrow> env \<Rightarrow> (tar_stream \<Rightarrow> bytes) \<Rightarrow> bytes \<Rightarrow> string \<Rightarrow> fpath \<Rightarrow> string \<Rightarrow> world \<Rightarrow> 'w \<Rightarrow>
     (client_err + site \<times> string) \<times> world \<times> 'w" where
  "PushWithExpiry nt cd c e pack sent name srcDir expires cw w =
     (let (x, cw1) = WriteDirAsTar e srcDir cw;
          (res, w1) = PushReaderWithExpiry nt cd c name (tar_pipe pack sent x) expires w
      in (res, cw1, w1))"

definition Push ::
  "'w net \<Rightarrow> codec \<Rightarrow> client \<Rightarrow> env \<Rightarrow> (tar_stream \<Rightarrow> bytes) \<Rightarrow> bytes \<Rightarrow> string \<Rightarrow> fpath \<Rightarrow> world \<Rightarrow> 'w \<Rightarrow>
     (client_err + site \<times> string) \<times> world \<times> 'w" where
  "Push nt cd c e pack sent name srcDir cw w = PushWithExpiry nt cd c e pack sent name srcDir [] cw w"

section \<open>What a success means\<close>

text \<open>A call succeeds only on the reply the API promises for it, read off the request that was sent.\<close>

lemma decoded_ok:
  assumes "decoded dec (do_expect nt cd req want w) = (Inr a, w')"
  shows "\<exists>b. nt_Do nt req w = (Some \<lparr>hp_Status = want, hp_Body = b\<rparr>, w') \<and> dec b = Some a"
proof -
  obtain r w1 where d: "nt_Do nt req w = (r, w1)" by (cases "nt_Do nt req w")
  obtain rep where "r = Some rep" "hp_Status rep = want" "dec (hp_Body rep) = Some a" "w1 = w'"
    using assms d by (cases r) (auto simp: decoded_def do_expect_def split: if_splits option.splits)
  then show ?thesis using d by (cases rep) auto
qed

definition push_request :: "client \<Rightarrow> string \<Rightarrow> reader \<Rightarrow> string \<Rightarrow> http_request" where
  "push_request c name r expires =
     \<lparr>hq_Method = ''PUT'', hq_URL = cl_base c @ PathAPISites @ ''/'' @ name, hq_Auth = ''Bearer '' @ cl_token c,
      hq_ContentType = ''application/x-tar'', hq_Expires = expires, hq_Body = r\<rparr>"

lemma Push_eq:
  "PushReaderWithExpiry nt cd c name r expires w =
     (if nt_NewRequest nt ''PUT'' (cl_base c @ PathAPISites @ ''/'' @ name)
      then decoded (jd_Put cd) (do_expect nt cd (push_request c name r expires) 200 w) else (Inl ErrNewRequest, w))"
  by (simp add: PushReaderWithExpiry_def newReq_def push_request_def Let_def)

lemma Push_ok:
  assumes "PushReaderWithExpiry nt cd c name r expires w = (Inr a, w')"
  shows "\<exists>b. nt_Do nt (push_request c name r expires) w = (Some \<lparr>hp_Status = 200, hp_Body = b\<rparr>, w') \<and> jd_Put cd b = Some a"
  using assms decoded_ok unfolding Push_eq by (auto split: if_splits)

end
