(* ===== verification/Publish.thy ===== *)
theory Publish
  imports Public_Props Client Archive_Roundtrip
begin

text \<open>
  The client, the broker and the public side together: a directory that the client pushes is what
  the public side serves.  The network between them is an instance of the parameter of the
  client that runs the server's multiplexer.
\<close>

section \<open>The network of one server\<close>

definition plain_char :: "char \<Rightarrow> bool" where
  "plain_char c = (name_char c \<or> c = slash)"

definition to_request :: "string \<Rightarrow> http_request \<Rightarrow> request" where
  "to_request base hq =
     (let p = drop (length base) (hq_URL hq)
      in \<lparr>rq_Method = hq_Method hq, rq_EscapedPath = p, rq_Path = p, rq_Auth = hq_Auth hq, rq_Expires = hq_Expires hq,
          rq_Body = fst (hq_Body hq), rq_BodyFails = snd (hq_Body hq)\<rparr>)"

text \<open>
  Requests go to URLs below the server's base that need no escaping.  A dropped connection and a
  body that breaks off are errors of the transport.  \<^verbatim>\<open>enc\<close> is what the server's encoders make of a
  body.
\<close>

definition server_net :: "string \<Rightarrow> (payload \<Rightarrow> bytes) \<Rightarrow> pattern list \<Rightarrow> 'w server \<Rightarrow> 'w sstate net" where
  "server_net base enc ps srv =
     \<lparr>nt_NewRequest = (\<lambda>meth url. HasPrefix url base \<and> list_all plain_char (drop (length base) url)),
      nt_Do = (\<lambda>hq st.
        let (resp, st1) = serve ps srv (to_request base hq) st
        in (if rs_Body resp = Aborted \<or> snd (hq_Body hq) then None
            else Some \<lparr>hp_Status = rs_Status resp, hp_Body = enc (rs_Body resp)\<rparr>, st1))\<rparr>"

section \<open>From the client to the handler\<close>

lemma unescape_plain: "CHR ''%'' \<notin> set s \<Longrightarrow> unescape s = Some s"
  by (induction s rule: unescape.induct) auto

lemma site_route:
  assumes "nameRE name" "ps \<in> {Handler, BrokerHandler}"
  shows "map pathUnescape (Split (tl (PathAPISites @ slash # name)) slash) = [''api'', ''sites'', name]"
    and "mux_match ps ''PUT'' [''api'', ''sites'', name] = Some (RPutSite, [name])"
proof -
  have "tl (PathAPISites @ slash # name) = ''api'' @ slash # ''sites'' @ slash # name" by (simp add: PathAPISites_def)
  moreover have "slash \<notin> set name" using nameRE_chars(4) [OF assms(1)] by blast
  moreover have "CHR ''%'' \<notin> set name" using nameRE_chars(3) [OF assms(1)] by blast
  then have "pathUnescape name = name" by (simp add: pathUnescape_def unescape_plain)
  ultimately show "map pathUnescape (Split (tl (PathAPISites @ slash # name)) slash) = [''api'', ''sites'', name]"
    using Split_append [of slash "''api''" "''sites'' @ slash # name"] Split_append [of slash "''sites''" name] Split_word [of slash name]
    by (simp add: pathUnescape_def)
  have "name \<noteq> []" using assms(1) by auto
  then show "mux_match ps ''PUT'' [''api'', ''sites'', name] = Some (RPutSite, [name])"
    using assms(2) by (auto simp: mux_match_def Handler_def BrokerHandler_def healthRoute_def brokerRoutes_def)
qed

lemma authorised_run:
  assumes "logBrokerRequest srv route (requireAuth srv nxt) r st = (resp, st')" "rs_Status resp = 200"
  shows "\<exists>a st1 a' st2. nxt r a st1 = (resp, a', st2) \<and> sv_world st' = sv_world st2"
proof -
  obtain a a' st2 where run: "requireAuth srv nxt r a (snd (newRequestID srv st)) = (resp, a', st2)"
    and w: "sv_world st' = sv_world st2"
    using logBrokerRequest_run [OF assms(1)] by blast
  have "\<exists>b st1. nxt r b st1 = (resp, a', st2)"
    using run assms(2) by (auto simp: requireAuth_def Let_def writeError_def writeJSON_def split: if_splits prod.splits option.splits)
  then show ?thesis using w by blast
qed

text \<open>A push the client reports as done was handled by the handler of uploads with status 200.\<close>

lemma push_handled:
  assumes "PushReaderWithExpiry (server_net base enc ps srv) cd c name r expires st = (Inr out, st')"
    and "cl_base c = base" "nameRE name" "ps \<in> {Handler, BrokerHandler}"
  shows "\<exists>a st1 resp a' st2. handlePutSite srv name (to_request base (push_request c name r expires)) a st1 = (resp, a', st2) \<and>
    rs_Status resp = 200 \<and> sv_world st' = sv_world st2 \<and> \<not> snd r"
proof -
  let ?hq = "push_request c name r expires" and ?p = "PathAPISites @ ''/'' @ name"
  obtain resp st1 where s: "serve ps srv (to_request base ?hq) st = (resp, st1)" by (rule that [OF surjective_pairing])
  have ok: "rs_Status resp = 200" "st1 = st'" "\<not> snd r"
    using Push_ok [OF assms(1)] s by (auto simp: server_net_def push_request_def split: if_splits)
  have rq: "rq_EscapedPath (to_request base ?hq) = ?p" "rq_Method (to_request base ?hq) = ''PUT''"
    using assms(2) by (simp_all add: to_request_def push_request_def Let_def)
  have "cleanPath ?p = ?p" using s ok(1) rq by (auto simp: serve_def Redirect_def Let_def split: if_splits)
  then have "dispatch srv RPutSite name (to_request base ?hq) st = (resp, st1)"
    using s by (simp add: serve_def rq site_route [OF assms(3,4)] Let_def)
  then have "logBrokerRequest srv ''/api/sites/{name}'' (requireAuth srv (handlePutSite srv name)) (to_request base ?hq) st = (resp, st1)"
    by (simp add: dispatch_def)
  from authorised_run [OF this ok(1)] show ?thesis using ok by blast
qed

text \<open>... and so stored by the backend.\<close>

lemma push_stored:
  assumes "PushReaderWithExpiry (server_net base enc ps srv) cd c name r expires st = (Inr out, st')"
    and "cl_base c = base" "nameRE name" "ps \<in> {Handler, BrokerHandler}"
    and "sr_mutable srv = Some be" "env_quiet content (sr_env srv)" "\<forall>w. content (snd (be_List (sr_store srv) w)) = content w"
  shows "\<exists>dur w1 site w2. parseExpiry expires = Inr dur \<and> \<not> snd r \<and>
    be_Replace be name (se_tar (sr_env srv) (fst r)) dur w1 = (Inr site, w2) \<and> content (sv_world st') = content w2"
proof -
  let ?r = "to_request base (push_request c name r expires)"
  obtain a st1 resp a' st2 where h: "handlePutSite srv name ?r a st1 = (resp, a', st2)" "rs_Status resp = 200"
      "sv_world st' = sv_world st2" "\<not> snd r"
    using push_handled [OF assms(1-4)] by blast
  have rq: "rq_Expires ?r = expires" "rq_Body ?r = fst r" by (simp_all add: to_request_def push_request_def Let_def)
  obtain dur w1 res w2 where "parseExpiry expires = Inr dur" "be_Replace be name (se_tar (sr_env srv) (fst r)) dur w1 = (res, w2)"
      "put_status res = 200" "content (sv_world st2) = content w2"
    using handlePutSite_cases [OF assms(5,6,7) h(1)] h(2) unfolding rq by auto
  moreover from this(3) obtain site where "res = Inr site" by (auto simp: put_status_def split: sum.splits if_splits)
  ultimately show ?thesis using h(3,4) by metis
qed

section \<open>To the visitor\<close>

lemma public_get:
  assumes "rq_Method r = ''GET''" "rq_Path r = file_url name cs" "rq_EscapedPath r = file_url name cs"
    and "nameRE name" "cs \<noteq> []" "\<forall>c \<in> set cs. ordinary c"
  shows "serve PublicHandler srv r st = handlePublic srv r st"
proof -
  have url: "file_url name cs = slash # Join (name # cs) ''/''" using assms(5) by (simp add: file_url_def Join_Cons)
  have ord: "\<forall>c \<in> set (name # cs). ordinary c" using assms(6) nameRE_ordinary [OF assms(4)] by simp
  have clean: "Clean (file_url name cs) = file_url name cs"
    using clean_comps_Join [OF ordinary_stack_ok, of "name # cs" True] ord
    unfolding url by (simp add: Clean_def IsAbs_def clean_comps_slash)
  have "last cs \<noteq> []" "slash \<notin> set (last cs)" using assms(5,6) by (auto simp: ordinary_def)
  moreover have "\<exists>pre. file_url name cs = pre @ last cs"
  proof -
    obtain us c where cs: "cs = us @ [c]" using assms(5) by (metis rev_exhaust)
    have "file_url name cs = (slash # Join (name # us) ''/'' @ ''/'') @ last cs"
      unfolding url using Join_append [of "name # us" "[c]" "''/''"] by (simp add: cs)
    then show ?thesis by blast
  qed
  ultimately have "last (file_url name cs) \<noteq> slash" by (metis last_appendR last_in_set)
  then have "cleanPath (file_url name cs) = file_url name cs" using clean by (simp add: cleanPath_def Let_def url)
  moreover have "slash \<notin> set w" if "w \<in> set (name # cs)" for w using ord that by (auto simp: ordinary_def)
  then have "Split (tl (file_url name cs)) slash = name # cs"
    using Split_Join [of "name # cs" slash] by (simp add: url)
  moreover have "mux_match PublicHandler ''GET'' (map pathUnescape (name # cs)) = Some (RPublic, [])"
    using assms(5) by (cases cs) (auto simp: mux_match_def PublicHandler_def healthRoute_def publicRoutes_def)
  ultimately show ?thesis using assms(1-3) by (simp add: serve_def dispatch_def)
qed

text \<open>
  C1: Publishing works end to end.  A directory is pushed with the client to a broker whose backend
  is a local store; the client reports success.  Then, as long as the stored files are left
  alone and the clock of the web role is before every deadline the push can have been given, a
  visitor who asks the public side (it may be another process with the same store) for the URL
  of any file of the directory gets exactly the bytes of that file.  The archive library is a
  pair of functions of which only is assumed that it reads back the archive it wrote.
\<close>

theorem publish_then_get:
  assumes push: "PushWithExpiry (server_net base enc ps srv) cd c ce pack sent name src expires cw st = (Inr out, cw', st')"
    and client: "cl_base c = base" "nameRE name" "name \<noteq> ''api''"
    and broker: "ps \<in> {Handler, BrokerHandler}" "sr_store srv = local_backend e s" "sr_mutable srv = Some (local_backend e s)"
      "env_quiet w_fs (sr_env srv)" "st_maxSiteBytes s < 2 ^ 63 - 1"
    and tar: "\<forall>ts. fst (WriteDirAsTar ce src cw) = Inr ts \<longrightarrow> se_tar (sr_env srv) (pack ts) = ts"
    and source: "lookup (w_fs cw) src = Some n" "wf_node n" "file_at (w_fs cw) (src @ cs) = Some b"
    and path: "cs \<noteq> []" "\<forall>q \<in> set cs. ordinary q \<and> CHR 0x5C \<notin> set q" "last cs \<noteq> ''index.html''"
    and web: "sr_store web = local_backend e' s" "fault_free e'" "w_fs (sv_world st2) = w_fs (sv_world st')"
      "\<forall>w. w_fs (snd (se_now (sr_env web) w)) = w_fs w"
    and time: "\<forall>k d. parseExpiry expires = Inr (Some d) \<longrightarrow>
        year_ok (env_now e k + d) \<and> (\<forall>w. fst (se_now (sr_env web) w) < env_now e k + d)"
    and get: "rq_Method r = ''GET''" "rq_Path r = file_url name cs" "rq_EscapedPath r = file_url name cs"
  shows "fst (serve PublicHandler web r st2) = okBody (FileBody b)"
proof -
  obtain x cw1 where tarred: "WriteDirAsTar ce src cw = (x, cw1)" by (rule that [OF surjective_pairing])
  have sent: "PushReaderWithExpiry (server_net base enc ps srv) cd c name (tar_pipe pack sent x) expires st = (Inr out, st')"
    using push tarred by (auto simp: PushWithExpiry_def split: prod.splits)
  have list: "\<forall>w. w_fs (snd (be_List (sr_store srv) w)) = w_fs w"
    using loc.list_keeps [of e s] unfolding broker(2) by (metis prod.collapse)
  obtain dur w1 site w2 where dur: "parseExpiry expires = Inr dur" and whole: "\<not> snd (tar_pipe pack sent x)"
    and rep: "be_Replace (local_backend e s) name (se_tar (sr_env srv) (fst (tar_pipe pack sent x))) dur w1 = (Inr site, w2)"
    and fs: "w_fs (sv_world st') = w_fs w2"
    using push_stored [OF sent client(1,2) broker(1,3,4) list] by blast
  obtain ts where ts: "x = Inr ts" using whole by (cases x) (auto simp: tar_pipe_def)
  have run: "ReplaceFromTarWithExpiry e s name ts dur w1 = (Inr site, w2)"
    using rep tar tarred by (simp add: ts tar_pipe_def local_backend_def)
  have "installed (st_root s) name ts (w_fs w2)"
    using replace_outcome [OF run [unfolded ReplaceFromTarWithExpiry_def] expiry_only_deadline broker(5)] by (simp add: safe_outcome_def)
  then have "file_at (w_fs w2) (st_root s @ name # cs) = Some b"
    using WriteDirAsTar_data [OF tarred [unfolded ts] source(1,2)] source(3) by (simp add: installed_def)
  then obtain m where fl: "lookup (w_fs (sv_world st2)) (st_root s @ name # cs) = Some (File b m)"
    using web(3) fs by (auto simp: file_at_def split: option.splits node.splits)
  then obtain d where dir: "lookup (w_fs (sv_world st2)) (st_root s @ [name]) = Some d"
    using lookup_append [of "w_fs (sv_world st2)" "st_root s @ [name]" cs] by (auto split: option.splits)
  obtain k where rec: "recorded (w_fs (sv_world st2)) (expiryPath s name) (map_option (\<lambda>d. env_now e k + d) dur)"
    using replace_records [OF run] web(3) fs by auto
  have live: "\<forall>t. map_option (\<lambda>d. env_now e k + d) dur = Some t \<longrightarrow> year_ok t \<and> (\<forall>w. fst (se_now (sr_env web) w) < t)"
    using time dur by auto
  show ?thesis
    unfolding public_get [OF get client(2) path(1) ball_conj_distrib [THEN iffD1, OF path(2), THEN conjunct1]]
    by (rule handlePublic_file [OF web(1,2) client(2,3) dir rec live web(4) fl path get(2)])
qed

section \<open>A push to try\<close>

definition src_tar :: tar_stream where
  "src_tar = (case fst (WriteDirAsTar calm [''src''] sample_src) of Inl err \<Rightarrow> TarEOF | Inr ts \<Rightarrow> ts)"

definition push_server :: "world server" where
  "push_server = (sample_server (local_backend calm sample_store) 9)\<lparr>sr_env := (sample_senv 9)\<lparr>se_tar := (\<lambda>b. src_tar)\<rparr>\<rparr>"

definition push_codec :: codec where
  "push_codec = \<lparr>jd_Error = (\<lambda>b. []), jd_Status = (\<lambda>b. None), jd_Sites = (\<lambda>b. None),
     jd_Put = (\<lambda>b. Some (\<lparr>Site_Name = [], Site_UpdatedAt = 0, Site_SizeBytes = 0, Site_FileCount = 0, Site_ExpiresAt = None\<rparr>, [])),
     jd_Created = (\<lambda>b. None), jd_Tokens = (\<lambda>b. None), je_Create = (\<lambda>r. None)\<rparr>"

definition sample_push :: "(client_err + site \<times> string) \<times> world \<times> world sstate" where
  "sample_push = PushWithExpiry (server_net ''http://h'' (\<lambda>p. ''{}'') Handler push_server) push_codec (New_client server_config) calm
     (\<lambda>ts. ''tar'') [] ''new'' [''src''] ''never'' sample_src (sample_state sample_world)"

lemma sample_push_ok: "isl (fst sample_push) = False"
  by code_simp

theorem publish_then_get_witness:
  "fst (serve PublicHandler push_server (sample_request ''GET'' ''/new/docs/a.html'' []) (snd (snd sample_push))) = okBody (FileBody ''abc'')"
proof -
  obtain out cw' st' where push: "sample_push = (Inr out, cw', st')"
  proof -
    obtain res cw' st' where run: "sample_push = (res, cw', st')" by (metis prod.exhaust)
    have "\<not> isl res" using sample_push_ok unfolding run by simp
    then show ?thesis using run that by (cases res) auto
  qed
  have store: "sr_store push_server = local_backend calm sample_store" "sr_mutable push_server = Some (local_backend calm sample_store)"
    "sr_env push_server = (sample_senv 9)\<lparr>se_tar := (\<lambda>b. src_tar)\<rparr>"
    by (simp_all add: push_server_def)
  have base: "cl_base (New_client server_config) = ''http://h''" by code_simp
  have names: "nameRE ''new''" by code_simp
  have quiet: "env_quiet w_fs (sr_env push_server)" by (simp add: store env_quiet_def sample_senv_def)
  have lim: "st_maxSiteBytes sample_store < 2 ^ 63 - 1" by (simp add: sample_store_def New_def)
  have tar: "\<forall>ts. fst (WriteDirAsTar calm [''src''] sample_src) = Inr ts \<longrightarrow> se_tar (sr_env push_server) ((\<lambda>ts. ''tar'') ts) = ts"
    by (simp add: store src_tar_def)
  have src: "lookup (w_fs sample_src) [''src''] = Some (Folder 0 [(''docs'', Folder 0 [(''a.html'', File ''abc'' 0)])])"
    "wf_node (Folder 0 [(''docs'', Folder 0 [(''a.html'', File ''abc'' 0)])])"
    "file_at (w_fs sample_src) ([''src''] @ [''docs'', ''a.html'']) = Some ''abc''"
    by (simp_all add: sample_src_def ordinary_def file_at_def)
  have comps: "\<forall>q \<in> set [''docs'', ''a.html'']. ordinary q \<and> CHR 0x5C \<notin> set q" by (simp add: ordinary_def)
  have calm: "fault_free calm" by (simp add: fault_free_def calm_def)
  have clock: "\<forall>w. w_fs (snd (se_now (sr_env push_server) w)) = w_fs w" by (simp add: store sample_senv_def)
  have never: "parseExpiry ''never'' = Inr None" by (simp add: parseExpiry_def)
  have get: "rq_Method (sample_request ''GET'' ''/new/docs/a.html'' []) = ''GET''"
    "rq_Path (sample_request ''GET'' ''/new/docs/a.html'' []) = file_url ''new'' [''docs'', ''a.html'']"
    "rq_EscapedPath (sample_request ''GET'' ''/new/docs/a.html'' []) = file_url ''new'' [''docs'', ''a.html'']"
    by (simp_all add: sample_request_def file_url_def)
  show ?thesis
    using publish_then_get [OF push [unfolded sample_push_def] base names _ _ store(1,2) quiet lim tar src _ comps _ store(1) calm refl
        clock _ get] never
    by (simp add: push)
qed

end
