(* ===== verification/Updater.thy ===== *)
theory Updater
  imports Go_Prelude
begin

text \<open>
  \<^verbatim>\<open>internal/buildinfo/buildinfo.go\<close> and \<^verbatim>\<open>internal/updater/updater.go\<close>: the version of the binary and
  its self-update.  The libraries for semantic versions and for updating from releases are
  records of parameters.
\<close>

section \<open>Build information\<close>

definition DevelopmentVersion :: string where
  "DevelopmentVersion = ''0.1.0-dev''"

text \<open>
  \<^verbatim>\<open>stamped\<close> is the variable \<^verbatim>\<open>Version\<close>, which release builds set; \<^verbatim>\<open>embedded\<close> the version of the main
  module in the build information, if there is any.
\<close>

definition Current :: "string \<Rightarrow> string option \<Rightarrow> string" where
  "Current stamped embedded =
     (if stamped \<noteq> DevelopmentVersion then stamped
      else case embedded of
        None \<Rightarrow> DevelopmentVersion
      | Some v \<Rightarrow> if v \<noteq> [] \<and> v \<noteq> ''(devel)'' then v else DevelopmentVersion)"

definition Display :: "string \<Rightarrow> string" where
  "Display version = (if HasPrefix version ''v'' then version else ''v'' @ version)"

lemma Display_idem: "Display (Display v) = Display v"
  by (simp add: Display_def)

section \<open>The libraries\<close>

record semver =
  sm_Prerelease :: string
  sm_String :: string

record release =
  rl_Version :: string
  rl_URL :: string
  rl_Notes :: string

record updater_config =
  uc_Checksums :: string
  uc_Filters :: "string list"
  uc_OS :: string
  uc_Arch :: string

record 'w update_lib =
  ul_NewVersion :: "string \<Rightarrow> semver option"
  ul_NewUpdater :: "updater_config \<Rightarrow> bool"
  ul_DetectLatest :: "updater_config \<Rightarrow> string \<Rightarrow> 'w \<Rightarrow> release option option \<times> 'w"
    \<comment> \<open>None is an error, Some None that no release was found\<close>
  ul_GreaterThan :: "release \<Rightarrow> string \<Rightarrow> bool"
  ul_UpdateTo :: "updater_config \<Rightarrow> release \<Rightarrow> string \<Rightarrow> 'w \<Rightarrow> bool \<times> 'w"
  ul_ExecutablePath :: "'w \<Rightarrow> string option \<times> 'w"

section \<open>The client\<close>

definition Repository :: string where
  "Repository = ''Twistedgrim/crate-html''"

record update_result =
  ur_From :: string
  ur_To :: string
  ur_Updated :: bool
  ur_ReleaseURL :: string
  ur_ReleaseNotes :: string

datatype update_err =
    UpConfigure
  | UpVersion string
  | UpDevelopment string
  | UpCheck
  | UpNotFound string string
  | UpLocate
  | UpReplace string

record 'w options =
  op_OS :: string
  op_Arch :: string
  op_ExecutablePath :: "('w \<Rightarrow> string option \<times> 'w) option"

record 'w updater =
  up_config :: updater_config
  up_repository :: string
  up_executablePath :: "'w \<Rightarrow> string option \<times> 'w"
  up_goos :: string
  up_goarch :: string

text \<open>\<^verbatim>\<open>regexp.QuoteMeta\<close>.\<close>

definition special :: string where
  "special = CHR 0x5C # ''.+*?()|[]{}^$''"

definition QuoteMeta :: "string \<Rightarrow> string" where
  "QuoteMeta s = concat (map (\<lambda>c. if c \<in> set special then [CHR 0x5C, c] else [c]) s)"

definition assetPattern :: "string \<Rightarrow> string \<Rightarrow> string" where
  "assetPattern goos goarch =
     (let bs = [CHR 0x5C]
      in ''^crate_'' @ bs @ ''d+'' @ bs @ ''.'' @ bs @ ''d+'' @ bs @ ''.'' @ bs @ ''d+_'' @ QuoteMeta goos @ ''_'' @
         QuoteMeta goarch @ bs @ ''.tar'' @ bs @ ''.gz$'')"

text \<open>The platform of the process is a parameter.\<close>

definition New_updater :: "'w update_lib \<Rightarrow> string \<Rightarrow> string \<Rightarrow> 'w options \<Rightarrow> update_err + 'w updater" where
  "New_updater lib GOOS GOARCH opts =
     (let goos = (if op_OS opts = [] then GOOS else op_OS opts);
          goarch = (if op_Arch opts = [] then GOARCH else op_Arch opts);
          executablePath = (case op_ExecutablePath opts of None \<Rightarrow> ul_ExecutablePath lib | Some f \<Rightarrow> f);
          cfg = \<lparr>uc_Checksums = ''checksums.txt'', uc_Filters = [assetPattern goos goarch], uc_OS = goos, uc_Arch = goarch\<rparr>
      in if ul_NewUpdater lib cfg
         then Inr \<lparr>up_config = cfg, up_repository = Repository, up_executablePath = executablePath, up_goos = goos, up_goarch = goarch\<rparr>
         else Inl UpConfigure)"

text \<open>The part of \<^verbatim>\<open>Update\<close> that replaces the executable.\<close>

definition replace_executable ::
  "'w update_lib \<Rightarrow> 'w updater \<Rightarrow> release \<Rightarrow> update_result \<Rightarrow> 'w \<Rightarrow> (update_err + update_result) \<times> 'w" where
  "replace_executable lib c latest result w =
     (case up_executablePath c w of
        (None, w1) \<Rightarrow> (Inl UpLocate, w1)
      | (Some executable, w1) \<Rightarrow>
          (case ul_UpdateTo lib (up_config c) latest executable w1 of
             (False, w2) \<Rightarrow> (Inl (UpReplace executable), w2)
           | (True, w2) \<Rightarrow> (Inr (result\<lparr>ur_Updated := True\<rparr>), w2)))"

definition Update :: "'w update_lib \<Rightarrow> 'w updater \<Rightarrow> string \<Rightarrow> 'w \<Rightarrow> (update_err + update_result) \<times> 'w" where
  "Update lib c current w =
     (case ul_NewVersion lib current of
        None \<Rightarrow> (Inl (UpVersion current), w)
      | Some currentVersion \<Rightarrow>
          if sm_Prerelease currentVersion \<noteq> [] then (Inl (UpDevelopment current), w)
          else case ul_DetectLatest lib (up_config c) (up_repository c) w of
            (None, w1) \<Rightarrow> (Inl UpCheck, w1)
          | (Some None, w1) \<Rightarrow> (Inl (UpNotFound (up_goos c) (up_goarch c)), w1)
          | (Some (Some latest), w1) \<Rightarrow>
              (let result = \<lparr>ur_From = sm_String currentVersion, ur_To = rl_Version latest, ur_Updated = False,
                             ur_ReleaseURL = rl_URL latest, ur_ReleaseNotes = rl_Notes latest\<rparr>
               in if \<not> ul_GreaterThan lib latest (sm_String currentVersion) then (Inr result, w1)
                  else replace_executable lib c latest result w1))"

section \<open>Properties\<close>

text \<open>
  C34: The self-update touches the installed binary only for a strictly newer stable upgrade.
  Assuming that looking for releases and for the executable changes nothing, whenever the
  installed files differ after \<^verbatim>\<open>Update\<close>, the running version parses and is not a prerelease, a
  release was found that compares greater, and the library replaced exactly the reported
  executable with it.  And the result says updated exactly when that replacement succeeded.
\<close>

theorem Update_only_newer:
  assumes "\<forall>cfg slug w. files (snd (ul_DetectLatest lib cfg slug w)) = files w" "\<forall>w. files (snd (up_executablePath c w)) = files w"
    and "Update lib c current w = (r, w')"
    and "files w' \<noteq> files w \<or> (\<exists>res. r = Inr res \<and> ur_Updated res)"
  shows "\<exists>v latest exe w1 ok. ul_NewVersion lib current = Some v \<and> sm_Prerelease v = [] \<and>
    ul_GreaterThan lib latest (sm_String v) \<and> fst (ul_DetectLatest lib (up_config c) (up_repository c) w) = Some (Some latest) \<and>
    files w1 = files w \<and> ul_UpdateTo lib (up_config c) latest exe w1 = (ok, w') \<and>
    (if ok then \<exists>res. r = Inr res \<and> ur_Updated res \<and> ur_To res = rl_Version latest else r = Inl (UpReplace exe))"
proof -
  obtain d w1 where d: "ul_DetectLatest lib (up_config c) (up_repository c) w = (d, w1)"
    by (rule that [OF surjective_pairing])
  have w1: "files w1 = files w" using assms(1) d by (metis snd_conv)
  obtain p w2 where p: "up_executablePath c w1 = (p, w2)" by (rule that [OF surjective_pairing])
  have w2: "files w2 = files w" using assms(2) p w1 by (metis snd_conv)
  obtain v where v: "ul_NewVersion lib current = Some v" "sm_Prerelease v = []"
    using assms(3,4) by (auto simp: Update_def split: option.splits if_splits)
  note run = assms(3) [unfolded Update_def v option.case d prod.case]
  obtain latest where latest: "d = Some (Some latest)" "ul_GreaterThan lib latest (sm_String v)"
    using run v(2) assms(4) w1 by (auto simp: Let_def split: option.splits if_splits)
  define result where "result = \<lparr>ur_From = sm_String v, ur_To = rl_Version latest, ur_Updated = False,
      ur_ReleaseURL = rl_URL latest, ur_ReleaseNotes = rl_Notes latest\<rparr>"
  have rep: "replace_executable lib c latest result w1 = (r, w')"
    using run latest by (simp add: Let_def result_def)
  obtain exe where exe: "p = Some exe"
    using rep assms(4) p w2 by (auto simp: replace_executable_def split: option.splits)
  obtain ok w3 where up: "ul_UpdateTo lib (up_config c) latest exe w2 = (ok, w3)" by (rule that [OF surjective_pairing])
  have res: "w3 = w'" "if ok then r = Inr (result\<lparr>ur_Updated := True\<rparr>) else r = Inl (UpReplace exe)"
    using rep p exe up by (auto simp: replace_executable_def split: bool.splits)
  have "if ok then \<exists>res. r = Inr res \<and> ur_Updated res \<and> ur_To res = rl_Version latest else r = Inl (UpReplace exe)"
    using res(2) by (auto simp: result_def)
  then show ?thesis
    using v latest d w2 up [unfolded res(1)]
    by (intro exI [where x = v] exI [where x = latest] exI [where x = exe] exI [where x = w2] exI [where x = ok] conjI) simp_all
qed

text \<open>A library whose world is the version installed.\<close>

definition sample_lib :: "string update_lib" where
  "sample_lib = \<lparr>ul_NewVersion = (\<lambda>v. Some \<lparr>sm_Prerelease = (if HasSuffix v ''-dev'' then ''dev'' else []), sm_String = v\<rparr>),
     ul_NewUpdater = (\<lambda>c. True), ul_DetectLatest = (\<lambda>c s w. (Some (Some \<lparr>rl_Version = ''2'', rl_URL = [], rl_Notes = []\<rparr>), w)),
     ul_GreaterThan = (\<lambda>l v. v < rl_Version l), ul_UpdateTo = (\<lambda>c l p w. (True, rl_Version l)),
     ul_ExecutablePath = (\<lambda>w. (Some ''crate'', w))\<rparr>"

definition sample_updater :: "string updater" where
  "sample_updater = \<lparr>up_config = \<lparr>uc_Checksums = ''checksums.txt'', uc_Filters = [], uc_OS = ''linux'', uc_Arch = ''amd64''\<rparr>,
     up_repository = Repository, up_executablePath = (\<lambda>w. (Some ''crate'', w)), up_goos = ''linux'', up_goarch = ''amd64''\<rparr>"

theorem Update_only_newer_witness:
  "snd (Update sample_lib sample_updater ''1'' ''1'') = ''2'' \<and> (\<exists>v. ul_NewVersion sample_lib ''1'' = Some v \<and> sm_Prerelease v = [])"
proof -
  have run: "Update sample_lib sample_updater ''1'' ''1'' = (fst (Update sample_lib sample_updater ''1'' ''1''), ''2'')"
    by code_simp
  show ?thesis
    using Update_only_newer [of id, OF _ _ run] run
    by (auto simp: sample_lib_def sample_updater_def)
qed

end
