(* ===== verification/Crate_CLI.thy ===== *)
theory Crate_CLI
  imports Client Updater
begin

text \<open>
  \<^verbatim>\<open>cmd/crate/main.go\<close>: the commands of the \<^verbatim>\<open>crate\<close> client.  A command takes the state of the
  process (what it has printed, the network, the file system) to an error or none.  The parser
  of the command line is a library; a parsed command is a value here.  Text is padded as for
  ASCII, and the zone database is a function that gives the local offset of an instant.
\<close>

section \<open>Formatting\<close>

definition pad_right :: "nat \<Rightarrow> string \<Rightarrow> string" where
  "pad_right k s = s @ replicate (k - length s) (CHR '' '')"

definition pad_left :: "nat \<Rightarrow> string \<Rightarrow> string" where
  "pad_left k s = replicate (k - length s) (CHR '' '') @ s"

text \<open>The layout \<^verbatim>\<open>2006-01-02 15:04\<close>.\<close>

definition Format_minute :: "time \<Rightarrow> string" where
  "Format_minute t =
     (let s = t div second; sod = s mod 86400; (y, m, d) = civil (s div 86400)
      in format_year y @ ''-'' @ pad 2 m @ ''-'' @ pad 2 d @ '' '' @ pad 2 (sod div 3600) @ '':'' @ pad 2 (sod div 60 mod 60))"

text \<open>The layout \<^verbatim>\<open>time.RFC3339\<close> in a zone with the given offset in seconds.\<close>

definition Format_RFC3339 :: "int \<Rightarrow> time \<Rightarrow> string" where
  "Format_RFC3339 offset t =
     (let s = t div second + offset; sod = s mod 86400; (y, m, d) = civil (s div 86400);
          z = \<bar>offset\<bar> div 60
      in format_year y @ ''-'' @ pad 2 m @ ''-'' @ pad 2 d @ ''T'' @ pad 2 (sod div 3600) @ '':'' @
         pad 2 (sod div 60 mod 60) @ '':'' @ pad 2 (sod mod 60) @
         (if offset = 0 then ''Z''
          else (if offset < 0 then ''-'' else ''+'') @ pad 2 (z div 60) @ '':'' @ pad 2 (z mod 60)))"

text \<open>The characters of the messages beyond ASCII, in UTF-8.\<close>

definition dash :: string where "dash = [CHR 0xE2, CHR 0x80, CHR 0x94]"
definition arrow :: string where "arrow = [CHR 0xE2, CHR 0x86, CHR 0x92]"

section \<open>The process\<close>

datatype printed = Stdout string | Stderr string

datatype cli_err =
    CliClient client_err
  | CliFile store_err
  | CliSource string
  | CliBrowser
  | CliResolve client_err
  | CliNoPublicURL
  | CliNoToken
  | CliStdout
  | CliUpdate update_err
  | CliConfig config_err

record 'w cli_env =
  ce_net :: "'w net"
  ce_codec :: codec
  ce_env :: env
  ce_pack :: "tar_stream \<Rightarrow> bytes"
  ce_sent :: bytes
  ce_stdin :: reader
  ce_stdoutOK :: bool
  ce_path :: "string \<Rightarrow> fpath"
  ce_zone :: "time \<Rightarrow> int"
  ce_getenv :: "string \<Rightarrow> string"
  ce_GOOS :: string
  ce_GOARCH :: string
  ce_Start :: "string list \<Rightarrow> 'w \<Rightarrow> bool \<times> 'w"
    \<comment> \<open>starting a process\<close>
  ce_lib :: "'w update_lib"
  ce_stamped :: string
  ce_embedded :: "string option"
  ce_xdg :: xdg
  ce_marshal :: yaml_out
  ce_unmarshal :: yaml_in
  ce_rand :: rand_fn

record 'w cli_state =
  ci_out :: "printed list"
  ci_net :: 'w
  ci_fs :: world

type_synonym 'w action = "'w cli_state \<Rightarrow> cli_err option \<times> 'w cli_state"

definition say :: "string \<Rightarrow> 'w cli_state \<Rightarrow> 'w cli_state" where
  "say text s = s\<lparr>ci_out := ci_out s @ [Stdout text]\<rparr>"

definition warn :: "string \<Rightarrow> 'w cli_state \<Rightarrow> 'w cli_state" where
  "warn text s = s\<lparr>ci_out := ci_out s @ [Stderr text]\<rparr>"

definition on_net :: "('w \<Rightarrow> 'a \<times> 'w) \<Rightarrow> 'w cli_state \<Rightarrow> 'a \<times> 'w cli_state" where
  "on_net f s = (let (r, w) = f (ci_net s) in (r, s\<lparr>ci_net := w\<rparr>))"

definition local_minute :: "'w cli_env \<Rightarrow> time \<Rightarrow> string" where
  "local_minute ce t = Format_minute (t + ce_zone ce t * second)"

definition local_RFC3339 :: "'w cli_env \<Rightarrow> time \<Rightarrow> string" where
  "local_RFC3339 ce t = Format_RFC3339 (ce_zone ce t) t"

definition openBrowser :: "'w cli_env \<Rightarrow> string \<Rightarrow> 'w cli_state \<Rightarrow> bool \<times> 'w cli_state" where
  "openBrowser ce url s =
     (let b = ce_getenv ce ''BROWSER''
      in if b \<noteq> [] then on_net (ce_Start ce [b, url]) s
         else if ce_GOOS ce = ''darwin'' then on_net (ce_Start ce [''open'', url]) s
         else if ce_GOOS ce = ''linux'' then on_net (ce_Start ce [''xdg-open'', url]) s
         else if ce_GOOS ce = ''windows'' then on_net (ce_Start ce [''rundll32'', ''url.dll,FileProtocolHandler'', url]) s
         else (True, s))"

section \<open>Push\<close>

record push_cmd =
  pc_Src :: string
  pc_Name :: string
  pc_Open :: bool
  pc_Expires :: string

text \<open>A path of the file system model is a directory or a regular file, so the last branch of the source does not occur.\<close>

definition push_source :: "'w cli_env \<Rightarrow> client \<Rightarrow> push_cmd \<Rightarrow> 'w cli_state \<Rightarrow> (cli_err + site \<times> string) \<times> 'w cli_state" where
  "push_source ce c cmd s =
     (let lift = (\<lambda>r. case r of Inl err \<Rightarrow> Inl (CliClient err) | Inr x \<Rightarrow> Inr x);
          reader = (\<lambda>r s. let (res, s1) = on_net (PushReaderWithExpiry (ce_net ce) (ce_codec ce) c (pc_Name cmd) r (pc_Expires cmd)) s
                          in (lift res, s1));
          src = ce_path ce (pc_Src cmd)
      in if pc_Src cmd = ''-'' then reader (ce_stdin ce) s
         else case os_Stat (ce_env ce) src (ci_fs s) of
           (Inl err, w1) \<Rightarrow> (Inl (CliFile err), s\<lparr>ci_fs := w1\<rparr>)
         | (Inr (Folder m es), w1) \<Rightarrow>
             (let (res, cw, w) = PushWithExpiry (ce_net ce) (ce_codec ce) c (ce_env ce) (ce_pack ce) (ce_sent ce) (pc_Name cmd) src
                    (pc_Expires cmd) w1 (ci_net s)
              in (lift res, s\<lparr>ci_fs := cw, ci_net := w\<rparr>))
         | (Inr (File b m), w1) \<Rightarrow>
             (case os_ReadFile (ce_env ce) src w1 of
                (Inl err, w2) \<Rightarrow> (Inl (CliFile err), s\<lparr>ci_fs := w2\<rparr>)
              | (Inr d, w2) \<Rightarrow> reader (d, False) (s\<lparr>ci_fs := w2\<rparr>)))"

definition site_url :: "config \<Rightarrow> string \<Rightarrow> string" where
  "site_url cfg name = TrimRight (EffectivePublicURL cfg) slash @ ''/'' @ name @ ''/''"

definition push_url :: "config \<Rightarrow> string \<Rightarrow> string \<Rightarrow> string" where
  "push_url cfg name reply =
     (let url = (if C_PublicURL cfg \<noteq> [] \<or> C_APIURL cfg = [] then site_url cfg name else reply)
      in if url = [] then site_url cfg name else url)"

definition pushCmd :: "'w cli_env \<Rightarrow> config \<Rightarrow> push_cmd \<Rightarrow> 'w action" where
  "pushCmd ce cfg cmd s =
     (case push_source ce (New_client cfg) cmd s of
        (Inl err, s1) \<Rightarrow> (Some err, s1)
      | (Inr (x, reply), s1) \<Rightarrow>
          (let s2 = say (''pushed '' @ Site_Name x @ '' ('' @ dec_int (Site_FileCount x) @ '' files, '' @ dec_int (Site_SizeBytes x) @ '' bytes)'') s1;
               url = push_url cfg (Site_Name x) reply;
               s3 = say url s2;
               s4 = say (case Site_ExpiresAt x of None \<Rightarrow> ''expires never'' | Some t \<Rightarrow> ''expires '' @ local_RFC3339 ce t) s3
           in if pc_Open cmd
              then (case openBrowser ce url s4 of (ok, s5) \<Rightarrow> (if ok then None else Some CliBrowser, s5))
              else (None, s4)))"

section \<open>The other commands\<close>

definition ls_line :: "'w cli_env \<Rightarrow> site \<Rightarrow> string" where
  "ls_line ce x =
     pad_right 32 (Site_Name x) @ ''  '' @ pad_left 6 (dec_int (Site_FileCount x)) @ '' files  '' @
     pad_left 10 (dec_int (Site_SizeBytes x)) @ '' bytes  updated '' @ Format_minute (Site_UpdatedAt x) @ ''  expires '' @
     (case Site_ExpiresAt x of None \<Rightarrow> ''never'' | Some t \<Rightarrow> local_minute ce t)"

definition lsCmd :: "'w cli_env \<Rightarrow> config \<Rightarrow> 'w action" where
  "lsCmd ce cfg s =
     (case on_net (cc_List (ce_net ce) (ce_codec ce) (New_client cfg)) s of
        (Inl err, s1) \<Rightarrow> (Some (CliClient err), s1)
      | (Inr sites, s1) \<Rightarrow>
          (None, if sites = [] then say ''(no sites)'' s1 else fold (\<lambda>x. say (ls_line ce x)) sites s1))"

definition rmCmd :: "'w cli_env \<Rightarrow> config \<Rightarrow> string \<Rightarrow> 'w action" where
  "rmCmd ce cfg name s =
     (case on_net (cc_Delete (ce_net ce) (ce_codec ce) (New_client cfg) name) s of
        (Inl err, s1) \<Rightarrow> (Some (CliClient err), s1)
      | (Inr u, s1) \<Rightarrow> (None, say (''removed '' @ name) s1))"

definition resolvePublicURL :: "'w cli_env \<Rightarrow> config \<Rightarrow> 'w cli_state \<Rightarrow> (cli_err + string) \<times> 'w cli_state" where
  "resolvePublicURL ce cfg s =
     (if C_PublicURL cfg \<noteq> [] \<or> C_APIURL cfg = [] then (Inr (EffectivePublicURL cfg), s)
      else case on_net (cc_Status (ce_net ce) (ce_codec ce) (New_client cfg)) s of
        (Inl err, s1) \<Rightarrow> (Inl (CliResolve err), s1)
      | (Inr (version, count, publicURL), s1) \<Rightarrow> (if publicURL = [] then Inl CliNoPublicURL else Inr publicURL, s1))"

definition openCmd :: "'w cli_env \<Rightarrow> config \<Rightarrow> string \<Rightarrow> 'w action" where
  "openCmd ce cfg name s =
     (case resolvePublicURL ce cfg s of
        (Inl err, s1) \<Rightarrow> (Some err, s1)
      | (Inr publicURL, s1) \<Rightarrow>
          (let url = TrimRight publicURL slash @ ''/'' @ name @ ''/''
           in case openBrowser ce url (say url s1) of (ok, s2) \<Rightarrow> (if ok then None else Some CliBrowser, s2)))"

definition statusCmd :: "'w cli_env \<Rightarrow> config \<Rightarrow> 'w action" where
  "statusCmd ce cfg s =
     (case on_net (cc_Status (ce_net ce) (ce_codec ce) (New_client cfg)) s of
        (Inl err, s1) \<Rightarrow> (Some (CliClient err), s1)
      | (Inr (version, count, reported), s1) \<Rightarrow>
          (let publicURL = (if C_PublicURL cfg = [] \<and> C_APIURL cfg \<noteq> [] \<and> reported \<noteq> [] then reported else EffectivePublicURL cfg)
           in (None, say (''crated '' @ version @ ''  api='' @ EffectiveAPIURL cfg @ ''  public='' @ publicURL @ ''  sites='' @ dec_int count) s1)))"

definition versionCmd :: "'w cli_env \<Rightarrow> 'w action" where
  "versionCmd ce s = (None, say (''crate '' @ Display (Current (ce_stamped ce) (ce_embedded ce))) s)"

definition updateCmd :: "'w cli_env \<Rightarrow> 'w action" where
  "updateCmd ce s =
     (let current = Current (ce_stamped ce) (ce_embedded ce);
          s1 = say (''crate '' @ Display current @ '' '' @ dash @ '' checking for updates...'') s
      in case New_updater (ce_lib ce) (ce_GOOS ce) (ce_GOARCH ce) \<lparr>op_OS = [], op_Arch = [], op_ExecutablePath = None\<rparr> of
           Inl err \<Rightarrow> (Some (CliUpdate err), s1)
         | Inr c \<Rightarrow>
             (case on_net (Update (ce_lib ce) c current) s1 of
                (Inl err, s2) \<Rightarrow> (Some (CliUpdate err), s2)
              | (Inr res, s2) \<Rightarrow>
                  if \<not> ur_Updated res then (None, say (''crate: already up to date ('' @ Display (ur_From res) @ '')'') s2)
                  else (let s3 = say (''crate: updated '' @ Display (ur_From res) @ '' '' @ arrow @ '' '' @ Display (ur_To res)) s2
                        in (None, if ur_ReleaseURL res \<noteq> [] then say (''What's new: '' @ ur_ReleaseURL res) s3 else s3))))"

definition tokenShowCmd :: "'w cli_env \<Rightarrow> config \<Rightarrow> 'w action" where
  "tokenShowCmd ce cfg s =
     (if C_Token cfg = [] then (Some CliNoToken, s)
      else (if ce_stdoutOK ce then None else Some CliStdout, say (C_Token cfg) s))"

definition tokenCreateCmd :: "'w cli_env \<Rightarrow> config \<Rightarrow> string \<Rightarrow> string \<Rightarrow> 'w action" where
  "tokenCreateCmd ce cfg name expires s =
     (case on_net (cc_CreateToken (ce_net ce) (ce_codec ce) (New_client cfg) name expires) s of
        (Inl err, s1) \<Rightarrow> (Some (CliClient err), s1)
      | (Inr (tok, info), s1) \<Rightarrow>
          (let s2 = warn (''token '' @ [CHR 0x22] @ TI_Name info @ [CHR 0x22] @ '' created (id '' @ TI_ID info @
                 ''). This is the only time the secret is shown '' @ dash @ '' store it now.'') (say tok s1)
           in (None, case TI_ExpiresAt info of None \<Rightarrow> s2 | Some t \<Rightarrow> warn (''expires '' @ local_RFC3339 ce t) s2)))"

definition token_line :: "'w cli_env \<Rightarrow> token_info \<Rightarrow> string" where
  "token_line ce tk =
     (let never = (\<lambda>x. case x of None \<Rightarrow> ''never'' | Some t \<Rightarrow> local_minute ce t)
      in TI_ID tk @ ''  '' @ pad_right 24 (TI_Name tk) @ ''  created '' @ local_minute ce (TI_CreatedAt tk) @ ''  expires '' @
         never (TI_ExpiresAt tk) @ ''  last used '' @ never (TI_LastUsedAt tk))"

definition tokenLsCmd :: "'w cli_env \<Rightarrow> config \<Rightarrow> 'w action" where
  "tokenLsCmd ce cfg s =
     (case on_net (cc_ListTokens (ce_net ce) (ce_codec ce) (New_client cfg)) s of
        (Inl err, s1) \<Rightarrow> (Some (CliClient err), s1)
      | (Inr tokens, s1) \<Rightarrow>
          (None, if tokens = [] then say (''(no tokens '' @ dash @ '' mint one with `crate token create <name>`)'') s1
                 else fold (\<lambda>tk. say (token_line ce tk)) tokens s1))"

definition tokenRevokeCmd :: "'w cli_env \<Rightarrow> config \<Rightarrow> string \<Rightarrow> 'w action" where
  "tokenRevokeCmd ce cfg idOrName s =
     (case on_net (cc_RevokeToken (ce_net ce) (ce_codec ce) (New_client cfg) idOrName) s of
        (Inl err, s1) \<Rightarrow> (Some (CliClient err), s1)
      | (Inr u, s1) \<Rightarrow> (None, say (''revoked '' @ idOrName) s1))"

section \<open>The command line\<close>

datatype command =
    CmdPush push_cmd
  | CmdLs
  | CmdRm string
  | CmdOpen string
  | CmdStatus
  | CmdTokenShow
  | CmdTokenCreate string string
  | CmdTokenLs
  | CmdTokenRevoke string
  | CmdUpdate
  | CmdVersion

text \<open>What the parser reports as the selected command.\<close>

fun command_path :: "command \<Rightarrow> string" where
  "command_path (CmdPush c) = ''push <src> <name>''"
| "command_path CmdLs = ''ls''"
| "command_path (CmdRm n) = ''rm <name>''"
| "command_path (CmdOpen n) = ''open <name>''"
| "command_path CmdStatus = ''status''"
| "command_path CmdTokenShow = ''token show''"
| "command_path (CmdTokenCreate n e) = ''token create <name>''"
| "command_path CmdTokenLs = ''token ls''"
| "command_path (CmdTokenRevoke t) = ''token revoke <id-or-name>''"
| "command_path CmdUpdate = ''update''"
| "command_path CmdVersion = ''version''"

definition commandNeedsConfig :: "string \<Rightarrow> bool" where
  "commandNeedsConfig command = (command \<noteq> ''update'' \<and> command \<noteq> ''version'')"

definition loadConfig :: "'w cli_env \<Rightarrow> string \<Rightarrow> world \<Rightarrow> (config_err + config) \<times> world" where
  "loadConfig ce configFile w =
     (case ResolvePaths (ce_env ce) (ce_xdg ce) w of
        (Inl err, w1) \<Rightarrow> (Inl err, w1)
      | (Inr p, w1) \<Rightarrow>
          (let p = (if configFile \<noteq> [] then p\<lparr>P_ConfigFile := ce_path ce configFile\<rparr> else p)
           in LoadOrInit (ce_env ce) (ce_marshal ce) (ce_unmarshal ce) (ce_rand ce) (ce_getenv ce) p w1))"

fun Run :: "'w cli_env \<Rightarrow> config \<Rightarrow> command \<Rightarrow> 'w action" where
  "Run ce cfg (CmdPush c) = pushCmd ce cfg c"
| "Run ce cfg CmdLs = lsCmd ce cfg"
| "Run ce cfg (CmdRm n) = rmCmd ce cfg n"
| "Run ce cfg (CmdOpen n) = openCmd ce cfg n"
| "Run ce cfg CmdStatus = statusCmd ce cfg"
| "Run ce cfg CmdTokenShow = tokenShowCmd ce cfg"
| "Run ce cfg (CmdTokenCreate n e) = tokenCreateCmd ce cfg n e"
| "Run ce cfg CmdTokenLs = tokenLsCmd ce cfg"
| "Run ce cfg (CmdTokenRevoke t) = tokenRevokeCmd ce cfg t"
| "Run ce cfg CmdUpdate = updateCmd ce"
| "Run ce cfg CmdVersion = versionCmd ce"

text \<open>
  \<^verbatim>\<open>main\<close> and its exit status.  Commands that need no configuration are run without one, for which
  the zero value stands in here.  The error that \<^verbatim>\<open>main\<close> prints to the standard error is a result.
\<close>

definition crate_main :: "'w cli_env \<Rightarrow> string \<Rightarrow> command \<Rightarrow> 'w cli_state \<Rightarrow> (cli_err option \<times> nat) \<times> 'w cli_state" where
  "crate_main ce configFile cmd s =
     (let finish = (\<lambda>(err, s). ((err, if err = None then 0 else 1), s))
      in if commandNeedsConfig (command_path cmd) then
           (case loadConfig ce configFile (ci_fs s) of
              (Inl err, w1) \<Rightarrow> ((Some (CliConfig err), 1), s\<lparr>ci_fs := w1\<rparr>)
            | (Inr cfg, w1) \<Rightarrow> finish (Run ce cfg cmd (s\<lparr>ci_fs := w1\<rparr>)))
         else finish (Run ce zero_config cmd s))"

end
