(* ===== verification/CLI_Props.thy ===== *)
theory CLI_Props
  imports Publish Crate_CLI
begin

text \<open>
  The exit status of the \<^verbatim>\<open>crate\<close> command against what the broker did.
\<close>

lemma on_net_run: "on_net f s = (x, s') \<Longrightarrow> f (ci_net s) = (x, ci_net s') \<and> ci_out s' = ci_out s \<and> ci_fs s' = ci_fs s"
  by (auto simp: on_net_def split: prod.splits)

lemma say_keeps [simp]: "ci_net (say x s) = ci_net s" "ci_fs (say x s) = ci_fs s"
  by (simp_all add: say_def)

text \<open>A source that was pushed with success, whatever its kind, went through one upload.\<close>

lemma push_source_ok:
  assumes "push_source ce c cmd s = (Inr out, s')"
  shows "\<exists>body. PushReaderWithExpiry (ce_net ce) (ce_codec ce) c (pc_Name cmd) body (pc_Expires cmd) (ci_net s) = (Inr out, ci_net s')"
proof (cases "pc_Src cmd = ''-''")
  case True
  then show ?thesis
    using assms by (intro exI [where x = "ce_stdin ce"]) (auto simp: push_source_def on_net_def Let_def split: prod.splits sum.splits)
next
  case False
  let ?src = "ce_path ce (pc_Src cmd)"
  obtain x w1 where st: "os_Stat (ce_env ce) ?src (ci_fs s) = (x, w1)" by (rule that [OF surjective_pairing])
  note run = assms [unfolded push_source_def Let_def st prod.case]
  show ?thesis
  proof (cases x)
    case (Inl err)
    then show ?thesis using run False by simp
  next
    case (Inr n)
    show ?thesis
    proof (cases n)
      case (Folder m es)
      obtain y w2 where tarred: "WriteDirAsTar (ce_env ce) ?src w1 = (y, w2)" by (rule that [OF surjective_pairing])
      show ?thesis
        using run False Inr Folder tarred
        by (intro exI [where x = "tar_pipe (ce_pack ce) (ce_sent ce) y"]) (auto simp: PushWithExpiry_def split: prod.splits sum.splits)
    next
      case (File b m)
      obtain d w2 where rd: "os_ReadFile (ce_env ce) ?src w1 = (d, w2)" by (rule that [OF surjective_pairing])
      show ?thesis
      proof (cases d)
        case (Inl err)
        then show ?thesis using run False \<open>x = Inr n\<close> File rd by simp
      next
        case d: (Inr data)
        show ?thesis
          using run False Inr File rd d
          by (intro exI [where x = "(data, False)"]) (auto simp: on_net_def split: prod.splits sum.splits)
      qed
    qed
  qed
qed

lemma openBrowser_keeps:
  assumes "\<forall>args w. content (snd (ce_Start ce args w)) = content w" "openBrowser ce url s = (ok, s')"
  shows "content (ci_net s') = content (ci_net s)"
proof -
  have "content (ci_net s') = content (ci_net s)" if "on_net (ce_Start ce args) s = (ok, s')" for args
    using on_net_run [OF that] assms(1) by (metis snd_conv)
  then show ?thesis using assms(2) by (auto simp: openBrowser_def Let_def split: if_splits)
qed

text \<open>
  C18: The exit status of \<^verbatim>\<open>crate push\<close> is honest.  If it is 0, then the broker at the configured URL
  handed an upload under that name and expiry to its backend, the backend stored it, and that
  was the last thing that happened to what is stored.  Whether the source was a directory, an
  archive or the standard input, and whether a browser was opened, makes no difference.
\<close>

theorem push_exit_status:
  assumes "crate_main ce configFile (CmdPush cmd) s = ((err, 0), s')"
    and "ce_net ce = server_net base enc ps srv" "ps \<in> {Handler, BrokerHandler}" "nameRE (pc_Name cmd)"
    and "\<forall>cfg. fst (loadConfig ce configFile (ci_fs s)) = Inr cfg \<longrightarrow> TrimRight (EffectiveAPIURL cfg) slash = base"
    and "sr_mutable srv = Some be" "env_quiet content (sr_env srv)" "\<forall>w. content (snd (be_List (sr_store srv) w)) = content w"
    and "\<forall>args w. content (sv_world (snd (ce_Start ce args w))) = content (sv_world w)"
  shows "\<exists>body dur w1 site w2. parseExpiry (pc_Expires cmd) = Inr dur \<and>
    be_Replace be (pc_Name cmd) (se_tar (sr_env srv) body) dur w1 = (Inr site, w2) \<and>
    content (sv_world (ci_net s')) = content w2"
proof -
  obtain x w1 where load: "loadConfig ce configFile (ci_fs s) = (x, w1)" by (rule that [OF surjective_pairing])
  have needs: "commandNeedsConfig (command_path (CmdPush cmd))" by (simp add: commandNeedsConfig_def)
  note run = assms(1) [unfolded crate_main_def Let_def load prod.case]
  obtain cfg where cfg: "x = Inr cfg" using run needs by (cases x) auto
  let ?s = "s\<lparr>ci_fs := w1\<rparr>" and ?c = "New_client cfg"
  have cmd: "pushCmd ce cfg cmd ?s = (None, s')"
    using run needs cfg by (auto split: prod.splits if_splits)
  have base: "cl_base ?c = base" using assms(5) load cfg by (simp add: New_client_def)
  obtain res s1 where src: "push_source ce ?c cmd ?s = (res, s1)" by (rule that [OF surjective_pairing])
  note cmd = cmd [unfolded pushCmd_def src prod.case Let_def]
  obtain site reply where res: "res = Inr (site, reply)" using cmd by (cases res) auto
  have kept: "content (sv_world (ci_net s')) = content (sv_world (ci_net s1))"
    using cmd res openBrowser_keeps [where content = "\<lambda>st. content (sv_world st)" and ce = ce, OF assms(9)]
    by (auto split: if_splits prod.splits)
  obtain body where "PushReaderWithExpiry (server_net base enc ps srv) (ce_codec ce) ?c (pc_Name cmd) body (pc_Expires cmd) (ci_net s)
      = (Inr (site, reply), ci_net s1)"
    using push_source_ok [OF src [unfolded res]] assms(2) by auto
  from push_stored [OF this base assms(4,3,6,7,8)] show ?thesis using kept by metis
qed

section \<open>A command to try\<close>

definition cli_config :: config where
  "cli_config = server_config\<lparr>C_ListenAddr := ''x'', C_Port := 1, C_StorageBackend := BackendLocal\<rparr>"

definition sample_cli :: "world sstate cli_env" where
  "sample_cli = \<lparr>ce_net = server_net ''http://h'' (\<lambda>p. ''{}'') Handler push_server, ce_codec = push_codec, ce_env = calm,
     ce_pack = (\<lambda>ts. []), ce_sent = [], ce_stdin = (''tar'', False), ce_stdoutOK = True, ce_path = (\<lambda>p. [p]), ce_zone = (\<lambda>t. 0),
     ce_getenv = (\<lambda>v. []), ce_GOOS = ''linux'', ce_GOARCH = ''amd64'', ce_Start = (\<lambda>args w. (True, w)),
     ce_lib = \<lparr>ul_NewVersion = (\<lambda>v. None), ul_NewUpdater = (\<lambda>c. False), ul_DetectLatest = (\<lambda>c s w. (None, w)),
       ul_GreaterThan = (\<lambda>l v. False), ul_UpdateTo = (\<lambda>c l p w. (False, w)), ul_ExecutablePath = (\<lambda>w. (None, w))\<rparr>,
     ce_stamped = ''v1'', ce_embedded = None, ce_xdg = \<lparr>X_ConfigHome = [], X_DataHome = [], X_StateHome = []\<rparr>,
     ce_marshal = (\<lambda>c. None), ce_unmarshal = (\<lambda>d. Some cli_config), ce_rand = (\<lambda>k n. None)\<rparr>"

definition sample_process :: "world sstate cli_state" where
  "sample_process = \<lparr>ci_out = [], ci_net = sample_state sample_world,
     ci_fs = \<lparr>w_fs = Folder 0 [(''crate'', Folder 0 [(''config.yaml'', File ''doc'' 0)])], w_tick = 0\<rparr>\<rparr>"

definition sample_cmd :: command where
  "sample_cmd = CmdPush \<lparr>pc_Src = ''-'', pc_Name = ''new'', pc_Open = True, pc_Expires = ''never''\<rparr>"

theorem push_exit_status_witness:
  "snd (fst (crate_main sample_cli [] sample_cmd sample_process)) = 0 \<and>
   (\<exists>body dur w1 site w2. ReplaceFromTarWithExpiry calm sample_store ''new'' (se_tar (sr_env push_server) body) dur w1 = (Inr site, w2))"
proof -
  have zero: "snd (fst (crate_main sample_cli [] sample_cmd sample_process)) = 0" by code_simp
  then obtain err s' where run: "crate_main sample_cli [] sample_cmd sample_process = ((err, 0), s')" by (metis prod.collapse)
  have store: "sr_store push_server = local_backend calm sample_store" "sr_mutable push_server = Some (local_backend calm sample_store)"
    "sr_env push_server = (sample_senv 9)\<lparr>se_tar := (\<lambda>b. src_tar)\<rparr>"
    by (simp_all add: push_server_def)
  have net: "ce_net sample_cli = server_net ''http://h'' (\<lambda>p. ''{}'') Handler push_server" by (simp add: sample_cli_def)
  have name: "nameRE ''new''" by code_simp
  have "case fst (loadConfig sample_cli [] (ci_fs sample_process)) of Inl err \<Rightarrow> True
      | Inr cfg \<Rightarrow> TrimRight (EffectiveAPIURL cfg) slash = ''http://h''"
    by code_simp
  then have base: "\<forall>cfg. fst (loadConfig sample_cli [] (ci_fs sample_process)) = Inr cfg \<longrightarrow> TrimRight (EffectiveAPIURL cfg) slash = ''http://h''"
    by (auto split: sum.splits)
  have quiet: "env_quiet w_fs (sr_env push_server)" by (simp add: store env_quiet_def sample_senv_def)
  have list: "\<forall>w. w_fs (snd (be_List (sr_store push_server) w)) = w_fs w"
    using loc.list_keeps [of calm sample_store] unfolding store by (metis prod.collapse)
  have start: "\<forall>args w. w_fs (sv_world (snd (ce_Start sample_cli args w))) = w_fs (sv_world w)" by (simp add: sample_cli_def)
  have rep: "be_Replace (local_backend calm sample_store) = ReplaceFromTarWithExpiry calm sample_store" by (simp add: local_backend_def)
  have handler: "Handler \<in> {Handler, BrokerHandler}" by simp
  show ?thesis
    using push_exit_status [OF run [unfolded sample_cmd_def] net handler _ base store(2) quiet list start] name zero
    unfolding rep push_cmd.simps by blast
qed

end
