(* ===== verification/Daemon.thy ===== *)
theory Daemon
  imports Backends Telemetry
begin

text \<open>
  \<^verbatim>\<open>cmd/crated/main.go\<close>: the daemon.  Starting it resolves paths, loads the configuration, opens the
  backend and the tokens and builds the server for its role; then it serves, sweeps expired
  sites every minute and shuts down.  The world of the process holds the file system, the
  object store's cache, the bucket and the token document.  What comes from third-party
  libraries (YAML, the object-store client, templates, telemetry) and from the network is a
  record of parameters.
\<close>

section \<open>The world of the process\<close>

record 'b dworld =
  dw_fs :: world
  dw_store :: s3_store
  dw_bucket :: 'b
  dw_doc :: document

text \<open>An operation on a part of the world as an operation on the world.\<close>

definition on_part :: "('w \<Rightarrow> 'p) \<Rightarrow> ('p \<Rightarrow> 'w \<Rightarrow> 'w) \<Rightarrow> ('p \<Rightarrow> 'a \<times> 'p) \<Rightarrow> 'w \<Rightarrow> 'a \<times> 'w" where
  "on_part gt pt f w = (let (r, p) = f (gt w) in (r, pt p w))"

definition lift_backend :: "('w \<Rightarrow> 'p) \<Rightarrow> ('p \<Rightarrow> 'w \<Rightarrow> 'w) \<Rightarrow> 'p backend \<Rightarrow> 'w backend" where
  "lift_backend gt pt be =
     \<lparr>be_List = on_part gt pt (be_List be),
      be_Names = on_part gt pt (be_Names be),
      be_Exists = (\<lambda>name. on_part gt pt (be_Exists be name)),
      be_Stat = (\<lambda>name. on_part gt pt (be_Stat be name)),
      be_Open = (\<lambda>name w. case on_part gt pt (be_Open be name) w of
                   (Inl err, w1) \<Rightarrow> (Inl err, w1)
                 | (Inr f, w1) \<Rightarrow> (Inr (\<lambda>p. on_part gt pt (f p)), w1)),
      be_Replace = (\<lambda>name ts dur. on_part gt pt (be_Replace be name ts dur)),
      be_Delete = (\<lambda>name. on_part gt pt (be_Delete be name)),
      be_DeleteExpired = (\<lambda>now. on_part gt pt (be_DeleteExpired be now))\<rparr>"

definition put_fs :: "world \<Rightarrow> 'b dworld \<Rightarrow> 'b dworld" where
  "put_fs p w = w\<lparr>dw_fs := p\<rparr>"

definition on_fs :: "(world \<Rightarrow> 'a \<times> world) \<Rightarrow> 'b dworld \<Rightarrow> 'a \<times> 'b dworld" where
  "on_fs = on_part dw_fs put_fs"

definition on_bucket :: "('b \<Rightarrow> 'a \<times> 'b) \<Rightarrow> 'b dworld \<Rightarrow> 'a \<times> 'b dworld" where
  "on_bucket = on_part dw_bucket (\<lambda>p w. w\<lparr>dw_bucket := p\<rparr>)"

definition on_doc :: "(document \<times> 'b \<Rightarrow> 'a \<times> document \<times> 'b) \<Rightarrow> 'b dworld \<Rightarrow> 'a \<times> 'b dworld" where
  "on_doc = on_part (\<lambda>w. (dw_doc w, dw_bucket w)) (\<lambda>p w. w\<lparr>dw_doc := fst p, dw_bucket := snd p\<rparr>)"

section \<open>Parameters\<close>

record cli =
  cli_Config :: string
  cli_Role :: string
  cli_LogFormat :: string
  cli_MetricsAddr :: string

record 'b denv =
  de_env :: env
  de_xdg :: xdg
  de_marshal :: yaml_out
  de_unmarshal :: yaml_in
  de_tmarshal :: marshal_fn
  de_tunmarshal :: unmarshal_fn
  de_rand :: rand_fn
  de_getenv :: "string \<Rightarrow> string"
  de_path :: "string \<Rightarrow> fpath"
  de_connect :: "s3_config \<Rightarrow> string \<Rightarrow> bool \<Rightarrow> store_err + 'b s3_client"
  de_otel :: otel
  de_ShutdownFails :: bool
    \<comment> \<open>whether flushing the metrics at the end fails\<close>
  de_template :: "index_view \<Rightarrow> string option"
  de_parse :: "bytes \<Rightarrow> (index_view \<Rightarrow> string option) option"
  de_Listen :: "string \<Rightarrow> bool"
  de_embedded :: node
  de_Version :: string
  de_senv :: "'b dworld senv"

datatype daemon_err =
    DConfig config_err
  | DStore store_err
  | DToken token_err
  | DTelemetry telemetry_err
  | DMetricsShutdown
  | DListen string
  | DImplementation
  | DServe string
  | DShutdown
  | DPanic

section \<open>The backend and the tokens\<close>

datatype 'b opened = OpenLocal store | OpenS3 "'b s3_client"

definition s3_settings_of :: "config \<Rightarrow> duration \<Rightarrow> s3_config" where
  "s3_settings_of cfg metaTTL =
     (let c = C_S3 cfg
      in \<lparr>cfg_Endpoint = S3_Endpoint c, cfg_Bucket = S3_Bucket c, cfg_Region = S3_Region c, cfg_AccessKey = S3_AccessKey c,
          cfg_SecretKey = S3_SecretKey c, cfg_Prefix = S3_Prefix c, cfg_UseSSL = True, cfg_MaxSiteBytes = C_MaxUploadBytes cfg,
          cfg_CacheBytes = S3_CacheBytes c, cfg_MetaTTL = metaTTL\<rparr>)"

definition openStore :: "'b denv \<Rightarrow> config \<Rightarrow> paths \<Rightarrow> 'b dworld \<Rightarrow> (daemon_err + 'b opened) \<times> 'b dworld" where
  "openStore de cfg p w =
     (if C_StorageBackend cfg = BackendS3 then
        (case MetaTTLDuration (C_S3 cfg) of
           Inl err \<Rightarrow> (Inl (DConfig err), w)
         | Inr metaTTL \<Rightarrow>
             (case on_bucket (s3_New (de_connect de) (s3_settings_of cfg metaTTL)) w of
                (Inl err, w1) \<Rightarrow> (Inl (DStore err), w1)
              | (Inr (cl, store), w1) \<Rightarrow> (Inr (OpenS3 cl), w1\<lparr>dw_store := store\<rparr>)))
      else (Inr (OpenLocal (SetMaxSiteBytes (New (P_SitesDir p)) (C_MaxUploadBytes cfg))), w))"

fun backend_of :: "'b denv \<Rightarrow> 'b opened \<Rightarrow> 'b dworld backend" where
  "backend_of de (OpenLocal s) = lift_backend dw_fs put_fs (local_backend (de_env de) s)"
| "backend_of de (OpenS3 cl) =
     lift_backend (\<lambda>w. (dw_store w, dw_bucket w)) (\<lambda>p w. w\<lparr>dw_store := fst p, dw_bucket := snd p\<rparr>) (s3_backend cl)"

text \<open>
  A way to load and one to save the tokens.  Making the handle of the document is putting a
  fresh one into the world.
\<close>

definition tokenPersistence ::
  "'b denv \<Rightarrow> config \<Rightarrow> paths \<Rightarrow> 'b opened \<Rightarrow> 'b dworld \<Rightarrow>
     (daemon_err + 'b dworld load_fn \<times> 'b dworld save_fn) \<times> 'b dworld" where
  "tokenPersistence de cfg p opened w =
     (if C_StorageBackend cfg = BackendS3 then
        (case opened of
           OpenS3 cl \<Rightarrow>
             (Inr (on_doc (Document_Load cl), \<lambda>data. on_doc (Document_Save cl data)),
              w\<lparr>dw_doc := Document (dw_store w) tokensFileName\<rparr>)
         | OpenLocal s \<Rightarrow> (Inl DImplementation, w))
      else (Inr (on_fs (FileStore_Load (de_env de) (P_TokensFile p)), \<lambda>data. on_fs (FileStore_Save (de_env de) (P_TokensFile p) data)), w))"

section \<open>Starting\<close>

definition Sites :: "'b denv \<Rightarrow> builtin_site list" where
  "Sites de = [\<lparr>bi_Name = ''cratesplainer'', bi_FS = de_embedded de\<rparr>]"

definition resolve_paths :: "'b denv \<Rightarrow> cli \<Rightarrow> 'b dworld \<Rightarrow> (daemon_err + paths) \<times> 'b dworld" where
  "resolve_paths de c w =
     (case on_fs (if cli_Role c = ''web'' then ResolvePathsReadOnly (de_env de) (de_xdg de) else ResolvePaths (de_env de) (de_xdg de)) w of
        (Inl err, w1) \<Rightarrow> (Inl (DConfig err), w1)
      | (Inr p, w1) \<Rightarrow>
          (if cli_Config c \<noteq> []
           then Inr (p\<lparr>P_ConfigFile := de_path de (cli_Config c), P_TokensFile := fjoin (fdir (de_path de (cli_Config c))) tokensFileName\<rparr>)
           else Inr p, w1))"

definition load_config :: "'b denv \<Rightarrow> cli \<Rightarrow> paths \<Rightarrow> 'b dworld \<Rightarrow> (daemon_err + config) \<times> 'b dworld" where
  "load_config de c p w =
     (case on_fs (if cli_Role c = ''web'' then LoadReadOnly (de_env de) (de_unmarshal de) (de_getenv de) p
                  else LoadOrInit (de_env de) (de_marshal de) (de_unmarshal de) (de_rand de) (de_getenv de) p) w of
        (Inl err, w1) \<Rightarrow> (Inl (DConfig err), w1)
      | (Inr cfg, w1) \<Rightarrow> (case ValidateStorage cfg of Some err \<Rightarrow> Inl (DConfig err) | None \<Rightarrow> Inr cfg, w1))"

text \<open>The metrics of every role but web.\<close>

definition start_metrics :: "'b denv \<Rightarrow> cli \<Rightarrow> daemon_err + provider option" where
  "start_metrics de c =
     (if cli_Role c = ''web'' then Inr None
      else case tel_Start (de_otel de) (de_getenv de) of
        None \<Rightarrow> Inl DPanic
      | Some (Inl err) \<Rightarrow> Inl (DTelemetry err)
      | Some (Inr p) \<Rightarrow> Inr (Some p))"

text \<open>The named tokens of every role but web, with the way to save them.\<close>

definition load_tokens ::
  "'b denv \<Rightarrow> cli \<Rightarrow> config \<Rightarrow> paths \<Rightarrow> 'b opened \<Rightarrow> 'b dworld \<Rightarrow> (daemon_err + (token_store \<times> 'b dworld save_fn) option) \<times> 'b dworld" where
  "load_tokens de c cfg p opened w =
     (if cli_Role c = ''web'' then (Inr None, w)
      else case tokenPersistence de cfg p opened w of
        (Inl err, w1) \<Rightarrow> (Inl err, w1)
      | (Inr (load, save), w1) \<Rightarrow>
          (case LoadFrom (de_tunmarshal de) load w1 of
             (Inl err, w2) \<Rightarrow> (Inl (DToken err), w2)
           | (Inr ts, w2) \<Rightarrow> (Inr (Some (ts, save)), w2)))"

definition make_server ::
  "'b denv \<Rightarrow> cli \<Rightarrow> config \<Rightarrow> 'b opened \<Rightarrow> (token_store \<times> 'b dworld save_fn) option \<Rightarrow> 'b dworld \<Rightarrow>
     'b dworld server \<times> 'b dworld sstate" where
  "make_server de c cfg opened tokens w =
     (let builtins = (if cli_Role c = ''broker'' then [] else Sites de);
          be = backend_of de opened;
          senv = (case tokens of None \<Rightarrow> de_senv de
                  | Some (ts, save) \<Rightarrow> (de_senv de)\<lparr>se_marshal := de_tmarshal de, se_save := save\<rparr>);
          st = \<lparr>sv_world = w, sv_tokens = map_option fst tokens, sv_events = []\<rparr>
      in if cli_Role c = ''web'' then (NewReadOnly cfg be builtins (de_template de) (de_Version de) senv, st)
         else (let srv = New_srv cfg be builtins (de_template de) (de_Version de) senv in (srv, refreshMetricSiteCount srv st)))"

definition use_template ::
  "'b denv \<Rightarrow> cli \<Rightarrow> config \<Rightarrow> 'b dworld server \<Rightarrow> 'b dworld sstate \<Rightarrow> (daemon_err + 'b dworld server) \<times> 'b dworld sstate" where
  "use_template de c cfg srv st =
     (if cli_Role c \<noteq> ''broker'' \<and> C_IndexTemplate cfg \<noteq> [] then
        (case on_world (on_fs (UseIndexTemplateFile (de_env de) (de_parse de) (de_path de (C_IndexTemplate cfg)) srv)) st of
           (Inl err, st1) \<Rightarrow> (Inl (DStore err), st1)
         | (Inr srv1, st1) \<Rightarrow> (Inr srv1, st1))
      else (Inr srv, st))"

definition handler_for :: "string \<Rightarrow> pattern list" where
  "handler_for role = (if role = ''web'' then PublicHandler else if role = ''broker'' then BrokerHandler else Handler)"

text \<open>A daemon that has started.\<close>

record 'b daemon =
  dm_server :: "'b dworld server"
  dm_patterns :: "pattern list"
  dm_provider :: "provider option"
  dm_listener :: bool
    \<comment> \<open>the listener for metrics\<close>
  dm_watch :: bool
    \<comment> \<open>whether the expiry watcher runs\<close>

definition open_listener :: "'b denv \<Rightarrow> cli \<Rightarrow> provider option \<Rightarrow> daemon_err + bool" where
  "open_listener de c pv =
     (case pv of
        None \<Rightarrow> Inr False
      | Some p \<Rightarrow>
          if pv_handler p then (if de_Listen de (cli_MetricsAddr c) then Inr True else Inl (DListen (cli_MetricsAddr c)))
          else Inr False)"

text \<open>What \<^verbatim>\<open>run\<close> does after the metrics have started.\<close>

definition start_rest ::
  "'b denv \<Rightarrow> cli \<Rightarrow> config \<Rightarrow> paths \<Rightarrow> provider option \<Rightarrow> 'b dworld \<Rightarrow> daemon_err + 'b daemon \<times> 'b dworld sstate" where
  "start_rest de c cfg p pv w =
     (case openStore de cfg p w of
        (Inl err, w1) \<Rightarrow> Inl err
      | (Inr opened, w1) \<Rightarrow>
          (case load_tokens de c cfg p opened w1 of
             (Inl err, w2) \<Rightarrow> Inl err
           | (Inr tokens, w2) \<Rightarrow>
               (let (srv, st) = make_server de c cfg opened tokens w2
                in case use_template de c cfg srv st of
                     (Inl err, st1) \<Rightarrow> Inl err
                   | (Inr srv1, st1) \<Rightarrow>
                       (case open_listener de c pv of
                          Inl err \<Rightarrow> Inl err
                        | Inr listener \<Rightarrow>
                            Inr (\<lparr>dm_server = srv1, dm_patterns = handler_for (cli_Role c), dm_provider = pv, dm_listener = listener,
                                  dm_watch = (cli_Role c \<noteq> ''web'')\<rparr>, st1)))))"

text \<open>The deferred shutdown of the metrics joins its error to the one of \<^verbatim>\<open>run\<close>.\<close>

definition metrics_shutdown :: "'b denv \<Rightarrow> provider option \<Rightarrow> daemon_err list" where
  "metrics_shutdown de pv =
     (case pv of None \<Rightarrow> [] | Some p \<Rightarrow> if pv_mode p \<noteq> metricsExporterNone \<and> de_ShutdownFails de then [DMetricsShutdown] else [])"

text \<open>The start of \<^verbatim>\<open>run\<close>: the errors it returns, or a daemon and its state.\<close>

definition start :: "'b denv \<Rightarrow> cli \<Rightarrow> 'b dworld \<Rightarrow> daemon_err list + 'b daemon \<times> 'b dworld sstate" where
  "start de c w =
     (case resolve_paths de c w of
        (Inl err, w1) \<Rightarrow> Inl [err]
      | (Inr p, w1) \<Rightarrow>
          (case load_config de c p w1 of
             (Inl err, w2) \<Rightarrow> Inl [err]
           | (Inr cfg, w2) \<Rightarrow>
               (case start_metrics de c of
                  Inl err \<Rightarrow> Inl [err]
                | Inr pv \<Rightarrow>
                    (case start_rest de c cfg p pv w2 of
                       Inl err \<Rightarrow> Inl (err # metrics_shutdown de pv)
                     | Inr d \<Rightarrow> Inr d))))"

section \<open>Serving\<close>

text \<open>One sweep of the watcher.\<close>

definition remove :: "'w server \<Rightarrow> 'w sstate \<Rightarrow> 'w sstate" where
  "remove srv st =
     (let (now, st1) = on_world (se_now (sr_env srv)) st
      in case srv_DeleteExpired srv now st1 of
           (None, st2) \<Rightarrow> st2
         | (Some (deleted, Some err), st2) \<Rightarrow> emit (LogEvent LevelError ''expiry cleanup failed'') st2
         | (Some (deleted, None), st2) \<Rightarrow> fold (\<lambda>name. emit (LogEvent LevelInfo ''site expired'')) deleted st2)"

text \<open>
  The loop of \<^verbatim>\<open>watchExpiries\<close> picks one of the channels that are ready; the list is what it picks.
  It sweeps once before the loop.
\<close>

datatype pick = Tick | Cancelled

fun watch_loop :: "'w server \<Rightarrow> pick list \<Rightarrow> 'w sstate \<Rightarrow> 'w sstate" where
  "watch_loop srv [] st = st"
| "watch_loop srv (Cancelled # ps) st = st"
| "watch_loop srv (Tick # ps) st = watch_loop srv ps (remove srv st)"

definition watchExpiries :: "'w server \<Rightarrow> pick list \<Rightarrow> 'w sstate \<Rightarrow> 'w sstate" where
  "watchExpiries srv ps st = watch_loop srv ps (remove srv st)"

text \<open>
  The process while it serves: requests on the listener and picks of the watcher interleave;
  once the context is cancelled the watcher is gone.
\<close>

datatype act = Serve request | Watch pick

inductive daemon_step :: "pattern list \<Rightarrow> 'w server \<Rightarrow> 'w sstate \<times> bool \<Rightarrow> act \<Rightarrow> 'w sstate \<times> bool \<Rightarrow> bool"
  for ps :: "pattern list" and srv :: "'w server" where
  step_serve: "serve ps srv r st = (resp, st') \<Longrightarrow> daemon_step ps srv (st, b) (Serve r) (st', b)"
| step_tick: "daemon_step ps srv (st, True) (Watch Tick) (remove srv st, True)"
| step_cancel: "daemon_step ps srv (st, True) (Watch Cancelled) (st, False)"

inductive_cases step_tickE: "daemon_step ps srv s (Watch Tick) s'"
inductive_cases step_cancelE: "daemon_step ps srv s (Watch Cancelled) s'"
inductive_cases step_serveE: "daemon_step ps srv s (Serve r) s'"

section \<open>Ending\<close>

text \<open>
  The end of \<^verbatim>\<open>run\<close>: a signal, or a listener that stopped, with its error unless that is
  \<^verbatim>\<open>http.ErrServerClosed\<close>.  Then both servers shut down, which may fail, and the metrics too.
\<close>

datatype ending = Signalled | Stopped "string option"

definition shutdown_errs :: "'b daemon \<Rightarrow> bool \<Rightarrow> bool \<Rightarrow> daemon_err list" where
  "shutdown_errs d http_fails metrics_fails =
     (if http_fails then [DShutdown] else []) @ (if dm_listener d \<and> metrics_fails then [DShutdown] else [])"

definition finish :: "'b denv \<Rightarrow> 'b daemon \<Rightarrow> ending \<Rightarrow> bool \<Rightarrow> bool \<Rightarrow> daemon_err list" where
  "finish de d how http_fails metrics_fails =
     (case how of
        Signalled \<Rightarrow> []
      | Stopped None \<Rightarrow> []
      | Stopped (Some err) \<Rightarrow> [DServe err]) @
     shutdown_errs d http_fails metrics_fails @ metrics_shutdown de (dm_provider d)"

text \<open>\<^verbatim>\<open>main\<close>: the exit status.\<close>

definition exit_status :: "daemon_err list \<Rightarrow> nat" where
  "exit_status errs = (if errs = [] then 0 else 1)"

end
