(* ===== verification/Daemon_Props.thy ===== *)
theory Daemon_Props
  imports Daemon
begin

text \<open>
  The theorems of the daemon: what a role can do at all, and that an expired site does not stay.
\<close>

section \<open>Roles\<close>

lemma on_fs_run:
  assumes "on_fs f w = (x, w')"
  shows "f (dw_fs w) = (x, dw_fs w')"
  using assms by (auto simp: on_fs_def on_part_def put_fs_def split: prod.splits)

lemma resolve_paths_web:
  assumes "cli_Role c = ''web''" "resolve_paths de c w = (Inr p, w')"
  shows "dw_fs w' = dw_fs w"
proof -
  obtain x w1 where x: "on_fs (ResolvePathsReadOnly (de_env de) (de_xdg de)) w = (x, w1)" by (rule that [OF surjective_pairing])
  have "dw_fs w1 = dw_fs w" using on_fs_run [OF x] by (simp add: ResolvePathsReadOnly_def resolvePaths_def Let_def)
  then show ?thesis using assms x by (cases x) (auto simp: resolve_paths_def)
qed

lemma load_config_web:
  assumes "cli_Role c = ''web''" "load_config de c p w = (Inr cfg, w')"
  shows "w_fs (dw_fs w') = w_fs (dw_fs w) \<and> C_Token cfg = []"
proof -
  obtain x w1 where x: "on_fs (LoadReadOnly (de_env de) (de_unmarshal de) (de_getenv de) p) w = (x, w1)"
    by (rule that [OF surjective_pairing])
  have "x = Inr cfg" "w1 = w'" using assms x by (cases x; auto simp: load_config_def split: option.splits)+
  then show ?thesis using LoadReadOnly_quiet [OF on_fs_run [OF x]] by simp
qed

lemma openStore_fs:
  assumes "openStore de cfg p w = (Inr opened, w')"
  shows "dw_fs w' = dw_fs w"
  using assms by (auto simp: openStore_def on_bucket_def on_part_def split: if_splits sum.splits prod.splits)

lemma UseIndexTemplateFile_run:
  assumes "UseIndexTemplateFile e parse p srv v = (Inr srv1, v')"
  shows "w_fs v' = w_fs v \<and> (\<exists>t. srv1 = srv\<lparr>sr_indexTmpl := t\<rparr>)"
proof -
  obtain x v1 where rd: "os_ReadFile e p v = (x, v1)" by (rule that [OF surjective_pairing])
  show ?thesis using assms rd reads_fs(4) [OF rd] by (cases x) (auto simp: UseIndexTemplateFile_def split: option.splits)
qed

lemma use_template_run:
  assumes "use_template de c cfg srv st = (Inr srv1, st1)"
  shows "w_fs (dw_fs (sv_world st1)) = w_fs (dw_fs (sv_world st)) \<and> sv_tokens st1 = sv_tokens st \<and> (\<exists>t. srv1 = srv\<lparr>sr_indexTmpl := t\<rparr>)"
proof (cases "cli_Role c \<noteq> ''broker'' \<and> C_IndexTemplate cfg \<noteq> []")
  case True
  let ?f = "UseIndexTemplateFile (de_env de) (de_parse de) (de_path de (C_IndexTemplate cfg)) srv"
  obtain x st2 where x: "on_world (on_fs ?f) st = (x, st2)" by (rule that [OF surjective_pairing])
  have "x = Inr srv1" "st2 = st1" using assms True x by (cases x; auto simp: use_template_def)+
  then obtain w1 where w1: "on_fs ?f (sv_world st) = (Inr srv1, w1)" "st1 = st\<lparr>sv_world := w1\<rparr>"
    using x by (auto simp: on_world_def split: prod.splits)
  show ?thesis using UseIndexTemplateFile_run [OF on_fs_run [OF w1(1)]] w1(2) by simp
next
  case False
  then have "srv1 = srv\<lparr>sr_indexTmpl := sr_indexTmpl srv\<rparr>" "st1 = st" using assms by (auto simp: use_template_def)
  then show ?thesis by blast
qed

lemma start_parts:
  assumes "start de c w = Inr (d, st)"
  shows "\<exists>p w1 cfg w2 pv opened w3 tokens w4 srv st1. resolve_paths de c w = (Inr p, w1) \<and> load_config de c p w1 = (Inr cfg, w2) \<and>
    start_metrics de c = Inr pv \<and> openStore de cfg p w2 = (Inr opened, w3) \<and> load_tokens de c cfg p opened w3 = (Inr tokens, w4) \<and>
    make_server de c cfg opened tokens w4 = (srv, st1) \<and> use_template de c cfg srv st1 = (Inr (dm_server d), st) \<and>
    open_listener de c pv = Inr (dm_listener d) \<and> dm_patterns d = handler_for (cli_Role c) \<and> dm_provider d = pv \<and>
    (dm_watch d \<longleftrightarrow> cli_Role c \<noteq> ''web'')"
proof -
  obtain p w1 where p: "resolve_paths de c w = (Inr p, w1)"
    using assms by (auto simp: start_def split: prod.splits sum.splits)
  obtain cfg w2 where cfg: "load_config de c p w1 = (Inr cfg, w2)"
    using assms by (auto simp: start_def p split: prod.splits sum.splits)
  obtain pv where pv: "start_metrics de c = Inr pv"
    using assms by (auto simp: start_def p cfg split: sum.splits)
  have rest: "start_rest de c cfg p pv w2 = Inr (d, st)"
    using assms by (auto simp: start_def p cfg pv split: sum.splits)
  obtain opened w3 where o: "openStore de cfg p w2 = (Inr opened, w3)"
    using rest by (auto simp: start_rest_def split: prod.splits sum.splits)
  obtain tokens w4 where t: "load_tokens de c cfg p opened w3 = (Inr tokens, w4)"
    using rest by (auto simp: start_rest_def o split: prod.splits sum.splits)
  obtain srv st1 where s: "make_server de c cfg opened tokens w4 = (srv, st1)" by (rule that [OF surjective_pairing])
  obtain srv2 st2 where u: "use_template de c cfg srv st1 = (Inr srv2, st2)"
    using rest by (auto simp: start_rest_def o t s split: prod.splits sum.splits)
  obtain listener where l: "open_listener de c pv = Inr listener"
    using rest by (auto simp: start_rest_def o t s u split: sum.splits)
  show ?thesis using rest p cfg pv o t s u l by (auto simp: start_rest_def)
qed

text \<open>
  C15: What each role is able to do.  A started web role has no backend to write with, no tokens, no
  root token in its configuration, only the public routes, no expiry watcher and no metrics
  listener, and starting it has not changed the file system at all.  Every other role can
  write, has tokens and a watcher, and serves the control plane; the broker serves nothing else
  and no built-in sites.  There is a metrics listener exactly in Prometheus mode.
\<close>

theorem daemon_roles:
  assumes "start de c w = Inr (d, st)"
  shows "(if cli_Role c = ''web''
      then sr_mutable (dm_server d) = None \<and> sv_tokens st = None \<and> C_Token (sr_cfg (dm_server d)) = [] \<and>
           dm_patterns d = PublicHandler \<and> \<not> dm_watch d \<and> w_fs (dw_fs (sv_world st)) = w_fs (dw_fs w)
      else sr_mutable (dm_server d) = Some (sr_store (dm_server d)) \<and> sv_tokens st \<noteq> None \<and> dm_watch d \<and>
           dm_patterns d = (if cli_Role c = ''broker'' then BrokerHandler else Handler)) \<and>
    (cli_Role c = ''broker'' \<longrightarrow> sr_builtins (dm_server d) = []) \<and>
    (dm_listener d \<longleftrightarrow> (\<exists>p. dm_provider d = Some p \<and> pv_mode p = metricsExporterPrometheus))"
proof -
  obtain p w1 cfg w2 pv opened w3 tokens w4 srv st1 where parts: "resolve_paths de c w = (Inr p, w1)" "load_config de c p w1 = (Inr cfg, w2)"
      "start_metrics de c = Inr pv" "openStore de cfg p w2 = (Inr opened, w3)" "load_tokens de c cfg p opened w3 = (Inr tokens, w4)"
      "make_server de c cfg opened tokens w4 = (srv, st1)" "use_template de c cfg srv st1 = (Inr (dm_server d), st)"
      "open_listener de c pv = Inr (dm_listener d)"
    and d: "dm_patterns d = handler_for (cli_Role c)" "dm_provider d = pv" "dm_watch d \<longleftrightarrow> cli_Role c \<noteq> ''web''"
    using start_parts [OF assms] by blast
  obtain t where srv: "dm_server d = srv\<lparr>sr_indexTmpl := t\<rparr>" and st: "sv_tokens st = sv_tokens st1"
      "w_fs (dw_fs (sv_world st)) = w_fs (dw_fs (sv_world st1))"
    using use_template_run [OF parts(7)] by blast
  have web: "sr_mutable srv = None \<and> sv_tokens st1 = None \<and> C_Token (sr_cfg srv) = [] \<and>
      w_fs (dw_fs (sv_world st1)) = w_fs (dw_fs w)" if "cli_Role c = ''web''"
  proof -
    have "tokens = None" "w4 = w3" using parts(5) that by (simp_all add: load_tokens_def)
    then show ?thesis
      using that parts(6) resolve_paths_web [OF that parts(1)] load_config_web [OF that parts(2)] openStore_fs [OF parts(4)]
      by (auto simp: make_server_def NewReadOnly_def Let_def)
  qed
  have other: "sr_mutable srv = Some (sr_store srv) \<and> sv_tokens st1 \<noteq> None" if "cli_Role c \<noteq> ''web''"
  proof -
    have "tokens \<noteq> None" using parts(5) that by (auto simp: load_tokens_def split: prod.splits sum.splits)
    moreover have "sv_tokens (refreshMetricSiteCount s x) = sv_tokens x" for s and x :: "'a dworld sstate"
      by (auto simp: refreshMetricSiteCount_def list_sites_def on_world_def emit_def split: prod.splits sum.splits)
    ultimately show ?thesis using that parts(6) by (auto simp: make_server_def New_srv_def Let_def)
  qed
  have builtins: "cli_Role c = ''broker'' \<longrightarrow> sr_builtins srv = []"
    using parts(6) by (auto simp: make_server_def New_srv_def Let_def)
  have listener: "dm_listener d \<longleftrightarrow> (\<exists>p. pv = Some p \<and> pv_mode p = metricsExporterPrometheus)"
  proof (cases pv)
    case None
    then show ?thesis using parts(8) by (simp add: open_listener_def)
  next
    case (Some q)
    have "pv_handler q \<longleftrightarrow> pv_mode q = metricsExporterPrometheus"
      using parts(3) Some tel_Start_cases [of "de_otel de" "de_getenv de" q]
      by (auto simp: start_metrics_def disabledProvider_def metricsExporterNone_def metricsExporterPrometheus_def
          metricsExporterOTLP_def split: if_splits option.splits sum.splits)
    then show ?thesis using parts(8) Some by (auto simp: open_listener_def split: if_splits)
  qed
  show ?thesis using web other builtins listener srv st d by (auto simp: handler_for_def)
qed

text \<open>A daemon to start.\<close>

definition daemon_config :: config where
  "daemon_config = zero_config\<lparr>C_BaseURL := ''http://h'', C_ListenAddr := ''x'', C_Port := 1, C_Token := ''root'', C_MaxUploadBytes := 100,
     C_StorageBackend := BackendLocal\<rparr>"

definition daemon_senv :: "time \<Rightarrow> 'w senv" where
  "daemon_senv T = \<lparr>se_now = (\<lambda>w. (T, w)), se_rand = (\<lambda>w k n. None), se_marshal = (\<lambda>rs. Some []), se_save = (\<lambda>d w. (Inr (), w)),
     se_decode = (\<lambda>b f. None), se_tar = (\<lambda>b. TarEOF), se_CreateTemp = (\<lambda>w. (True, w)), se_CopyWrite = (\<lambda>w. (True, w)),
     se_Seek = (\<lambda>w. (True, w))\<rparr>"

definition sample_denv :: "unit denv" where
  "sample_denv = \<lparr>de_env = calm, de_xdg = \<lparr>X_ConfigHome = [], X_DataHome = [], X_StateHome = []\<rparr>,
     de_marshal = (\<lambda>c. None), de_unmarshal = (\<lambda>d. Some daemon_config), de_tmarshal = (\<lambda>rs. None), de_tunmarshal = (\<lambda>d. None),
     de_rand = (\<lambda>k n. None), de_getenv = (\<lambda>v. []), de_path = (\<lambda>p. [p]), de_connect = (\<lambda>c x y. Inl EIO),
     de_otel = \<lparr>ot_Prometheus = True, ot_GRPC = True, ot_HTTP = True, ot_Instrument = (\<lambda>n u. True)\<rparr>, de_ShutdownFails = False,
     de_template = (\<lambda>v. None), de_parse = (\<lambda>b. None), de_Listen = (\<lambda>x. True), de_embedded = Folder 0 [], de_Version = ''v1'',
     de_senv = daemon_senv 9\<rparr>"

definition sample_dworld :: "unit dworld" where
  "sample_dworld = \<lparr>dw_fs = \<lparr>w_fs = Folder 0 [(''crate'', Folder 0 [(''config.yaml'', File ''doc'' 0)])], w_tick = 0\<rparr>,
     dw_store = \<lparr>ss_prefix = [], ss_maxSiteBytes = 0, ss_metaTTL = 0, ss_content = newCache 0, ss_meta = [], ss_metaAt = 0, ss_metaValid = False\<rparr>,
     dw_bucket = (), dw_doc = \<lparr>d_key = [], d_etag = [], d_seen = False\<rparr>\<rparr>"

definition sample_cli_of :: "string \<Rightarrow> cli" where
  "sample_cli_of role = \<lparr>cli_Config = [], cli_Role = role, cli_LogFormat = ''text'', cli_MetricsAddr = ''m''\<rparr>"

theorem daemon_roles_witness:
  "\<exists>d st. start sample_denv (sample_cli_of ''web'') sample_dworld = Inr (d, st) \<and> sr_mutable (dm_server d) = None \<and>
     C_Token (sr_cfg (dm_server d)) = [] \<and> C_Token daemon_config = ''root''"
proof -
  have "isl (start sample_denv (sample_cli_of ''web'') sample_dworld) = False" by code_simp
  then obtain d st where run: "start sample_denv (sample_cli_of ''web'') sample_dworld = Inr (d, st)"
    by (cases "start sample_denv (sample_cli_of ''web'') sample_dworld") auto
  have "C_Token daemon_config = ''root''" by (simp add: daemon_config_def)
  then show ?thesis using daemon_roles [OF run] run by (simp add: sample_cli_of_def)
qed

section \<open>Expired sites go away\<close>

text \<open>A site with a deadline, on the disk of a process with the local backend.\<close>

definition has_deadline :: "store \<Rightarrow> string \<Rightarrow> time \<Rightarrow> node \<Rightarrow> bool" where
  "has_deadline s name t fs \<longleftrightarrow>
     (\<exists>m es. lookup fs (st_root s @ [name]) = Some (Folder m es)) \<and> recorded fs (expiryPath s name) (Some t)"

lemma has_deadline_due:
  assumes "has_deadline s name t fs" "year_ok t" "t \<le> now"
  shows "due_on_disk s fs now name"
  using assms Parse_TrimSpace_Format [OF assms(2)] by (simp add: has_deadline_def recorded_def due_on_disk_def)

lemma lookup_parent:
  assumes "lookup n (ps @ [c]) = Some d"
  shows "\<exists>m es. lookup n ps = Some (Folder m es) \<and> map_of es c = Some d"
proof -
  obtain x where x: "lookup n ps = Some x" "lookup x [c] = Some d"
    using assms by (auto simp: lookup_append split: option.splits)
  then show ?thesis by (cases x) (auto split: option.splits)
qed

text \<open>One sweep when no call fails.\<close>

lemma emits_world: "sv_world (fold (\<lambda>n. emit (f n)) xs st) = sv_world st"
  by (induction xs arbitrary: st) (simp_all add: emit_def)

lemma refresh_fs:
  assumes "sr_store srv = lift_backend dw_fs put_fs (local_backend e s)"
  shows "w_fs (dw_fs (sv_world (refreshMetricSiteCount srv st))) = w_fs (dw_fs (sv_world st))"
proof -
  obtain x w1 where x: "on_fs (Local_Store.List e s) (sv_world st) = (x, w1)" by (rule that [OF surjective_pairing])
  have "w_fs (dw_fs w1) = w_fs (dw_fs (sv_world st))" using List_fs [OF on_fs_run [OF x]] .
  then show ?thesis
    using x assms
    by (cases x) (auto simp: refreshMetricSiteCount_def list_sites_def on_world_def lift_backend_def local_backend_def on_fs_def emit_def)
qed

lemma sweep_removes:
  assumes be: "sr_store srv = lift_backend dw_fs put_fs (local_backend e s)" "sr_mutable srv = Some (sr_store srv)"
    and site: "fault_free e" "nameRE name" "has_deadline s name t (w_fs (dw_fs (sv_world st)))" "year_ok t"
    and now: "t \<le> fst (se_now (sr_env srv) (sv_world st))" "\<forall>w. w_fs (dw_fs (snd (se_now (sr_env srv) w))) = w_fs (dw_fs w)"
  shows "lookup (w_fs (dw_fs (sv_world (remove srv st)))) (st_root s @ [name]) = None"
proof -
  obtain T w1 where T: "se_now (sr_env srv) (sv_world st) = (T, w1)" by (rule that [OF surjective_pairing])
  have w1: "w_fs (dw_fs w1) = w_fs (dw_fs (sv_world st))" and le: "t \<le> T" using now T by (metis snd_conv, simp)
  obtain names err w2 where run: "on_fs (DeleteExpired e s T) w1 = ((names, err), w2)" by (metis prod.exhaust)
  note sweep = on_fs_run [OF run]
  obtain m es where dir: "lookup (w_fs (dw_fs w1)) (st_root s @ [name]) = Some (Folder m es)"
    using site(3) w1 by (auto simp: has_deadline_def)
  obtain m0 es0 where root: "lookup (w_fs (dw_fs w1)) (st_root s) = Some (Folder m0 es0)" "map_of es0 name = Some (Folder m es)"
    using lookup_parent [OF dir] by blast
  have due: "due_on_disk s (w_fs (dw_fs w1)) T name" using has_deadline_due [OF site(3,4) le] w1 by simp
  have "ValidateName name = None" using site(2) by simp
  from DeleteExpired_removes [OF site(1) sweep root _ this due]
  have gone: "err = None" "lookup (w_fs (dw_fs w2)) (st_root s @ [name]) = None" by simp_all
  have call: "on_world (be_DeleteExpired (sr_store srv) T) (st\<lparr>sv_world := w1\<rparr>) = ((names, err), st\<lparr>sv_world := w2\<rparr>)"
    using run be(1) by (simp add: on_world_def lift_backend_def local_backend_def on_fs_def)
  have "w_fs (dw_fs (sv_world (remove srv st))) = w_fs (dw_fs w2)"
    using T call gone(1) be(2) refresh_fs [OF be(1)]
    by (simp add: remove_def on_world_def [of "se_now (sr_env srv)"] srv_DeleteExpired_def emits_world emit_def)
  then show ?thesis using gone(2) by simp
qed

text \<open>
  C7: Expired sites go away.  Take any infinite run of the broker with the local backend on which no
  system call fails: requests of any kind and ticks of the watcher interleave in any order, but
  the ticks do not stop, and the clock eventually passes \<^verbatim>\<open>t\<close> for good.  Then no site keeps the
  deadline \<^verbatim>\<open>t\<close> forever: at some point it has been swept (or before that removed, or pushed again
  with another deadline).
\<close>

theorem expired_eventually_removed:
  assumes run: "\<forall>i. daemon_step ps srv (\<sigma> i) (acts i) (\<sigma> (Suc i))"
    and ticks: "\<forall>i. \<exists>j \<ge> i. acts j = Watch Tick"
    and clock: "\<exists>n. \<forall>i \<ge> n. t \<le> fst (se_now (sr_env srv) (sv_world (fst (\<sigma> i))))"
    and be: "sr_store srv = lift_backend dw_fs put_fs (local_backend e s)" "sr_mutable srv = Some (sr_store srv)"
    and env: "fault_free e" "\<forall>w. w_fs (dw_fs (snd (se_now (sr_env srv) w))) = w_fs (dw_fs w)"
    and site: "nameRE name" "year_ok t"
  shows "\<exists>i. \<not> has_deadline s name t (w_fs (dw_fs (sv_world (fst (\<sigma> i)))))"
proof -
  obtain n where n: "\<forall>i \<ge> n. t \<le> fst (se_now (sr_env srv) (sv_world (fst (\<sigma> i))))" using clock by blast
  obtain j where j: "j \<ge> n" "acts j = Watch Tick" using ticks by blast
  have "daemon_step ps srv (\<sigma> j) (Watch Tick) (\<sigma> (Suc j))" using run j(2) by metis
  then have next_state: "fst (\<sigma> (Suc j)) = remove srv (fst (\<sigma> j))" by (rule step_tickE) simp
  show ?thesis
  proof (cases "has_deadline s name t (w_fs (dw_fs (sv_world (fst (\<sigma> j)))))")
    case True
    have "lookup (w_fs (dw_fs (sv_world (fst (\<sigma> (Suc j)))))) (st_root s @ [name]) = None"
      using sweep_removes [OF be env(1) site(1) True site(2) _ env(2)] n j(1) next_state by simp
    then have "\<not> has_deadline s name t (w_fs (dw_fs (sv_world (fst (\<sigma> (Suc j))))))" by (simp add: has_deadline_def)
    then show ?thesis by blast
  qed blast
qed

text \<open>A process that only ticks, on a disk with one expired site.\<close>

definition watch_server :: "unit dworld server" where
  "watch_server = New_srv daemon_config (lift_backend dw_fs put_fs (local_backend calm sample_store)) [] (\<lambda>v. None) ''v1'' (daemon_senv 5000000000)"

fun ticking :: "nat \<Rightarrow> unit dworld sstate \<times> bool" where
  "ticking 0 = (\<lparr>sv_world = sample_dworld\<lparr>dw_fs := sample_world\<rparr>, sv_tokens = None, sv_events = []\<rparr>, True)"
| "ticking (Suc n) = (remove watch_server (fst (ticking n)), True)"

theorem expired_eventually_removed_witness:
  "has_deadline sample_store ''a'' 5000000000 (w_fs (dw_fs (sv_world (fst (ticking 0))))) \<and>
   (\<exists>i. \<not> has_deadline sample_store ''a'' 5000000000 (w_fs (dw_fs (sv_world (fst (ticking i))))))"
proof -
  have here: "has_deadline sample_store ''a'' 5000000000 (w_fs (dw_fs (sv_world (fst (ticking 0)))))"
  proof -
    have "recorded (w_fs sample_world) (expiryPath sample_store ''a'') (Some 5000000000)" by code_simp
    moreover have "st_root sample_store = [''s'']" by (simp add: sample_store_def New_def)
    ultimately show ?thesis using sample_lookup by (simp add: has_deadline_def)
  qed
  have flag: "snd (ticking i)" for i by (cases i) simp_all
  have run: "\<forall>i. daemon_step Handler watch_server (ticking i) (Watch Tick) (ticking (Suc i))"
    using step_tick flag by (metis (full_types) prod.collapse ticking.simps(2))
  have env: "sr_env watch_server = daemon_senv 5000000000" "sr_store watch_server = lift_backend dw_fs put_fs (local_backend calm sample_store)"
    "sr_mutable watch_server = Some (sr_store watch_server)"
    by (simp_all add: watch_server_def New_srv_def)
  have calm: "fault_free calm" by (simp add: fault_free_def calm_def)
  have clock: "se_now (sr_env watch_server) w = (5000000000, w)" for w by (simp add: env(1) daemon_senv_def)
  have names: "nameRE ''a''" "year_ok 5000000000" by code_simp+
  have "\<exists>i. \<not> has_deadline sample_store ''a'' 5000000000 (w_fs (dw_fs (sv_world (fst (ticking i)))))"
    by (rule expired_eventually_removed [OF run _ _ env(2,3) calm _ names]) (auto simp: clock)
  then show ?thesis using here by blast
qed

end
