(* ===== verification/Spec2Isabelle.thy ===== *)
theory Spec2Isabelle
  imports Mem_FS Lru_Cache Archive_Roundtrip Token_Props Public_Props Broker_Metrics CLI_Props Daemon_Props
begin

text \<open>
  A verification development of crate-html.
\<close>

end
